theory Spec2Isabelle
  imports Main "HOL-Library.Char_ord" "HOL-Library.List_Lexorder" "HOL-Library.Multiset"
    "HOL-Library.Sublist"
begin

section \<open>Strings and JavaScript built-ins used by the sources\<close>

text \<open>
  Strings are \<open>char list\<close>; comparison of strings (\<open>>\<close> in the sources) is the
  lexicographic order on code units, here the order of \<open>HOL-Library.List_Lexorder\<close> over
  \<open>HOL-Library.Char_ord\<close>.
\<close>

text \<open>\<open>Array.prototype.join\<close>: the elements separated by \<open>sep\<close>; the empty array gives
  the empty string.\<close>

fun join :: "string \<Rightarrow> string list \<Rightarrow> string" where
  "join sep [] = []"
| "join sep [x] = x"
| "join sep (x # y # ys) = x @ sep @ join sep (y # ys)"

text \<open>The white space and line terminators that \<open>String.prototype.trim\<close> strips, as far as
  they are single 8-bit code units: TAB, LF, VT, FF, CR, SPACE and NBSP.\<close>

definition is_space :: "char \<Rightarrow> bool" where
  "is_space c = (of_char c \<in> {9, 10, 11, 12, 13, 32, 160 :: nat})"

definition trim :: "string \<Rightarrow> string" where
  "trim s = rev (dropWhile is_space (rev (dropWhile is_space s)))"

text \<open>\<open>os.EOL\<close>: a line feed on POSIX, carriage return and line feed on Windows.\<close>

datatype platform = Posix | Windows

fun EOL :: "platform \<Rightarrow> string" where
  "EOL Posix = [CHR 0x0A]"
| "EOL Windows = [CHR 0x0D, CHR 0x0A]"

text \<open>Decimal rendering of a number, as a template literal \<open>${n}\<close> prints it.\<close>

definition digit_char :: "nat \<Rightarrow> char" where
  "digit_char d = ''0123456789'' ! d"

function show_nat :: "nat \<Rightarrow> string" where
  "show_nat n = (if n < 10 then [digit_char n] else show_nat (n div 10) @ [digit_char (n mod 10)])"
  by pat_completeness auto
termination
  by (relation "measure id") auto

declare show_nat.simps [simp del]

definition show_int :: "int \<Rightarrow> string" where
  "show_int i = (if i < 0 then CHR ''-'' # show_nat (nat (- i)) else show_nat (nat i))"

text \<open>\<open>String.prototype.replace\<close> with a string pattern and a replacement free of \<open>$\<close>:
  the first occurrence of the pattern is replaced, a string without one is returned as
  it is.\<close>

fun replace_first :: "string \<Rightarrow> string \<Rightarrow> string \<Rightarrow> string" where
  "replace_first pat rep [] = (if pat = [] then rep else [])"
| "replace_first pat rep (c # cs) =
     (if prefix pat (c # cs) then rep @ drop (length pat) (c # cs)
      else c # replace_first pat rep cs)"

text \<open>A \<open>Map\<close> keeps its keys in insertion order; \<open>set\<close> on a key it holds replaces the
  value in place, on a new key it appends the entry.\<close>

type_synonym ('k, 'v) jsmap = "('k \<times> 'v) list"

fun map_set :: "'k \<Rightarrow> 'v \<Rightarrow> ('k, 'v) jsmap \<Rightarrow> ('k, 'v) jsmap" where
  "map_set k v [] = [(k, v)]"
| "map_set k v ((k', v') # m) = (if k' = k then (k, v) # m else (k', v') # map_set k v m)"

definition map_has :: "'k \<Rightarrow> ('k, 'v) jsmap \<Rightarrow> bool" where
  "map_has k m = (k \<in> set (map fst m))"

definition map_get :: "('k, 'v) jsmap \<Rightarrow> 'k \<Rightarrow> 'v option" where
  "map_get m k = map_of m k"

text \<open>\<open>files.get(k).push(x)\<close>: the array stored under \<open>k\<close> grows by \<open>x\<close>. Every call in
  the sources is on a key the map holds.\<close>

definition map_push :: "'k \<Rightarrow> 'a \<Rightarrow> ('k, 'a list) jsmap \<Rightarrow> ('k, 'a list) jsmap" where
  "map_push k x m = map (\<lambda>(k', xs). if k' = k then (k', xs @ [x]) else (k', xs)) m"

text \<open>\<open>Array.prototype.sort\<close> with a comparator: the model inserts each element in front of
  the first one it does not compare greater than. (The order the built-in gives to elements
  that the comparator does not separate is the engine's choice; nothing below depends on
  it.)\<close>

fun insert_by :: "('a \<Rightarrow> 'a \<Rightarrow> int) \<Rightarrow> 'a \<Rightarrow> 'a list \<Rightarrow> 'a list" where
  "insert_by cmp x [] = [x]"
| "insert_by cmp x (y # ys) = (if cmp x y > 0 then y # insert_by cmp x ys else x # y # ys)"

definition sort_by :: "('a \<Rightarrow> 'a \<Rightarrow> int) \<Rightarrow> 'a list \<Rightarrow> 'a list" where
  "sort_by cmp xs = foldr (insert_by cmp) xs []"

section \<open>FSHExporter\<close>

subsection \<open>Exportables and the package\<close>

text \<open>What the exporter reads of a rule: its class, and for assignment and caret value
  rules the \<open>isInstance\<close> flag and the value, which is compared with a name by \<open>===\<close> and
  so matters only when it is a string.\<close>

datatype fshValue = StringValue string | OtherValue

datatype rule =
    ExportableAssignmentRule bool fshValue
  | ExportableCaretValueRule bool fshValue
  | ExportableObeysRule "string list"
  | OtherRule

text \<open>What the exporter reads of an exportable: its name, its rendering (the result of
  its \<open>toFSH()\<close> method, which is not part of these sources), its rules, and for an instance
  its usage and the profile it instantiates.\<close>

record entity =
  name :: string
  toFSH :: string

record resource = entity +
  rules :: "rule list"

record fsh_instance = resource +
  usage :: string
  instanceOf :: string

datatype exportable =
    ExportableAlias entity
  | ExportableProfile resource
  | ExportableExtension resource
  | ExportableCodeSystem entity
  | ExportableValueSet entity
  | ExportableInstance fsh_instance
  | ExportableInvariant entity
  | ExportableMapping entity

record package =
  aliases :: "entity list"
  profiles :: "resource list"
  extensions :: "resource list"
  codeSystems :: "entity list"
  valueSets :: "entity list"
  instances :: "fsh_instance list"
  invariants :: "entity list"
  mappings :: "entity list"

fun exportable_name :: "exportable \<Rightarrow> string" where
  "exportable_name (ExportableAlias a) = name a"
| "exportable_name (ExportableProfile p) = name p"
| "exportable_name (ExportableExtension e) = name e"
| "exportable_name (ExportableCodeSystem c) = name c"
| "exportable_name (ExportableValueSet v) = name v"
| "exportable_name (ExportableInstance i) = name i"
| "exportable_name (ExportableInvariant i) = name i"
| "exportable_name (ExportableMapping m) = name m"

fun exportable_toFSH :: "exportable \<Rightarrow> string" where
  "exportable_toFSH (ExportableAlias a) = toFSH a"
| "exportable_toFSH (ExportableProfile p) = toFSH p"
| "exportable_toFSH (ExportableExtension e) = toFSH e"
| "exportable_toFSH (ExportableCodeSystem c) = toFSH c"
| "exportable_toFSH (ExportableValueSet v) = toFSH v"
| "exportable_toFSH (ExportableInstance i) = toFSH i"
| "exportable_toFSH (ExportableInvariant i) = toFSH i"
| "exportable_toFSH (ExportableMapping m) = toFSH m"

text \<open>\<open>exportable.constructor.name\<close>.\<close>

fun constructor_name :: "exportable \<Rightarrow> string" where
  "constructor_name (ExportableAlias _) = ''ExportableAlias''"
| "constructor_name (ExportableProfile _) = ''ExportableProfile''"
| "constructor_name (ExportableExtension _) = ''ExportableExtension''"
| "constructor_name (ExportableCodeSystem _) = ''ExportableCodeSystem''"
| "constructor_name (ExportableValueSet _) = ''ExportableValueSet''"
| "constructor_name (ExportableInstance _) = ''ExportableInstance''"
| "constructor_name (ExportableInvariant _) = ''ExportableInvariant''"
| "constructor_name (ExportableMapping _) = ''ExportableMapping''"

fun is_alias :: "exportable \<Rightarrow> bool" where
  "is_alias (ExportableAlias _) = True"
| "is_alias _ = False"

type_synonym files = "(string, exportable list) jsmap"

subsection \<open>The grouping strategies\<close>

definition groupAsSingleFile :: "package \<Rightarrow> files" where
  "groupAsSingleFile pkg =
     map_set ''resources.fsh''
       (map ExportableAlias (aliases pkg) @
        map ExportableProfile (profiles pkg) @
        map ExportableExtension (extensions pkg) @
        map ExportableCodeSystem (codeSystems pkg) @
        map ExportableValueSet (valueSets pkg) @
        map ExportableInstance (instances pkg) @
        map ExportableInvariant (invariants pkg) @
        map ExportableMapping (mappings pkg)) []"

text \<open>A \<open>for\<close> loop that stores one file per definition, named after it.\<close>

definition set_each :: "string \<Rightarrow> ('a \<Rightarrow> exportable) \<Rightarrow> ('a \<Rightarrow> string) \<Rightarrow> 'a list \<Rightarrow> files \<Rightarrow> files" where
  "set_each sfx mk nm xs fs = foldl (\<lambda>m x. map_set (nm x @ sfx) [mk x] m) fs xs"

definition groupAsFilePerDefinition :: "package \<Rightarrow> files" where
  "groupAsFilePerDefinition pkg =
     (let files = map_set ''aliases.fsh'' (map ExportableAlias (aliases pkg)) [];
          files = set_each ''-Invariant.fsh'' ExportableInvariant name (invariants pkg) files;
          files = set_each ''-Mapping.fsh'' ExportableMapping name (mappings pkg) files;
          files = set_each ''-Profile.fsh'' ExportableProfile name (profiles pkg) files;
          files = set_each ''-Extension.fsh'' ExportableExtension name (extensions pkg) files;
          files = set_each ''-CodeSystem.fsh'' ExportableCodeSystem name (codeSystems pkg) files;
          files = set_each ''-ValueSet.fsh'' ExportableValueSet name (valueSets pkg) files;
          files = set_each ''-Instance.fsh'' ExportableInstance name (instances pkg) files
      in files)"

definition groupByFSHType :: "package \<Rightarrow> files" where
  "groupByFSHType pkg =
     (let files = map_set ''aliases.fsh'' (map ExportableAlias (aliases pkg)) [];
          files = map_set ''profiles.fsh'' (map ExportableProfile (profiles pkg)) files;
          files = map_set ''extensions.fsh'' (map ExportableExtension (extensions pkg)) files;
          files = map_set ''valueSets.fsh'' (map ExportableValueSet (valueSets pkg)) files;
          files = map_set ''codeSystems.fsh'' (map ExportableCodeSystem (codeSystems pkg)) files;
          files = map_set ''instances.fsh'' (map ExportableInstance (instances pkg)) files;
          files = map_set ''invariants.fsh'' (map ExportableInvariant (invariants pkg)) files;
          files = map_set ''mappings.fsh'' (map ExportableMapping (mappings pkg)) files
      in files)"

text \<open>\<open>inlineInstanceUsedIn\<close>: one entry per rule that references the instance, in the
  order of the files, of the instances, profiles and extensions in each file, and of their
  rules.\<close>

fun resource_rules :: "exportable \<Rightarrow> rule list option" where
  "resource_rules (ExportableInstance i) = Some (rules i)"
| "resource_rules (ExportableProfile p) = Some (rules p)"
| "resource_rules (ExportableExtension e) = Some (rules e)"
| "resource_rules _ = None"

fun references_instance :: "string \<Rightarrow> rule \<Rightarrow> bool" where
  "references_instance n (ExportableAssignmentRule isInstance v) = (isInstance \<and> v = StringValue n)"
| "references_instance n (ExportableCaretValueRule isInstance v) = (isInstance \<and> v = StringValue n)"
| "references_instance n _ = False"

definition inlineInstanceUsedIn :: "fsh_instance \<Rightarrow> files \<Rightarrow> string list" where
  "inlineInstanceUsedIn inlineInstance files =
     concat (map (\<lambda>(file, exportables).
       concat (map (\<lambda>resource.
         map (\<lambda>rule. file) (filter (references_instance (name inlineInstance)) (the (resource_rules resource))))
         (filter (\<lambda>exportable. resource_rules exportable \<noteq> None) exportables)))
       files)"

text \<open>\<open>invariantUsedIn\<close>: one entry per obeys rule of a profile whose keys include the
  invariant's name.\<close>

fun profile_rules :: "exportable \<Rightarrow> rule list option" where
  "profile_rules (ExportableProfile p) = Some (rules p)"
| "profile_rules _ = None"

fun obeys_invariant :: "string \<Rightarrow> rule \<Rightarrow> bool" where
  "obeys_invariant n (ExportableObeysRule keys) = (n \<in> set keys)"
| "obeys_invariant n _ = False"

definition invariantUsedIn :: "entity \<Rightarrow> files \<Rightarrow> string list" where
  "invariantUsedIn invariant files =
     concat (map (\<lambda>(file, exportables).
       concat (map (\<lambda>profile.
         map (\<lambda>rule. file) (filter (obeys_invariant (name invariant)) (the (profile_rules profile))))
         (filter (\<lambda>exportable. profile_rules exportable \<noteq> None) exportables)))
       files)"

text \<open>The three placement loops of \<open>groupByProfile\<close>, one step each.\<close>

definition place_nonInline :: "files \<Rightarrow> fsh_instance \<Rightarrow> files" where
  "place_nonInline files i =
     (if usage i = ''Example'' \<and> map_has (instanceOf i @ ''.fsh'') files
      then map_push (instanceOf i @ ''.fsh'') (ExportableInstance i) files
      else map_push ''instances.fsh'' (ExportableInstance i) files)"

definition place_inline :: "files \<Rightarrow> fsh_instance \<Rightarrow> files" where
  "place_inline files i =
     (let usedIn = inlineInstanceUsedIn i files
      in if length usedIn = 1
         then map_push (usedIn ! 0) (ExportableInstance i) files
         else map_push ''instances.fsh'' (ExportableInstance i) files)"

definition place_invariant :: "files \<Rightarrow> entity \<Rightarrow> files" where
  "place_invariant files invariant =
     (let usedIn = invariantUsedIn invariant files
      in if length usedIn = 1
         then map_push (usedIn ! 0) (ExportableInvariant invariant) files
         else map_push ''invariants.fsh'' (ExportableInvariant invariant) files)"

text \<open>\<open>groupByProfile\<close>, in the order of its statements: the profile files and the shared
  \<open>instances.fsh\<close> with the instances that are not inline; then the inline instances; then
  \<open>invariants.fsh\<close> and the invariants; then the files of the other categories.\<close>

definition nonInline_files :: "package \<Rightarrow> files" where
  "nonInline_files pkg =
     (let files = foldl (\<lambda>m profile. map_set (name profile @ ''.fsh'') [ExportableProfile profile] m)
                    [] (profiles pkg);
          files = map_set ''instances.fsh'' [] files;
          nonInlineInstances = filter (\<lambda>i. \<not> usage i = ''Inline'') (instances pkg)
      in foldl place_nonInline files nonInlineInstances)"

definition inlineInstances :: "package \<Rightarrow> fsh_instance list" where
  "inlineInstances pkg = filter (\<lambda>i. usage i = ''Inline'') (instances pkg)"

definition instance_files :: "package \<Rightarrow> files" where
  "instance_files pkg = foldl place_inline (nonInline_files pkg) (inlineInstances pkg)"

definition invariant_files :: "package \<Rightarrow> files" where
  "invariant_files pkg = map_set ''invariants.fsh'' [] (instance_files pkg)"

definition groupByProfile :: "package \<Rightarrow> files" where
  "groupByProfile pkg =
     (let files = foldl place_invariant (invariant_files pkg) (invariants pkg);
          files = map_set ''aliases.fsh'' (map ExportableAlias (aliases pkg)) files;
          files = map_set ''extensions.fsh'' (map ExportableExtension (extensions pkg)) files;
          files = map_set ''valueSets.fsh'' (map ExportableValueSet (valueSets pkg)) files;
          files = map_set ''codeSystems.fsh'' (map ExportableCodeSystem (codeSystems pkg)) files;
          files = map_set ''mappings.fsh'' (map ExportableMapping (mappings pkg)) files
      in files)"

subsection \<open>export\<close>

text \<open>The style is a string, or \<open>null\<close>/\<open>undefined\<close> (\<open>None\<close>).\<close>

definition group_files :: "string option \<Rightarrow> package \<Rightarrow> files" where
  "group_files style pkg =
     (if style = Some ''single-file'' then groupAsSingleFile pkg
      else if style = Some ''group-by-fsh-type'' then groupByFSHType pkg
      else if style = Some ''group-by-profile'' then groupByProfile pkg
      else if style = Some ''file-per-definition'' then groupAsFilePerDefinition pkg
      else groupByFSHType pkg)"

datatype level = Info | Warn | Error

type_synonym log = "level \<times> string"

definition plural :: "nat \<Rightarrow> string" where
  "plural n = (if n = 1 then [] else ''s'')"

definition exported_msg :: "nat \<Rightarrow> string \<Rightarrow> log" where
  "exported_msg n what = (Info, ''Exported '' @ show_nat n @ '' '' @ what @ plural n @ ''.'')"

definition export_log :: "string option \<Rightarrow> package \<Rightarrow> log list" where
  "export_log style pkg =
     (case style of
        None \<Rightarrow> []
      | Some s \<Rightarrow>
          if s \<in> {''single-file'', ''group-by-fsh-type'', ''group-by-profile'', ''file-per-definition''}
          then []
          else [(Warn, ''Unrecognized output style '' @ [CHR 0x22] @ s @ [CHR 0x22] @ ''. Defaulting to '' @
                  [CHR 0x22] @ ''by-category'' @ [CHR 0x22] @ '' style.'')])
     @ [exported_msg (length (profiles pkg)) ''Profile'',
        exported_msg (length (extensions pkg)) ''Extension'',
        exported_msg (length (codeSystems pkg)) ''CodeSystem'',
        exported_msg (length (valueSets pkg)) ''ValueSet'',
        exported_msg (length (instances pkg)) ''Instance'',
        exported_msg (length (invariants pkg)) ''Invariant'',
        exported_msg (length (mappings pkg)) ''Mapping'']"

text \<open>The text of one file: the aliases joined by one line break, the other exportables by
  two, the two blocks by two, trimmed.\<close>

definition fileContent :: "platform \<Rightarrow> exportable list \<Rightarrow> string" where
  "fileContent os exportables =
     (let aliases = filter is_alias exportables;
          namedExportables = filter (\<lambda>e. \<not> is_alias e) exportables
      in trim (join (EOL os @ EOL os)
           [join (EOL os) (map exportable_toFSH aliases),
            join (EOL os @ EOL os) (map exportable_toFSH namedExportables)]))"

definition index_line :: "string \<Rightarrow> exportable \<Rightarrow> string list" where
  "index_line file exportable =
     [exportable_name exportable, replace_first ''Exportable'' [] (constructor_name exportable), file]"

text \<open>The body of \<open>files.forEach\<close>: the state is \<open>writtenFiles\<close> and \<open>index\<close>.\<close>

definition write_file ::
  "platform \<Rightarrow> (string, string) jsmap \<times> string list list \<Rightarrow> string \<times> exportable list
     \<Rightarrow> (string, string) jsmap \<times> string list list" where
  "write_file os st entry =
     (case (st, entry) of ((writtenFiles, index), (file, exportables)) \<Rightarrow>
        if fileContent os exportables = [] then (writtenFiles, index)
        else (map_set file (fileContent os exportables) writtenFiles,
              index @ map (index_line file) (filter (\<lambda>e. \<not> is_alias e) exportables)))"

definition written :: "platform \<Rightarrow> files \<Rightarrow> (string, string) jsmap \<times> string list list" where
  "written os files = foldl (write_file os) ([], []) files"

text \<open>The comparator of \<open>index.sort\<close>.\<close>

definition by_name :: "string list \<Rightarrow> string list \<Rightarrow> int" where
  "by_name line1 line2 = (if line1 ! 0 > line2 ! 0 then 1 else - 1)"

definition header :: "string list" where
  "header = [''Name'', ''Type'', ''File'']"

text \<open>\<open>index\<close> as it is handed to \<open>table\<close>.\<close>

definition export_index :: "platform \<Rightarrow> string option \<Rightarrow> package \<Rightarrow> string list list" where
  "export_index os style pkg = header # sort_by by_name (snd (written os (group_files style pkg)))"

text \<open>\<open>export\<close>; \<open>table\<close> is the text-table library's rendering of the index.\<close>

definition export ::
  "platform \<Rightarrow> (string list list \<Rightarrow> string) \<Rightarrow> string option \<Rightarrow> package \<Rightarrow> (string, string) jsmap" where
  "export os table style pkg =
     map_set ''index.txt'' (table (export_index os style pkg))
       (fst (written os (group_files style pkg)))"

section \<open>JSON values and the JavaScript operations the extractor applies to them\<close>

text \<open>The resources and elements that the extractor reads are JSON (\<open>any\<close> in the
  sources). Numbers are integers here; objects are the lists of their members, in order,
  and a JavaScript object has no two members of one name. \<open>undefined\<close> is \<open>None\<close> of
  \<open>json option\<close>.\<close>

datatype json =
    JNull
  | JBool bool
  | JNum int
  | JStr string
  | JArr "json list"
  | JObj "(string \<times> json) list"

type_synonym obj = "(string \<times> json) list"

type_synonym jsval = "json option"

text \<open>The only exception the extractor can raise by itself: a property read on \<open>null\<close> or
  \<open>undefined\<close>, or a call of something that is not a function.\<close>

datatype error = TypeError

text \<open>\<open>o[k]\<close> and \<open>delete o[k]\<close> on an object.\<close>

definition obj_get :: "obj \<Rightarrow> string \<Rightarrow> jsval" where
  "obj_get ms k = map_of ms k"

definition obj_delete :: "string \<Rightarrow> obj \<Rightarrow> obj" where
  "obj_delete k ms = filter (\<lambda>m. fst m \<noteq> k) ms"

text \<open>\<open>x.k\<close> for a value \<open>x\<close> that is neither \<open>null\<close> nor \<open>undefined\<close> and a name \<open>k\<close>
  that is no built-in property (\<open>id\<close>, \<open>key\<close>, \<open>constraint\<close>, \<open>mapping\<close>, \<open>status\<close>): the
  member of an object, \<open>undefined\<close> on every other value.\<close>

fun js_member :: "string \<Rightarrow> json \<Rightarrow> jsval" where
  "js_member k (JObj ms) = obj_get ms k"
| "js_member k _ = None"

text \<open>\<open>x.k\<close>, which throws on \<open>null\<close> and \<open>undefined\<close>, and \<open>x?.k\<close>, which gives
  \<open>undefined\<close> there.\<close>

fun js_prop :: "string \<Rightarrow> jsval \<Rightarrow> error + jsval" where
  "js_prop k None = Inl TypeError"
| "js_prop k (Some JNull) = Inl TypeError"
| "js_prop k (Some x) = Inr (js_member k x)"

fun js_opt_prop :: "string \<Rightarrow> jsval \<Rightarrow> jsval" where
  "js_opt_prop k None = None"
| "js_opt_prop k (Some JNull) = None"
| "js_opt_prop k (Some x) = js_member k x"

text \<open>\<open>x[i]\<close> for a number \<open>i\<close>: an item of an array, a character of a string, the member
  named by the decimal digits of \<open>i\<close> of an object; it throws on \<open>null\<close> and \<open>undefined\<close>.\<close>

fun js_index :: "jsval \<Rightarrow> nat \<Rightarrow> error + jsval" where
  "js_index None i = Inl TypeError"
| "js_index (Some JNull) i = Inl TypeError"
| "js_index (Some (JArr xs)) i = Inr (if i < length xs then Some (xs ! i) else None)"
| "js_index (Some (JStr s)) i = Inr (if i < length s then Some (JStr [s ! i]) else None)"
| "js_index (Some (JObj ms)) i = Inr (obj_get ms (show_nat i))"
| "js_index (Some (JBool b)) i = Inr None"
| "js_index (Some (JNum n)) i = Inr None"

text \<open>\<open>===\<close>: equal primitives; an array or an object is equal only to itself, and the two
  sides never are one object here (they come from different documents).\<close>

fun is_primitive :: "json \<Rightarrow> bool" where
  "is_primitive (JArr xs) = False"
| "is_primitive (JObj ms) = False"
| "is_primitive _ = True"

fun strict_eq :: "jsval \<Rightarrow> jsval \<Rightarrow> bool" where
  "strict_eq None None = True"
| "strict_eq (Some x) (Some y) = (is_primitive x \<and> x = y)"
| "strict_eq _ _ = False"

text \<open>\<open>String(x)\<close>, as a template literal \<open>${x}\<close> applies it.\<close>

fun js_string :: "json \<Rightarrow> string" where
  "js_string JNull = ''null''"
| "js_string (JBool b) = (if b then ''true'' else ''false'')"
| "js_string (JNum n) = show_int n"
| "js_string (JStr s) = s"
| "js_string (JArr xs) = join '','' (map (\<lambda>x. if x = JNull then [] else js_string x) xs)"
| "js_string (JObj ms) = ''[object Object]''"

definition template :: "jsval \<Rightarrow> string" where
  "template v = (case v of None \<Rightarrow> ''undefined'' | Some x \<Rightarrow> js_string x)"

text \<open>\<open>x == s\<close> for a string \<open>s\<close> that is not the text of a number (every \<open>s\<close> compared in
  the sources holds a \<open>/\<close>): a string is compared as it is, an array or object by its
  \<open>String\<close>; \<open>null\<close>, \<open>undefined\<close>, numbers and booleans are different from \<open>s\<close>.\<close>

fun loose_eq_string :: "jsval \<Rightarrow> string \<Rightarrow> bool" where
  "loose_eq_string (Some (JStr t)) s = (t = s)"
| "loose_eq_string (Some (JArr xs)) s = (js_string (JArr xs) = s)"
| "loose_eq_string (Some (JObj ms)) s = (js_string (JObj ms) = s)"
| "loose_eq_string _ s = False"

text \<open>lodash \<open>isEqual\<close> on JSON: deep equality, the members of an object compared by name
  whatever their order. \<open>canon\<close> sorts the members of every object by name.\<close>

fun canon :: "json \<Rightarrow> json" where
  "canon (JArr xs) = JArr (map canon xs)"
| "canon (JObj ms) = JObj (sort_key fst (map (\<lambda>(k, v). (k, canon v)) ms))"
| "canon x = x"

definition isEqual :: "jsval \<Rightarrow> jsval \<Rightarrow> bool" where
  "isEqual a b = (map_option canon a = map_option canon b)"

text \<open>lodash \<open>differenceWith(xs, ys, isEqual)\<close>: the items of \<open>xs\<close> equal to no item of
  \<open>ys\<close>.\<close>

definition differenceWith :: "json list \<Rightarrow> json list \<Rightarrow> json list" where
  "differenceWith xs ys = filter (\<lambda>x. \<not> list_ex (\<lambda>y. isEqual (Some x) (Some y)) ys) xs"

text \<open>\<open>Array.prototype.find\<close> and \<open>findIndex\<close> with a callback that may throw.\<close>

fun find_err :: "('a \<Rightarrow> error + bool) \<Rightarrow> 'a list \<Rightarrow> error + 'a option" where
  "find_err f [] = Inr None"
| "find_err f (x # xs) =
     (case f x of Inl e \<Rightarrow> Inl e | Inr True \<Rightarrow> Inr (Some x) | Inr False \<Rightarrow> find_err f xs)"

fun findIndex_from :: "nat \<Rightarrow> ('a \<Rightarrow> error + bool) \<Rightarrow> 'a list \<Rightarrow> error + int" where
  "findIndex_from n f [] = Inr (- 1)"
| "findIndex_from n f (x # xs) =
     (case f x of Inl e \<Rightarrow> Inl e | Inr True \<Rightarrow> Inr (int n) | Inr False \<Rightarrow> findIndex_from (Suc n) f xs)"

definition findIndex_err :: "('a \<Rightarrow> error + bool) \<Rightarrow> 'a list \<Rightarrow> error + int" where
  "findIndex_err f xs = findIndex_from 0 f xs"

text \<open>\<open>String.prototype.indexOf\<close> and \<open>split\<close> on a separator of one character.\<close>

fun indexOf_from :: "nat \<Rightarrow> string \<Rightarrow> string \<Rightarrow> int" where
  "indexOf_from n pat [] = (if pat = [] then int n else - 1)"
| "indexOf_from n pat (c # cs) = (if prefix pat (c # cs) then int n else indexOf_from (Suc n) pat cs)"

definition indexOf :: "string \<Rightarrow> string \<Rightarrow> int" where
  "indexOf s pat = indexOf_from 0 pat s"

fun split_on :: "char \<Rightarrow> string \<Rightarrow> string list" where
  "split_on sep [] = [[]]"
| "split_on sep (c # cs) =
     (if c = sep then [] # split_on sep cs
      else (case split_on sep cs of [] \<Rightarrow> [[c]] | p # ps \<Rightarrow> (c # p) # ps))"

text \<open>\<open>parseInt\<close> of a string of decimal digits.\<close>

definition is_digit :: "char \<Rightarrow> bool" where
  "is_digit c = (CHR ''0'' \<le> c \<and> c \<le> CHR ''9'')"

definition parseInt :: "string \<Rightarrow> nat" where
  "parseInt ds = foldl (\<lambda>n c. 10 * n + (of_char c - 48)) 0 ds"


section \<open>CaretValueRuleExtractor\<close>

subsection \<open>Rules, collaborators and tables\<close>

text \<open>An \<open>ExportableCaretValueRule\<close> as the extractor builds it: the constructor takes the
  path; the caret path, the value, the comment, and for a concept the flag and the path
  array are assigned by the extractor.\<close>

record 'v caretValueRule =
  path :: string
  caretPath :: string
  value' :: 'v
  fshComment :: "string option"
  isCodeCaretRule :: bool
  pathArray :: "string list"

text \<open>A \<open>ProcessableElementDefinition\<close>: its JSON (\<open>toJSON()\<close>) and the paths that other
  extractors have claimed. A \<open>ProcessableStructureDefinition\<close>: its name and the elements
  of its snapshot (\<open>None\<close> when it has no snapshot, or a snapshot without elements).\<close>

record element =
  elementJSON :: obj
  processedPaths :: "string list"

record structDef =
  sdName :: string
  snapshotElement :: "json list option"

record configuration =
  canonical :: string

text \<open>\<open>fisher.fishForFHIR(x, Resource, Type, Profile, Extension, Logical)\<close>: the definition
  that \<open>x\<close> names, if one is found.\<close>

type_synonym fisher = "jsval \<Rightarrow> obj option"

text \<open>The functions of \<open>../utils\<close>, which are not part of these sources: \<open>getPath\<close>,
  \<open>getPathValuePairs\<close> (the flattening of an object into its leaf paths and values, in
  document order), \<open>getFSHValue\<close> and \<open>isFSHValueEmpty\<close>. \<open>'v\<close> is the type of FSH
  values.\<close>

record 'v utils =
  getPath :: "element \<Rightarrow> string"
  getPathValuePairs :: "obj \<Rightarrow> (string \<times> json) list"
  getFSHValue :: "nat \<Rightarrow> (string \<times> json) list \<Rightarrow> string \<Rightarrow> fisher \<Rightarrow> 'v"
  isFSHValueEmpty :: "'v \<Rightarrow> bool"

definition CONCEPT_IGNORED_PROPERTIES :: "string list" where
  "CONCEPT_IGNORED_PROPERTIES = [''code'', ''display'', ''definition'', ''concept'']"

text \<open>The table is keyed by the name of the resource type; only its three keys are ever
  looked up.\<close>

definition RESOURCE_IGNORED_PROPERTIES :: "string \<Rightarrow> string list" where
  "RESOURCE_IGNORED_PROPERTIES resourceType =
     (if resourceType = ''ValueSet''
      then [''resourceType'', ''id'', ''name'', ''title'', ''description'', ''compose.include'',
            ''compose.exclude'']
      else if resourceType = ''CodeSystem''
      then [''resourceType'', ''id'', ''name'', ''title'', ''description'', ''concept'']
      else if resourceType = ''StructureDefinition''
      then [''resourceType'', ''id'', ''name'', ''title'', ''description'', ''fhirVersion'',
            ''mapping'', ''baseDefinition'', ''derivation'', ''snapshot'', ''differential'']
      else [])"

definition SD_CLEARED_PROPERTIES :: "string list" where
  "SD_CLEARED_PROPERTIES =
     [''meta'', ''implicitRules'', ''language'', ''text'', ''contained'', ''identifier'',
      ''experimental'', ''date'', ''publisher'', ''contact'', ''useContext'', ''jurisdiction'',
      ''purpose'', ''copyright'', ''keyword'']"

text \<open>The resource types that \<open>processResource\<close> accepts.\<close>

datatype resourceType = ValueSet | CodeSystem

fun resourceType_name :: "resourceType \<Rightarrow> string" where
  "resourceType_name ValueSet = ''ValueSet''"
| "resourceType_name CodeSystem = ''CodeSystem''"

text \<open>A \<open>forEach\<close> whose body pushes rules and logs messages: the rules and the messages
  of all rounds, in order.\<close>

definition forEach_collect :: "('a \<Rightarrow> 'r list \<times> 'l list) \<Rightarrow> 'a list \<Rightarrow> 'r list \<times> 'l list" where
  "forEach_collect body xs = (concat (map (\<lambda>x. fst (body x)) xs), concat (map (\<lambda>x. snd (body x)) xs))"

text \<open>The same with a body that may throw: the first exception ends the loop and is the
  result.\<close>

fun forEach_err :: "('a \<Rightarrow> error + 'r list \<times> 'l list) \<Rightarrow> 'a list \<Rightarrow> error + 'r list \<times> 'l list" where
  "forEach_err body [] = Inr ([], [])"
| "forEach_err body (x # xs) =
     (case body x of
        Inl e \<Rightarrow> Inl e
      | Inr (rs, ls) \<Rightarrow>
          (case forEach_err body xs of
             Inl e \<Rightarrow> Inl e
           | Inr (rs', ls') \<Rightarrow> Inr (rs @ rs', ls @ ls')))"

subsection \<open>Regular expressions of the extractor\<close>

text \<open>\<open>key.match(/w\[(\d+)]/)\<close> for a word \<open>w\<close> (\<open>constraint\<close>, \<open>mapping\<close>): the leftmost
  place where \<open>w[\<close>, one or more digits and \<open>]\<close> stand; the result is the matched text and
  the digits.\<close>

definition match_here :: "string \<Rightarrow> string \<Rightarrow> (string \<times> string) option" where
  "match_here w s =
     (if prefix (w @ ''['') s
      then (let rest = drop (length w + 1) s; ds = takeWhile is_digit rest
            in if ds \<noteq> [] \<and> prefix '']'' (drop (length ds) rest)
               then Some (w @ ''['' @ ds @ '']'', ds) else None)
      else None)"

fun match_indexed :: "string \<Rightarrow> string \<Rightarrow> (string \<times> string) option" where
  "match_indexed w [] = None"
| "match_indexed w (c # cs) =
     (case match_here w (c # cs) of Some m \<Rightarrow> Some m | None \<Rightarrow> match_indexed w cs)"

text \<open>\<open>new RegExp(`${property}(\\[\\d+\\])?\\.`).test(key)\<close>. The property names of the
  tables are letters and dots; in the pattern a letter stands for itself and a dot for any
  character but a line terminator. After the name an index in brackets may stand, then a
  dot must. The pattern is tried at every place of the key.\<close>

definition atom_matches :: "char \<Rightarrow> char \<Rightarrow> bool" where
  "atom_matches p c = (if p = CHR ''.'' then c \<noteq> CHR 0x0A \<and> c \<noteq> CHR 0x0D else c = p)"

fun match_atoms :: "string \<Rightarrow> string \<Rightarrow> string option" where
  "match_atoms [] s = Some s"
| "match_atoms (p # ps) [] = None"
| "match_atoms (p # ps) (c # cs) = (if atom_matches p c then match_atoms ps cs else None)"

definition match_tail :: "string \<Rightarrow> bool" where
  "match_tail s =
     (prefix ''.'' s \<or>
      (prefix ''['' s \<and>
       (let ds = takeWhile is_digit (drop 1 s)
        in ds \<noteq> [] \<and> prefix ''].'' (drop (length ds + 1) s))))"

definition pattern_at :: "string \<Rightarrow> string \<Rightarrow> bool" where
  "pattern_at property s = (case match_atoms property s of None \<Rightarrow> False | Some rest \<Rightarrow> match_tail rest)"

fun regex_test :: "string \<Rightarrow> string \<Rightarrow> bool" where
  "regex_test property [] = pattern_at property []"
| "regex_test property (c # cs) = (pattern_at property (c # cs) \<or> regex_test property cs)"

definition ignored :: "string list \<Rightarrow> string \<Rightarrow> bool" where
  "ignored properties key = list_ex (\<lambda>property. key = property \<or> regex_test property key) properties"

subsection \<open>isStandardURL\<close>

definition isStandardURL :: "string \<Rightarrow> configuration \<Rightarrow> obj \<Rightarrow> bool" where
  "isStandardURL resourceType config input =
     loose_eq_string (obj_get input ''url'')
       (canonical config @ ''/'' @ resourceType @ ''/'' @ template (obj_get input ''id''))"


subsection \<open>processStructureDefinition\<close>

definition nullish :: "jsval \<Rightarrow> bool" where
  "nullish v = (v = None \<or> v = Some JNull)"

text \<open>\<open>a ?? b\<close>.\<close>

definition coalesce :: "jsval \<Rightarrow> jsval \<Rightarrow> jsval" where
  "coalesce a b = (if nullish a then b else a)"

definition delete_all :: "string list \<Rightarrow> obj \<Rightarrow> obj" where
  "delete_all props ob = foldl (\<lambda>o' prop. obj_delete prop o') ob props"

text \<open>The parent that is compared with: the definition the fisher finds for
  \<open>input.baseDefinition\<close>, or a copy of the input when there is none.\<close>

definition found_parent :: "fisher \<Rightarrow> obj \<Rightarrow> obj option" where
  "found_parent fisher input = fisher (obj_get input ''baseDefinition'')"

definition parent_warning :: "obj \<Rightarrow> log" where
  "parent_warning sd =
     (Warn, ''Cannot reliably export top-level caret rules for '' @ template (obj_get sd ''name'') @
        '' because GoFSH cannot find a '' @ ''definition for its parent: '' @
        template (obj_get sd ''baseDefinition'') @ ''. If its parent is from another IG, '' @
        ''run GoFSH again declaring that IG as a dependency.'')"

text \<open>The two copies after the properties of other extractors, a generated text, and (in
  the parent) the properties that SUSHI clears have been deleted.\<close>

definition text_generated :: "obj \<Rightarrow> bool" where
  "text_generated sd = strict_eq (js_opt_prop ''status'' (obj_get sd ''text'')) (Some (JStr ''generated''))"

definition prepared_sd :: "obj \<Rightarrow> obj" where
  "prepared_sd input =
     (let sd = delete_all (RESOURCE_IGNORED_PROPERTIES ''StructureDefinition'') input
      in if text_generated sd then obj_delete ''text'' sd else sd)"

definition prepared_parent :: "fisher \<Rightarrow> obj \<Rightarrow> obj" where
  "prepared_parent fisher input =
     (let parent = (case found_parent fisher input of None \<Rightarrow> input | Some p \<Rightarrow> p);
          parent = delete_all (RESOURCE_IGNORED_PROPERTIES ''StructureDefinition'') parent;
          parent = (if text_generated (delete_all (RESOURCE_IGNORED_PROPERTIES ''StructureDefinition'') input)
                    then obj_delete ''text'' parent else parent)
      in delete_all SD_CLEARED_PROPERTIES parent)"

text \<open>The body of \<open>Object.keys(sd).forEach\<close>: the state is the two copies.\<close>

definition hasNewItems :: "json list \<Rightarrow> jsval \<Rightarrow> bool" where
  "hasNewItems items parentItems =
     (case parentItems of
        Some (JArr pitems) \<Rightarrow> differenceWith items pitems \<noteq> []
      | _ \<Rightarrow> True)"

definition reconcile_step :: "obj \<times> obj \<Rightarrow> string \<Rightarrow> obj \<times> obj" where
  "reconcile_step st key =
     (case st of (sd, parent) \<Rightarrow>
        (case obj_get sd key of
           Some (JArr items) \<Rightarrow>
             if items \<noteq> []
             then (if hasNewItems items (obj_get parent key) \<and> (key = ''extension'' \<or> key = ''modifierExtension'')
                   then (sd, obj_delete key parent)
                   else if \<not> hasNewItems items (obj_get parent key)
                   then (obj_delete key sd, parent)
                   else (sd, parent))
             else (sd, parent)
         | _ \<Rightarrow> (sd, parent)))"

definition reconcile :: "obj \<Rightarrow> obj \<Rightarrow> obj \<times> obj" where
  "reconcile sd parent = foldl reconcile_step (sd, parent) (map fst sd)"

text \<open>The test that lets a leaf of the flattened definition through.\<close>

definition differs :: "(string \<times> json) list \<Rightarrow> (string \<times> json) list \<Rightarrow> string \<Rightarrow> bool" where
  "differs flatSD flatParent key =
     (nullish (map_of flatParent key)
      \<or> \<not> isEqual (map_of flatSD key) (map_of flatParent key)
      \<or> (key = ''status'' \<and> \<not> strict_eq (map_of flatSD key) (Some (JStr ''active''))))"

definition new_rule :: "string \<Rightarrow> string \<Rightarrow> 'v \<Rightarrow> 'v caretValueRule" where
  "new_rule p key v =
     \<lparr>path = p, caretPath = key, value' = v, fshComment = None, isCodeCaretRule = False,
      pathArray = []\<rparr>"

definition sd_entry ::
  "'v utils \<Rightarrow> fisher \<Rightarrow> configuration \<Rightarrow> obj \<Rightarrow> (string \<times> json) list \<Rightarrow> (string \<times> json) list
     \<Rightarrow> nat \<times> string \<times> json \<Rightarrow> 'v caretValueRule list \<times> log list" where
  "sd_entry u fisher config input flatArray flatParent entry =
     (case entry of (i, key, v) \<Rightarrow>
        if differs flatArray flatParent key
        then (if key = ''url'' \<and> isStandardURL ''StructureDefinition'' config input then ([], [])
              else (let val = getFSHValue u i flatArray ''StructureDefinition'' fisher
                    in if isFSHValueEmpty u val
                       then ([], [(Error, ''Value in StructureDefinition '' @ template (obj_get input ''name'') @
                                    '' for element '' @ key @ '' is empty. No caret value rule will be created.'')])
                       else ([new_rule [] key val], [])))
        else ([], []))"

definition processStructureDefinition ::
  "'v utils \<Rightarrow> obj \<Rightarrow> fisher \<Rightarrow> configuration \<Rightarrow> 'v caretValueRule list \<times> log list" where
  "processStructureDefinition u input fisher config =
     (let warned = (case found_parent fisher input of None \<Rightarrow> [parent_warning input] | Some p \<Rightarrow> []);
          copies = reconcile (prepared_sd input) (prepared_parent fisher input);
          flatArray = getPathValuePairs u (fst copies);
          flatParent = getPathValuePairs u (snd copies);
          emitted = forEach_collect (sd_entry u fisher config input flatArray flatParent)
                      (enumerate 0 flatArray)
      in (fst emitted, warned @ snd emitted))"

subsection \<open>processResource\<close>

definition resource_entry ::
  "'v utils \<Rightarrow> fisher \<Rightarrow> resourceType \<Rightarrow> configuration \<Rightarrow> obj \<Rightarrow> (string \<times> json) list
     \<Rightarrow> nat \<times> string \<times> json \<Rightarrow> 'v caretValueRule list \<times> log list" where
  "resource_entry u fisher resourceType config input flatArray entry =
     (case entry of (i, key, v) \<Rightarrow>
        if key = ''url'' \<and> isStandardURL (resourceType_name resourceType) config input then ([], [])
        else (let val = getFSHValue u i flatArray (resourceType_name resourceType) fisher
              in if isFSHValueEmpty u val
                 then ([], [(Error, ''Value in '' @ resourceType_name resourceType @ '' '' @
                              template (coalesce (obj_get input ''name'') (obj_get input ''id'')) @
                              '' for element '' @ key @ '' is empty. No caret value rule will be created.'')])
                 else ([new_rule [] key val], [])))"

definition processResource ::
  "'v utils \<Rightarrow> obj \<Rightarrow> fisher \<Rightarrow> resourceType \<Rightarrow> configuration \<Rightarrow> 'v caretValueRule list \<times> log list" where
  "processResource u input fisher resourceType config =
     (let flatArray = filter (\<lambda>(key, v). \<not> ignored (RESOURCE_IGNORED_PROPERTIES (resourceType_name resourceType)) key)
                        (getPathValuePairs u input)
      in forEach_collect (resource_entry u fisher resourceType config input flatArray) (enumerate 0 flatArray))"

subsection \<open>processConcept\<close>

definition concept_entry ::
  "'v utils \<Rightarrow> fisher \<Rightarrow> string list \<Rightarrow> string \<Rightarrow> (string \<times> json) list
     \<Rightarrow> nat \<times> string \<times> json \<Rightarrow> 'v caretValueRule list \<times> log list" where
  "concept_entry u fisher conceptHierarchy codeSystemName flatArray entry =
     (case entry of (i, key, v) \<Rightarrow>
        (let val = getFSHValue u i flatArray ''Concept'' fisher
         in if isFSHValueEmpty u val
            then ([], [(Error, ''Value in CodeSytem '' @ codeSystemName @ '' at concept '' @
                         join ''.'' conceptHierarchy @ '' for element '' @ key @
                         '' is empty. No caret value rule will be created.'')])
            else ([(new_rule [] key val)\<lparr>isCodeCaretRule := True, pathArray := conceptHierarchy\<rparr>], [])))"

definition processConcept ::
  "'v utils \<Rightarrow> obj \<Rightarrow> string list \<Rightarrow> string \<Rightarrow> fisher \<Rightarrow> 'v caretValueRule list \<times> log list" where
  "processConcept u input conceptHierarchy codeSystemName fisher =
     (let flatArray = filter (\<lambda>(key, v). \<not> ignored CONCEPT_IGNORED_PROPERTIES key) (getPathValuePairs u input)
      in forEach_collect (concept_entry u fisher conceptHierarchy codeSystemName flatArray) (enumerate 0 flatArray))"


subsection \<open>process\<close>

text \<open>\<open>findMatchingSnapshot\<close>: the first element of the snapshot whose id is the id of
  the differential element, or, when its id has \<open>[x]:\<close> after its first character, whose id
  in the other syntax for choices is. \<open>el.id\<close> throws on a \<open>null\<close> element; \<open>indexOf\<close>
  and \<open>split\<close> are methods of strings (an array has \<open>indexOf\<close> but no \<open>split\<close>).\<close>

definition alt_segment :: "string \<Rightarrow> string" where
  "alt_segment p = (let i = indexOf p ''[x]:'' in if i > - 1 then drop (nat (i + 4)) p else p)"

definition elIdAltSyntax :: "string \<Rightarrow> string" where
  "elIdAltSyntax s = join ''.'' (map alt_segment (split_on CHR ''.'' s))"

fun array_indexOf_from :: "nat \<Rightarrow> json \<Rightarrow> json list \<Rightarrow> int" where
  "array_indexOf_from n x [] = - 1"
| "array_indexOf_from n x (y # ys) =
     (if strict_eq (Some y) (Some x) then int n else array_indexOf_from (Suc n) x ys)"

definition matches_snapshot :: "jsval \<Rightarrow> json \<Rightarrow> error + bool" where
  "matches_snapshot differentialId el =
     (if el = JNull then Inl TypeError
      else if strict_eq (js_member ''id'' el) differentialId then Inr True
      else (case js_member ''id'' el of
              None \<Rightarrow> Inr False
            | Some JNull \<Rightarrow> Inr False
            | Some (JStr s) \<Rightarrow>
                if indexOf s ''[x]:'' > 0
                then Inr (strict_eq (Some (JStr (elIdAltSyntax s))) differentialId)
                else Inr False
            | Some (JArr xs) \<Rightarrow>
                if array_indexOf_from 0 (JStr ''[x]:'') xs > 0 then Inl TypeError else Inr False
            | Some _ \<Rightarrow> Inl TypeError))"

definition findMatchingSnapshot :: "jsval \<Rightarrow> structDef \<Rightarrow> error + jsval" where
  "findMatchingSnapshot differentialId sd =
     (case snapshotElement sd of
        None \<Rightarrow> Inr None
      | Some els \<Rightarrow> find_err (matches_snapshot differentialId) els)"

text \<open>\<open>structDef?.snapshot?.element?.length > 0\<close>.\<close>

definition has_snapshot :: "structDef \<Rightarrow> bool" where
  "has_snapshot sd = (case snapshotElement sd of None \<Rightarrow> False | Some els \<Rightarrow> els \<noteq> [])"

text \<open>\<open>newIndex\<close> of the constraint block: \<open>undefined\<close> (\<open>None\<close>) without a snapshot,
  without a matching snapshot element or when that element has no constraints; otherwise
  the result of \<open>findIndex\<close>.\<close>

definition same_key :: "jsval \<Rightarrow> json \<Rightarrow> error + bool" where
  "same_key diffConstraint c =
     (case js_prop ''key'' (Some c) of
        Inl e \<Rightarrow> Inl e
      | Inr ck \<Rightarrow> (case js_prop ''key'' diffConstraint of
                    Inl e \<Rightarrow> Inl e
                  | Inr dk \<Rightarrow> Inr (strict_eq ck dk)))"

definition constraint_newIndex :: "obj \<Rightarrow> structDef \<Rightarrow> string \<Rightarrow> error + int option" where
  "constraint_newIndex inputJSON sd digits =
     (if has_snapshot sd
      then (case js_index (obj_get inputJSON ''constraint'') (parseInt digits) of
              Inl e \<Rightarrow> Inl e
            | Inr diffConstraint \<Rightarrow>
                (case findMatchingSnapshot (obj_get inputJSON ''id'') sd of
                   Inl e \<Rightarrow> Inl e
                 | Inr snapElement \<Rightarrow>
                     (case js_opt_prop ''constraint'' snapElement of
                        None \<Rightarrow> Inr None
                      | Some JNull \<Rightarrow> Inr None
                      | Some (JArr cs) \<Rightarrow>
                          (case findIndex_err (same_key diffConstraint) cs of
                             Inl e \<Rightarrow> Inl e
                           | Inr n \<Rightarrow> Inr (Some n))
                      | Some _ \<Rightarrow> Inl TypeError)))
      else Inr None)"

definition mapping_newIndex :: "obj \<Rightarrow> structDef \<Rightarrow> string \<Rightarrow> error + int option" where
  "mapping_newIndex inputJSON sd digits =
     (if has_snapshot sd
      then (case js_index (obj_get inputJSON ''mapping'') (parseInt digits) of
              Inl e \<Rightarrow> Inl e
            | Inr diffMapping \<Rightarrow>
                (case findMatchingSnapshot (obj_get inputJSON ''id'') sd of
                   Inl e \<Rightarrow> Inl e
                 | Inr snapElement \<Rightarrow>
                     (case js_opt_prop ''mapping'' snapElement of
                        None \<Rightarrow> Inr None
                      | Some JNull \<Rightarrow> Inr None
                      | Some (JArr ms) \<Rightarrow>
                          (case findIndex_err (\<lambda>m. Inr (isEqual (Some m) diffMapping)) ms of
                             Inl e \<Rightarrow> Inl e
                           | Inr n \<Rightarrow> Inr (Some n))
                      | Some _ \<Rightarrow> Inl TypeError)))
      else Inr None)"

definition index_comment :: "string \<Rightarrow> string \<Rightarrow> string" where
  "index_comment word matched =
     ''WARNING: The '' @ word @ '' index in the following rule (e.g., '' @ matched @
     '') may be incorrect.'' @ [CHR 0x0A] @
     ''Please compare with the '' @ word @ '' array in the original definition'' @ [CHR 0x27] @
     ''s snapshot and adjust as necessary.''"

definition index_warning :: "string \<Rightarrow> string \<Rightarrow> string \<Rightarrow> string \<Rightarrow> log" where
  "index_warning word sdname p key =
     (Warn, ''Could not calculate correct '' @ word @
        '' index relative to the snapshot for the following path in '' @ sdname @ '': '' @
        p @ '' ^'' @ key @
        ''. To resolve this issue, run GoFSH on definitions that include valid snapshots; otherwise check and fix '' @
        word @ '' indices in the generated FSH files as necessary.'')"

text \<open>The two blocks that fix the index of a constraint and of a mapping: each takes the
  rule built so far and gives the rule and the warnings logged. Both rewrite the key, not
  the caret path of the rule.\<close>

definition fix_constraint ::
  "obj \<Rightarrow> structDef \<Rightarrow> string \<Rightarrow> string \<Rightarrow> 'v caretValueRule \<Rightarrow> error + 'v caretValueRule \<times> log list" where
  "fix_constraint inputJSON sd p key r =
     (case match_indexed ''constraint'' key of
        None \<Rightarrow> Inr (r, [])
      | Some (matched, digits) \<Rightarrow>
          (case constraint_newIndex inputJSON sd digits of
             Inl e \<Rightarrow> Inl e
           | Inr (Some newIndex) \<Rightarrow>
               Inr (r\<lparr>caretPath := replace_first matched (''constraint['' @ show_int newIndex @ '']'') key\<rparr>, [])
           | Inr None \<Rightarrow>
               Inr (r\<lparr>fshComment := Some (index_comment ''constraint'' matched)\<rparr>,
                    [index_warning ''constraint'' (sdName sd) p key])))"

definition fix_mapping ::
  "obj \<Rightarrow> structDef \<Rightarrow> string \<Rightarrow> string \<Rightarrow> 'v caretValueRule \<Rightarrow> error + 'v caretValueRule \<times> log list" where
  "fix_mapping inputJSON sd p key r =
     (case match_indexed ''mapping'' key of
        None \<Rightarrow> Inr (r, [])
      | Some (matched, digits) \<Rightarrow>
          (case mapping_newIndex inputJSON sd digits of
             Inl e \<Rightarrow> Inl e
           | Inr (Some newIndex) \<Rightarrow>
               Inr (r\<lparr>caretPath := replace_first matched (''mapping['' @ show_int newIndex @ '']'') key\<rparr>, [])
           | Inr None \<Rightarrow>
               Inr (r\<lparr>fshComment := Some (index_comment ''mapping'' matched)\<rparr>,
                    [index_warning ''mapping'' (sdName sd) p key])))"

text \<open>The body of \<open>remainingFlatElementArray.forEach\<close>.\<close>

definition process_entry ::
  "'v utils \<Rightarrow> fisher \<Rightarrow> structDef \<Rightarrow> string \<Rightarrow> obj \<Rightarrow> (string \<times> json) list
     \<Rightarrow> nat \<times> string \<times> json \<Rightarrow> error + 'v caretValueRule list \<times> log list" where
  "process_entry u fisher sd p inputJSON remaining entry =
     (case entry of (i, key, v) \<Rightarrow>
        (let val = getFSHValue u i remaining ''ElementDefinition'' fisher
         in if isFSHValueEmpty u val
            then Inr ([], [(Error, ''Value in StructureDefinition '' @ sdName sd @ '' for element '' @ p @
                             ''.'' @ key @ '' is empty. No caret value rule will be created.'')])
            else (case fix_constraint inputJSON sd p key (new_rule p key val) of
                    Inl e \<Rightarrow> Inl e
                  | Inr (r1, logs1) \<Rightarrow>
                      (case fix_mapping inputJSON sd p key r1 of
                         Inl e \<Rightarrow> Inl e
                       | Inr (r2, logs2) \<Rightarrow> Inr ([r2], logs1 @ logs2)))))"

text \<open>\<open>process\<close>; it also leaves \<open>id\<close> and \<open>path\<close> pushed on the processed paths of the
  element.\<close>

definition claimed_paths :: "element \<Rightarrow> string list" where
  "claimed_paths input = processedPaths input @ [''id'', ''path'']"

definition remainingFlatElementArray :: "'v utils \<Rightarrow> element \<Rightarrow> (string \<times> json) list" where
  "remainingFlatElementArray u input =
     filter (\<lambda>(key, v). key \<notin> set (claimed_paths input)) (getPathValuePairs u (elementJSON input))"

definition process ::
  "'v utils \<Rightarrow> element \<Rightarrow> structDef \<Rightarrow> fisher \<Rightarrow> error + 'v caretValueRule list \<times> log list" where
  "process u input sd fisher =
     forEach_err
       (process_entry u fisher sd (getPath u input) (elementJSON input) (remainingFlatElementArray u input))
       (enumerate 0 (remainingFlatElementArray u input))"


subsection \<open>A flattening\<close>

text \<open>Modelled from the spec: \<open>getPathValuePairs\<close> (the PathFlattener) is not part of these
  sources. The spec gives it as "nested object \<rightarrow> ordered sequence of (leaf-path, value) pairs,
  document order preserved, array entries addressed as \<open>prop[n]\<close>". Here a leaf is a value
  without children (a primitive, an empty array or an empty object); the path of a member
  of a nested object is the path of the object, a dot and the name; the path of a
  top-level member is its name. The properties of the extractor are stated for every
  flattening, or for every flattening that works member by member; this one is used in
  the examples.\<close>

fun flat_json :: "string \<Rightarrow> json \<Rightarrow> (string \<times> json) list"
  and flat_items :: "string \<Rightarrow> nat \<Rightarrow> json list \<Rightarrow> (string \<times> json) list"
  and flat_members :: "string \<Rightarrow> (string \<times> json) list \<Rightarrow> (string \<times> json) list" where
  "flat_json p (JArr xs) = (if xs = [] then [(p, JArr [])] else flat_items p 0 xs)"
| "flat_json p (JObj ms) = (if ms = [] then [(p, JObj [])] else flat_members p ms)"
| "flat_json p JNull = [(p, JNull)]"
| "flat_json p (JBool b) = [(p, JBool b)]"
| "flat_json p (JNum n) = [(p, JNum n)]"
| "flat_json p (JStr s) = [(p, JStr s)]"
| "flat_items p n [] = []"
| "flat_items p n (x # xs) = flat_json (p @ ''['' @ show_nat n @ '']'') x @ flat_items p (Suc n) xs"
| "flat_members p [] = []"
| "flat_members p (m # ms) = flat_json (p @ ''.'' @ fst m) (snd m) @ flat_members p ms"

definition flatten :: "obj \<Rightarrow> (string \<times> json) list" where
  "flatten ob = concat (map (\<lambda>(k, v). flat_json k v) ob)"

text \<open>Collaborators for the examples. The utilities \<open>getPath\<close>, \<open>getFSHValue\<close> and
  \<open>isFSHValueEmpty\<close> are not part of these sources and the properties of the extractor are
  proved for every choice of them; the examples need one choice. Here the path of an element
  is its \<open>path\<close> member, the FSH value of a leaf is the leaf's JSON value, and a value is
  empty when it holds nothing: \<open>null\<close>, an empty array or an empty object (the leaves
  without content that a flattening yields). A string, a number or a boolean is never
  empty.\<close>

definition example_utils :: "json utils" where
  "example_utils =
     \<lparr>getPath = (\<lambda>e. template (obj_get (elementJSON e) ''path'')),
      getPathValuePairs = flatten,
      getFSHValue = (\<lambda>i flatArray resourceType fisher. snd (flatArray ! i)),
      isFSHValueEmpty = (\<lambda>v. v = JNull \<or> v = JArr [] \<or> v = JObj [])\<rparr>"


section \<open>Notions used to state the properties of the exporter\<close>

text \<open>The package without any definition.\<close>

definition empty_package :: package where
  "empty_package = \<lparr>aliases = [], profiles = [], extensions = [], codeSystems = [], valueSets = [],
     instances = [], invariants = [], mappings = []\<rparr>"


















section \<open>Notions used to state the properties of the extractor\<close>

text \<open>The error messages of a log.\<close>

definition errors_of :: "log list \<Rightarrow> log list" where
  "errors_of logs = filter (\<lambda>l. fst l = Error) logs"

text \<open>The resolved value of the entry at position \<open>i\<close> of a flattened array is empty.\<close>

definition resolved_empty :: "'v utils \<Rightarrow> fisher \<Rightarrow> string \<Rightarrow> (string \<times> json) list \<Rightarrow> nat \<Rightarrow> bool" where
  "resolved_empty u fisher resourceType flatArray i =
     isFSHValueEmpty u (getFSHValue u i flatArray resourceType fisher)"

text \<open>The flattened arrays that the entry points walk through.\<close>

definition sd_flatArray :: "'v utils \<Rightarrow> fisher \<Rightarrow> obj \<Rightarrow> (string \<times> json) list" where
  "sd_flatArray u fisher input =
     getPathValuePairs u (fst (reconcile (prepared_sd input) (prepared_parent fisher input)))"

definition sd_flatParent :: "'v utils \<Rightarrow> fisher \<Rightarrow> obj \<Rightarrow> (string \<times> json) list" where
  "sd_flatParent u fisher input =
     getPathValuePairs u (snd (reconcile (prepared_sd input) (prepared_parent fisher input)))"

definition resource_flatArray :: "'v utils \<Rightarrow> resourceType \<Rightarrow> obj \<Rightarrow> (string \<times> json) list" where
  "resource_flatArray u resourceType input =
     filter (\<lambda>(key, v). \<not> ignored (RESOURCE_IGNORED_PROPERTIES (resourceType_name resourceType)) key)
       (getPathValuePairs u input)"

definition concept_flatArray :: "'v utils \<Rightarrow> obj \<Rightarrow> (string \<times> json) list" where
  "concept_flatArray u input =
     filter (\<lambda>(key, v). \<not> ignored CONCEPT_IGNORED_PROPERTIES key) (getPathValuePairs u input)"

text \<open>The entries of \<open>processStructureDefinition\<close> and of \<open>processResource\<close> that reach the
  resolution of their value: those that differ from the parent, and are not a standard
  url.\<close>

definition sd_selected :: "'v utils \<Rightarrow> fisher \<Rightarrow> configuration \<Rightarrow> obj \<Rightarrow> string \<Rightarrow> bool" where
  "sd_selected u fisher config input key =
     (differs (sd_flatArray u fisher input) (sd_flatParent u fisher input) key
      \<and> \<not> (key = ''url'' \<and> isStandardURL ''StructureDefinition'' config input))"

definition resource_selected :: "resourceType \<Rightarrow> configuration \<Rightarrow> obj \<Rightarrow> string \<Rightarrow> bool" where
  "resource_selected resourceType config input key =
     (\<not> (key = ''url'' \<and> isStandardURL (resourceType_name resourceType) config input))"

text \<open>A code system concept with an ignored leaf, a leaf whose value is empty, and a leaf
  that gives a rule.\<close>

definition example_concept :: obj where
  "example_concept =
     [(''code'', JStr ''c1''),
      (''designation'', JArr [JObj [(''value'', JObj [])]]),
      (''extension'', JArr [JObj [(''valueString'', JStr ''x'')]])]"

text \<open>The text of an optional array index: nothing, or digits in brackets.\<close>

definition is_index :: "string \<Rightarrow> bool" where
  "is_index ix =
     (case ix of
        [] \<Rightarrow> True
      | c # cs \<Rightarrow> c = CHR ''['' \<and> cs \<noteq> [] \<and> last cs = CHR '']'' \<and> butlast cs \<noteq> []
                 \<and> list_all is_digit (butlast cs))"

text \<open>A key holds an ignored property name, an optional index and a dot somewhere.\<close>

definition holds_ignored :: "string \<Rightarrow> string \<Rightarrow> bool" where
  "holds_ignored property key =
     (\<exists>pre ix post. key = pre @ property @ ix @ ''.'' @ post \<and> is_index ix)"

text \<open>A value set whose contact has a name with an extension, and a status.\<close>

definition example_valueSet :: obj where
  "example_valueSet =
     [(''status'', JStr ''draft''),
      (''contact'', JArr [JObj [(''name'', JObj [(''id'', JStr ''n1'')])]])]"

definition example_config :: configuration where
  "example_config = \<lparr>canonical = ''https://example.org/fhir''\<rparr>"

text \<open>A profile with the standard url, a status equal to its parent's, and a publisher whose
  value is empty; and the parent that the fisher finds for it.\<close>

definition example_profile :: obj where
  "example_profile =
     [(''id'', JStr ''my-profile''),
      (''url'', JStr ''https://example.org/fhir/StructureDefinition/my-profile''),
      (''status'', JStr ''draft''),
      (''publisher'', JObj [])]"

definition example_parent :: obj where
  "example_parent =
     [(''url'', JStr ''http://hl7.org/fhir/StructureDefinition/Patient''),
      (''status'', JStr ''draft'')]"

definition example_fisher :: fisher where
  "example_fisher = (\<lambda>x. Some example_parent)"

text \<open>A profile with another url, whose parent is not found.\<close>

definition example_orphan :: obj where
  "example_orphan =
     [(''id'', JStr ''my-profile''),
      (''url'', JStr ''https://example.org/other/my-profile'')]"

text \<open>Two value sets, the first with the standard url, the second with another one.\<close>

definition example_standard_valueSet :: obj where
  "example_standard_valueSet =
     [(''id'', JStr ''vs1''),
      (''url'', JStr ''https://example.org/fhir/ValueSet/vs1''),
      (''status'', JStr ''active'')]"

definition example_other_valueSet :: obj where
  "example_other_valueSet =
     [(''id'', JStr ''vs1''),
      (''url'', JStr ''https://example.org/other/vs1''),
      (''status'', JStr ''active'')]"

text \<open>An element with one constraint, and two structure definitions for it: in the snapshot
  of the first the constraint is the third one of the element, whose id is written in the
  other syntax for choices; the snapshot of the second has the element with constraints, but
  not this one.\<close>

definition example_element :: element where
  "example_element =
     \<lparr>elementJSON =
        [(''id'', JStr ''Observation.valueQuantity''),
         (''path'', JStr ''Observation.value[x]''),
         (''constraint'', JArr [JObj [(''key'', JStr ''ele-1''), (''severity'', JStr ''error'')]])],
      processedPaths = []\<rparr>"

definition example_snapshot_element :: json where
  "example_snapshot_element =
     JObj [(''id'', JStr ''Observation.value[x]:valueQuantity''),
           (''constraint'', JArr [JObj [(''key'', JStr ''obs-1'')], JObj [(''key'', JStr ''obs-2'')],
                                  JObj [(''key'', JStr ''ele-1'')]])]"

definition example_structDef :: structDef where
  "example_structDef =
     \<lparr>sdName = ''MyObservation'',
      snapshotElement = Some [JObj [(''id'', JStr ''Observation'')], example_snapshot_element]\<rparr>"

text \<open>A differential element with two constraints, the second of which the snapshot
  element holds at index \<open>2\<close>; and a snapshot with two elements whose ids match the id of
  the differential element, the first in the other syntax for choices.\<close>

definition example_indexed_element :: element where
  "example_indexed_element =
     \<lparr>elementJSON =
        [(''id'', JStr ''Observation.valueQuantity''),
         (''path'', JStr ''Observation.value[x]''),
         (''constraint'', JArr [JObj [(''key'', JStr ''obs-2'')],
                                JObj [(''key'', JStr ''ele-1''), (''severity'', JStr ''error'')]])],
      processedPaths = []\<rparr>"

definition example_shadowed_structDef :: structDef where
  "example_shadowed_structDef =
     \<lparr>sdName = ''MyObservation'',
      snapshotElement =
        Some [JObj [(''id'', JStr ''Observation.value[x]:valueQuantity''),
                    (''constraint'', JArr [JObj [(''key'', JStr ''obs-1'')]])],
              JObj [(''id'', JStr ''Observation.valueQuantity''),
                    (''constraint'', JArr [JObj [(''key'', JStr ''ele-1'')]])]]\<rparr>"

definition example_stale_structDef :: structDef where
  "example_stale_structDef =
     \<lparr>sdName = ''MyObservation'',
      snapshotElement =
        Some [JObj [(''id'', JStr ''Observation.valueQuantity''),
                    (''constraint'', JArr [JObj [(''key'', JStr ''obs-1'')]])]]\<rparr>"

definition example_bare_structDef :: structDef where
  "example_bare_structDef = \<lparr>sdName = ''MyObservation'', snapshotElement = None\<rparr>"

text \<open>The id \<open>s\<close> of a snapshot element matches the id \<open>d\<close> of the differential element:
  it is \<open>d\<close>, or it holds the choice marker \<open>[x]:\<close> after its first character and is \<open>d\<close>
  once the marker and what stands before it are dropped from every segment.\<close>

definition id_matches :: "string \<Rightarrow> string \<Rightarrow> bool" where
  "id_matches d s = (s = d \<or> (0 < indexOf s ''[x]:'' \<and> elIdAltSyntax s = d))"

text \<open>A property name without a dot and without an opening bracket, as the names of the
  properties of a resource are; an object whose member names are such and distinct.\<close>

definition plain :: "string \<Rightarrow> bool" where
  "plain k = (CHR ''.'' \<notin> set k \<and> CHR ''['' \<notin> set k)"

definition plain_object :: "obj \<Rightarrow> bool" where
  "plain_object ob = (distinct (map fst ob) \<and> list_all plain (map fst ob))"

text \<open>A path lies under a property: it is the name of the property, or the name followed by
  a dot or an opening bracket and more.\<close>

definition under :: "string \<Rightarrow> string \<Rightarrow> bool" where
  "under k p = (\<exists>r. p = k @ r \<and> (r = [] \<or> hd r = CHR ''.'' \<or> hd r = CHR ''[''))"

text \<open>The parent that the resource is compared with, before any property is deleted.\<close>

definition compared_parent :: "fisher \<Rightarrow> obj \<Rightarrow> obj" where
  "compared_parent fisher input = (case found_parent fisher input of None \<Rightarrow> input | Some p \<Rightarrow> p)"

text \<open>The top-level properties that the array reconciliation deletes from the resource copy
  (a non-empty array without new items) and from the parent copy (a non-empty array of
  extensions with new items).\<close>

definition inherited :: "obj \<Rightarrow> obj \<Rightarrow> string \<Rightarrow> bool" where
  "inherited sd parent k =
     (case obj_get sd k of
        Some (JArr items) \<Rightarrow> items \<noteq> [] \<and> \<not> hasNewItems items (obj_get parent k)
      | _ \<Rightarrow> False)"

definition overridden :: "obj \<Rightarrow> obj \<Rightarrow> string \<Rightarrow> bool" where
  "overridden sd parent k =
     (case obj_get sd k of
        Some (JArr items) \<Rightarrow> items \<noteq> [] \<and> hasNewItems items (obj_get parent k)
                              \<and> (k = ''extension'' \<or> k = ''modifierExtension'')
      | _ \<Rightarrow> False)"

text \<open>The leaves that the flattener gives for one member of an object. A flattener works
  member by member when the leaves of an object are those of its members, in order, the
  path of a leaf of a member lies under the name of the member, and a non-empty array is
  not a leaf itself.\<close>

definition member_leaves :: "'v utils \<Rightarrow> string \<Rightarrow> json \<Rightarrow> (string \<times> json) list" where
  "member_leaves u k x = getPathValuePairs u [(k, x)]"

definition by_member :: "'v utils \<Rightarrow> bool" where
  "by_member u =
     ((\<forall>ob. getPathValuePairs u ob = concat (map (\<lambda>(k, x). member_leaves u k x) ob))
      \<and> (\<forall>k x p v. (p, v) \<in> set (member_leaves u k x) \<longrightarrow> under k p)
      \<and> (\<forall>k items p v. items \<noteq> [] \<longrightarrow> (p, v) \<in> set (member_leaves u k (JArr items)) \<longrightarrow> p \<noteq> k))"

text \<open>The leaves of the parent copy under a property, and the leaves of an array of the
  resource that are added to or changed from them.\<close>

definition parent_leaves :: "'v utils \<Rightarrow> obj \<Rightarrow> string \<Rightarrow> (string \<times> json) list" where
  "parent_leaves u parent k = (case obj_get parent k of None \<Rightarrow> [] | Some pv \<Rightarrow> member_leaves u k pv)"

definition leaf_changed :: "(string \<times> json) list \<Rightarrow> (string \<times> json) list \<Rightarrow> string \<Rightarrow> bool" where
  "leaf_changed leaves pleaves p =
     (nullish (map_of pleaves p) \<or> \<not> isEqual (map_of leaves p) (map_of pleaves p))"

text \<open>A profile with two extensions, the second with a leaf whose value is empty, and a
  contact; its parent has the first extension and the same contact.\<close>

definition example_X :: json where
  "example_X = JObj [(''url'', JStr ''http://x''), (''valueString'', JStr ''a'')]"

definition example_Y :: json where
  "example_Y = JObj [(''url'', JStr ''http://y''), (''valueCodeableConcept'', JObj [])]"

definition example_contact :: json where
  "example_contact = JObj [(''name'', JStr ''n'')]"

definition example_extended :: obj where
  "example_extended =
     [(''extension'', JArr [example_X, example_Y]), (''contact'', JArr [example_contact])]"

definition example_base :: obj where
  "example_base = [(''extension'', JArr [example_X]), (''contact'', JArr [example_contact])]"

definition example_base_fisher :: fisher where
  "example_base_fisher = (\<lambda>x. Some example_base)"


section \<open>Properties of the exporter\<close>

subsection \<open>The index is always written\<close>

lemma map_get_map_set: "map_get (map_set k v m) k = Some v"
  by (induction m) (auto simp: map_get_def)

lemma fileContent_Nil: "fileContent os [] = []"
  by (cases os) (simp_all add: fileContent_def trim_def is_space_def)

lemma written_all_empty_aux:
  "\<forall>e \<in> set files. snd e = [] \<Longrightarrow> foldl (write_file os) st files = st"
  by (induction files arbitrary: st) (auto simp: write_file_def fileContent_Nil split: prod.splits)

lemma group_files_empty: "\<forall>e \<in> set (group_files style empty_package). snd e = []"
  by (simp add: group_files_def empty_package_def groupAsSingleFile_def groupByFSHType_def
      groupByProfile_def groupAsFilePerDefinition_def set_each_def invariant_files_def
      instance_files_def nonInline_files_def inlineInstances_def)

text \<open>
  C9: for every package and every style, recognised or not, the mapping that \<open>export\<close>
  returns holds \<open>index.txt\<close>; for the empty package every other group is dropped and the
  result is the index alone, holding only the header row.
\<close>

theorem export_always_has_index:
  "map_get (export os table style pkg) ''index.txt'' = Some (table (export_index os style pkg))
   \<and> export os table style empty_package = [(''index.txt'', table [header])]"
proof
  show "map_get (export os table style pkg) ''index.txt'' = Some (table (export_index os style pkg))"
    by (simp add: export_def map_get_map_set)
  have "written os (group_files style empty_package) = ([], [])"
    unfolding written_def using group_files_empty by (rule written_all_empty_aux)
  then show "export os table style empty_package = [(''index.txt'', table [header])]"
    by (simp add: export_def export_index_def sort_by_def)
qed

subsection \<open>The rows of the index\<close>




































subsection \<open>Placement of inline instances and invariants by \<open>groupByProfile\<close>\<close>

































section \<open>Properties of the extractor\<close>

subsection \<open>No rule with an empty value\<close>

lemma set_fst_forEach_collect:
  "set (fst (forEach_collect body xs)) = (\<Union>x \<in> set xs. set (fst (body x)))"
  by (simp add: forEach_collect_def)

lemma length_fst_forEach_collect:
  assumes "\<And>x. x \<in> set xs \<Longrightarrow> length (fst (body x)) = (if keep x then 1 else 0)"
  shows "length (fst (forEach_collect body xs)) = length (filter keep xs)"
  using assms by (induction xs) (simp_all add: forEach_collect_def)

lemma length_errors_forEach_collect:
  assumes "\<And>x. x \<in> set xs \<Longrightarrow> length (errors_of (snd (body x))) = (if bad x then 1 else 0)"
  shows "length (errors_of (snd (forEach_collect body xs))) = length (filter bad xs)"
  using assms by (induction xs) (simp_all add: forEach_collect_def errors_of_def)

lemma sd_entry_cases:
  "sd_entry u fisher config input fa fp (i, key, v) =
     (if differs fa fp key \<and> \<not> (key = ''url'' \<and> isStandardURL ''StructureDefinition'' config input)
      then (if resolved_empty u fisher ''StructureDefinition'' fa i
            then ([], [(Error, ''Value in StructureDefinition '' @ template (obj_get input ''name'') @
                         '' for element '' @ key @ '' is empty. No caret value rule will be created.'')])
            else ([new_rule [] key (getFSHValue u i fa ''StructureDefinition'' fisher)], []))
      else ([], []))"
  by (simp add: sd_entry_def resolved_empty_def Let_def)

lemma resource_entry_cases:
  "resource_entry u fisher rt config input fa (i, key, v) =
     (if \<not> (key = ''url'' \<and> isStandardURL (resourceType_name rt) config input)
      then (if resolved_empty u fisher (resourceType_name rt) fa i
            then ([], [(Error, ''Value in '' @ resourceType_name rt @ '' '' @
                              template (coalesce (obj_get input ''name'') (obj_get input ''id'')) @
                              '' for element '' @ key @ '' is empty. No caret value rule will be created.'')])
            else ([new_rule [] key (getFSHValue u i fa (resourceType_name rt) fisher)], []))
      else ([], []))"
  by (simp add: resource_entry_def resolved_empty_def Let_def)

lemma concept_entry_cases:
  "concept_entry u fisher hier cs fa (i, key, v) =
     (if resolved_empty u fisher ''Concept'' fa i
      then ([], [(Error, ''Value in CodeSytem '' @ cs @ '' at concept '' @
                         join ''.'' hier @ '' for element '' @ key @
                         '' is empty. No caret value rule will be created.'')])
      else ([(new_rule [] key (getFSHValue u i fa ''Concept'' fisher))\<lparr>isCodeCaretRule := True, pathArray := hier\<rparr>], []))"
  by (simp add: concept_entry_def resolved_empty_def Let_def)

lemma processStructureDefinition_eq:
  "processStructureDefinition u input fisher config =
     (fst (forEach_collect (sd_entry u fisher config input (sd_flatArray u fisher input) (sd_flatParent u fisher input))
             (enumerate 0 (sd_flatArray u fisher input))),
      (case found_parent fisher input of None \<Rightarrow> [parent_warning input] | Some p \<Rightarrow> []) @
      snd (forEach_collect (sd_entry u fisher config input (sd_flatArray u fisher input) (sd_flatParent u fisher input))
             (enumerate 0 (sd_flatArray u fisher input))))"
  by (simp add: processStructureDefinition_def Let_def sd_flatArray_def sd_flatParent_def)

lemma processResource_eq:
  "processResource u input fisher rt config =
     forEach_collect (resource_entry u fisher rt config input (resource_flatArray u rt input))
       (enumerate 0 (resource_flatArray u rt input))"
  by (simp add: processResource_def Let_def resource_flatArray_def)

lemma processConcept_eq:
  "processConcept u input hier cs fisher =
     forEach_collect (concept_entry u fisher hier cs (concept_flatArray u input))
       (enumerate 0 (concept_flatArray u input))"
  by (simp add: processConcept_def Let_def concept_flatArray_def)

lemma sd_values:
  "r \<in> set (fst (processStructureDefinition u input fisher config)) \<Longrightarrow> \<not> isFSHValueEmpty u (value' r)"
  by (auto simp: processStructureDefinition_eq set_fst_forEach_collect sd_entry_cases
      resolved_empty_def new_rule_def split: if_splits)

lemma resource_values:
  "r \<in> set (fst (processResource u input fisher rt config)) \<Longrightarrow> \<not> isFSHValueEmpty u (value' r)"
  by (auto simp: processResource_eq set_fst_forEach_collect resource_entry_cases
      resolved_empty_def new_rule_def split: if_splits)

lemma concept_values:
  "r \<in> set (fst (processConcept u input hier cs fisher)) \<Longrightarrow> \<not> isFSHValueEmpty u (value' r)"
  by (auto simp: processConcept_eq set_fst_forEach_collect concept_entry_cases
      resolved_empty_def new_rule_def split: if_splits)

lemma sd_counts:
  "length (fst (processStructureDefinition u input fisher config)) =
     length (filter (\<lambda>(i, key, v). sd_selected u fisher config input key
                \<and> \<not> resolved_empty u fisher ''StructureDefinition'' (sd_flatArray u fisher input) i)
              (enumerate 0 (sd_flatArray u fisher input)))
   \<and> length (errors_of (snd (processStructureDefinition u input fisher config))) =
     length (filter (\<lambda>(i, key, v). sd_selected u fisher config input key
                \<and> resolved_empty u fisher ''StructureDefinition'' (sd_flatArray u fisher input) i)
              (enumerate 0 (sd_flatArray u fisher input)))"
proof
  show "length (fst (processStructureDefinition u input fisher config)) =
     length (filter (\<lambda>(i, key, v). sd_selected u fisher config input key
                \<and> \<not> resolved_empty u fisher ''StructureDefinition'' (sd_flatArray u fisher input) i)
              (enumerate 0 (sd_flatArray u fisher input)))"
    unfolding processStructureDefinition_eq fst_conv
    by (rule length_fst_forEach_collect) (auto simp: sd_entry_cases sd_selected_def split: if_splits)
  have w: "errors_of ((case found_parent fisher input of None \<Rightarrow> [parent_warning input] | Some p \<Rightarrow> []) @ ls)
      = errors_of ls" for ls
    by (simp add: errors_of_def parent_warning_def split: option.splits)
  show "length (errors_of (snd (processStructureDefinition u input fisher config))) =
     length (filter (\<lambda>(i, key, v). sd_selected u fisher config input key
                \<and> resolved_empty u fisher ''StructureDefinition'' (sd_flatArray u fisher input) i)
              (enumerate 0 (sd_flatArray u fisher input)))"
    unfolding processStructureDefinition_eq snd_conv w
    by (rule length_errors_forEach_collect) (auto simp: sd_entry_cases sd_selected_def errors_of_def split: if_splits)
qed

lemma resource_counts:
  "length (fst (processResource u input fisher rt config)) =
     length (filter (\<lambda>(i, key, v). resource_selected rt config input key
                \<and> \<not> resolved_empty u fisher (resourceType_name rt) (resource_flatArray u rt input) i)
              (enumerate 0 (resource_flatArray u rt input)))
   \<and> length (errors_of (snd (processResource u input fisher rt config))) =
     length (filter (\<lambda>(i, key, v). resource_selected rt config input key
                \<and> resolved_empty u fisher (resourceType_name rt) (resource_flatArray u rt input) i)
              (enumerate 0 (resource_flatArray u rt input)))"
proof
  show "length (fst (processResource u input fisher rt config)) =
     length (filter (\<lambda>(i, key, v). resource_selected rt config input key
                \<and> \<not> resolved_empty u fisher (resourceType_name rt) (resource_flatArray u rt input) i)
              (enumerate 0 (resource_flatArray u rt input)))"
    unfolding processResource_eq
    by (rule length_fst_forEach_collect) (auto simp: resource_entry_cases resource_selected_def split: if_splits)
  show "length (errors_of (snd (processResource u input fisher rt config))) =
     length (filter (\<lambda>(i, key, v). resource_selected rt config input key
                \<and> resolved_empty u fisher (resourceType_name rt) (resource_flatArray u rt input) i)
              (enumerate 0 (resource_flatArray u rt input)))"
    unfolding processResource_eq
    by (rule length_errors_forEach_collect) (auto simp: resource_entry_cases resource_selected_def errors_of_def split: if_splits)
qed

lemma concept_counts:
  "length (fst (processConcept u input hier cs fisher)) =
     length (filter (\<lambda>(i, key, v). \<not> resolved_empty u fisher ''Concept'' (concept_flatArray u input) i)
              (enumerate 0 (concept_flatArray u input)))
   \<and> length (errors_of (snd (processConcept u input hier cs fisher))) =
     length (filter (\<lambda>(i, key, v). resolved_empty u fisher ''Concept'' (concept_flatArray u input) i)
              (enumerate 0 (concept_flatArray u input)))"
proof
  show "length (fst (processConcept u input hier cs fisher)) =
     length (filter (\<lambda>(i, key, v). \<not> resolved_empty u fisher ''Concept'' (concept_flatArray u input) i)
              (enumerate 0 (concept_flatArray u input)))"
    unfolding processConcept_eq
    by (rule length_fst_forEach_collect) (auto simp: concept_entry_cases split: if_splits)
  show "length (errors_of (snd (processConcept u input hier cs fisher))) =
     length (filter (\<lambda>(i, key, v). resolved_empty u fisher ''Concept'' (concept_flatArray u input) i)
              (enumerate 0 (concept_flatArray u input)))"
    unfolding processConcept_eq
    by (rule length_errors_forEach_collect) (auto simp: concept_entry_cases errors_of_def split: if_splits)
qed


lemma forEach_err_member:
  "forEach_err body xs = Inr (rs, ls) \<Longrightarrow> r \<in> set rs \<Longrightarrow>
   \<exists>x \<in> set xs. \<exists>rs' ls'. body x = Inr (rs', ls') \<and> r \<in> set rs'"
proof (induction xs arbitrary: rs ls)
  case Nil
  then show ?case by simp
next
  case (Cons x xs)
  from Cons.prems(1) obtain r1 l1 r2 l2 where
    b: "body x = Inr (r1, l1)" and t: "forEach_err body xs = Inr (r2, l2)" and
    rs: "rs = r1 @ r2"
    by (auto split: sum.splits prod.splits)
  from Cons.prems(2) rs have "r \<in> set r1 \<or> r \<in> set r2" by simp
  then show ?case
  proof
    assume "r \<in> set r1"
    with b show ?thesis by auto
  next
    assume "r \<in> set r2"
    from Cons.IH [OF t this] show ?thesis by auto
  qed
qed

lemma forEach_err_length_rules:
  assumes "forEach_err body xs = Inr (rs, ls)"
    and "\<And>x rs' ls'. x \<in> set xs \<Longrightarrow> body x = Inr (rs', ls') \<Longrightarrow> length rs' = (if keep x then 1 else 0)"
  shows "length rs = length (filter keep xs)"
  using assms
proof (induction xs arbitrary: rs ls)
  case Nil
  then show ?case by simp
next
  case (Cons x xs)
  from Cons.prems(1) obtain r1 l1 r2 l2 where
    b: "body x = Inr (r1, l1)" and t: "forEach_err body xs = Inr (r2, l2)" and
    rs: "rs = r1 @ r2"
    by (auto split: sum.splits prod.splits)
  have "length r2 = length (filter keep xs)"
    using Cons.IH [OF t] Cons.prems(2) by simp
  moreover have "length r1 = (if keep x then 1 else 0)"
    using Cons.prems(2) [of x r1 l1] b by simp
  ultimately show ?case by (simp add: rs)
qed

lemma forEach_err_length_errors:
  assumes "forEach_err body xs = Inr (rs, ls)"
    and "\<And>x rs' ls'. x \<in> set xs \<Longrightarrow> body x = Inr (rs', ls') \<Longrightarrow>
            length (errors_of ls') = (if bad x then 1 else 0)"
  shows "length (errors_of ls) = length (filter bad xs)"
  using assms
proof (induction xs arbitrary: rs ls)
  case Nil
  then show ?case by (simp add: errors_of_def)
next
  case (Cons x xs)
  from Cons.prems(1) obtain r1 l1 r2 l2 where
    b: "body x = Inr (r1, l1)" and t: "forEach_err body xs = Inr (r2, l2)" and
    ls: "ls = l1 @ l2"
    by (auto split: sum.splits prod.splits)
  have "length (errors_of l2) = length (filter bad xs)"
    using Cons.IH [OF t] Cons.prems(2) by simp
  moreover have "length (errors_of l1) = (if bad x then 1 else 0)"
    using Cons.prems(2) [of x r1 l1] b by simp
  ultimately show ?case by (simp add: ls errors_of_def)
qed

lemma forEach_err_total:
  "(\<And>x. x \<in> set xs \<Longrightarrow> \<exists>res. body x = Inr res) \<Longrightarrow> \<exists>res. forEach_err body xs = Inr res"
proof (induction xs)
  case Nil
  show ?case by simp
next
  case (Cons x xs)
  from Cons.prems [of x] obtain r1 l1 where b: "body x = Inr (r1, l1)" by auto
  from Cons have "\<exists>res. forEach_err body xs = Inr res" by simp
  then obtain r2 l2 where "forEach_err body xs = Inr (r2, l2)" by auto
  with b show ?case by simp
qed

lemma fix_constraint_keeps:
  "fix_constraint inputJSON sd p key r = Inr (r', ls) \<Longrightarrow> value' r' = value' r \<and> errors_of ls = []"
  by (auto simp: fix_constraint_def errors_of_def index_warning_def
      split: option.splits sum.splits prod.splits)

lemma fix_mapping_keeps:
  "fix_mapping inputJSON sd p key r = Inr (r', ls) \<Longrightarrow> value' r' = value' r \<and> errors_of ls = []"
  by (auto simp: fix_mapping_def errors_of_def index_warning_def
      split: option.splits sum.splits prod.splits)

lemma process_entry_Inr:
  assumes "process_entry u fisher sd p inputJSON rem (i, key, v) = Inr (rs, ls)"
  shows "(resolved_empty u fisher ''ElementDefinition'' rem i \<longrightarrow> rs = [] \<and> length (errors_of ls) = 1)
       \<and> (\<not> resolved_empty u fisher ''ElementDefinition'' rem i \<longrightarrow>
            (\<exists>r. rs = [r] \<and> value' r = getFSHValue u i rem ''ElementDefinition'' fisher)
            \<and> errors_of ls = [])"
proof (cases "resolved_empty u fisher ''ElementDefinition'' rem i")
  case True
  with assms show ?thesis
    by (auto simp: process_entry_def resolved_empty_def Let_def errors_of_def)
next
  case False
  with assms obtain r1 l1 r2 l2 where
    c: "fix_constraint inputJSON sd p key (new_rule p key (getFSHValue u i rem ''ElementDefinition'' fisher)) = Inr (r1, l1)"
    and m: "fix_mapping inputJSON sd p key r1 = Inr (r2, l2)"
    and res: "rs = [r2]" "ls = l1 @ l2"
    by (auto simp: process_entry_def resolved_empty_def Let_def split: sum.splits prod.splits)
  from fix_constraint_keeps [OF c] fix_mapping_keeps [OF m] res False show ?thesis
    by (simp add: new_rule_def errors_of_def)
qed

lemma process_values:
  assumes "process u el sd fisher = Inr (rs, ls)" and "r \<in> set rs"
  shows "\<not> isFSHValueEmpty u (value' r)"
proof -
  from forEach_err_member [OF assms [unfolded process_def]]
  obtain x rs' ls' where
    b: "process_entry u fisher sd (getPath u el) (elementJSON el) (remainingFlatElementArray u el) x = Inr (rs', ls')"
    and r: "r \<in> set rs'" by blast
  obtain i key v where x: "x = (i, key, v)" by (cases x)
  from process_entry_Inr [OF b [unfolded x]] r show ?thesis
    by (cases "resolved_empty u fisher ''ElementDefinition'' (remainingFlatElementArray u el) i")
       (auto simp: resolved_empty_def)
qed

lemma process_counts:
  assumes "process u el sd fisher = Inr (rs, ls)"
  shows "length rs =
     length (filter (\<lambda>(i, key, v). \<not> resolved_empty u fisher ''ElementDefinition'' (remainingFlatElementArray u el) i)
              (enumerate 0 (remainingFlatElementArray u el)))
   \<and> length (errors_of ls) =
     length (filter (\<lambda>(i, key, v). resolved_empty u fisher ''ElementDefinition'' (remainingFlatElementArray u el) i)
              (enumerate 0 (remainingFlatElementArray u el)))"
proof
  show "length rs =
     length (filter (\<lambda>(i, key, v). \<not> resolved_empty u fisher ''ElementDefinition'' (remainingFlatElementArray u el) i)
              (enumerate 0 (remainingFlatElementArray u el)))"
  proof (rule forEach_err_length_rules [OF assms [unfolded process_def]])
    fix x rs' ls'
    assume b: "process_entry u fisher sd (getPath u el) (elementJSON el) (remainingFlatElementArray u el) x = Inr (rs', ls')"
    obtain i key v where x: "x = (i, key, v)" by (cases x)
    from process_entry_Inr [OF b [unfolded x]]
    show "length rs' = (if (case x of (i, key, v) \<Rightarrow>
        \<not> resolved_empty u fisher ''ElementDefinition'' (remainingFlatElementArray u el) i) then 1 else 0)"
      by (auto simp: x)
  qed
  show "length (errors_of ls) =
     length (filter (\<lambda>(i, key, v). resolved_empty u fisher ''ElementDefinition'' (remainingFlatElementArray u el) i)
              (enumerate 0 (remainingFlatElementArray u el)))"
  proof (rule forEach_err_length_errors [OF assms [unfolded process_def]])
    fix x rs' ls'
    assume b: "process_entry u fisher sd (getPath u el) (elementJSON el) (remainingFlatElementArray u el) x = Inr (rs', ls')"
    obtain i key v where x: "x = (i, key, v)" by (cases x)
    from process_entry_Inr [OF b [unfolded x]]
    show "length (errors_of ls') = (if (case x of (i, key, v) \<Rightarrow>
        resolved_empty u fisher ''ElementDefinition'' (remainingFlatElementArray u el) i) then 1 else 0)"
      by (auto simp: x)
  qed
qed

lemma process_returns_without_snapshot:
  assumes "\<not> has_snapshot sd"
  shows "\<exists>res. process u el sd fisher = Inr res"
  unfolding process_def
proof (rule forEach_err_total)
  fix x :: "nat \<times> string \<times> json"
  obtain i key v where x: "x = (i, key, v)" by (cases x)
  have c: "constraint_newIndex (elementJSON el) sd ds = Inr None" for ds
    using assms by (simp add: constraint_newIndex_def)
  have m: "mapping_newIndex (elementJSON el) sd ds = Inr None" for ds
    using assms by (simp add: mapping_newIndex_def)
  show "\<exists>res. process_entry u fisher sd (getPath u el) (elementJSON el) (remainingFlatElementArray u el) x = Inr res"
    by (auto simp: x process_entry_def Let_def fix_constraint_def fix_mapping_def c m
        split: option.splits prod.splits)
qed

text \<open>
  C7: every rule that \<open>processStructureDefinition\<close>, \<open>processResource\<close>, \<open>processConcept\<close>
  and \<open>process\<close> return has a value that is not empty. Of the entries that reach the
  resolution of their value (all entries for an element and for a concept; those that are
  not a standard url for a resource; those that also differ from the parent for a structure
  definition), each one whose value is empty gives no rule and one error message, each other
  one gives one rule, whatever the other entries are. \<open>process\<close> can end in an exception
  (of the index correction, never of an empty value); without a snapshot it returns.
\<close>

theorem emitted_values_not_empty:
  "(\<forall>r \<in> set (fst (processStructureDefinition u input fisher config)). \<not> isFSHValueEmpty u (value' r))
   \<and> length (fst (processStructureDefinition u input fisher config)) =
       length (filter (\<lambda>(i, key, v). sd_selected u fisher config input key
                  \<and> \<not> resolved_empty u fisher ''StructureDefinition'' (sd_flatArray u fisher input) i)
                (enumerate 0 (sd_flatArray u fisher input)))
   \<and> length (errors_of (snd (processStructureDefinition u input fisher config))) =
       length (filter (\<lambda>(i, key, v). sd_selected u fisher config input key
                  \<and> resolved_empty u fisher ''StructureDefinition'' (sd_flatArray u fisher input) i)
                (enumerate 0 (sd_flatArray u fisher input)))
   \<and> (\<forall>r \<in> set (fst (processResource u input fisher rt config)). \<not> isFSHValueEmpty u (value' r))
   \<and> length (fst (processResource u input fisher rt config)) =
       length (filter (\<lambda>(i, key, v). resource_selected rt config input key
                  \<and> \<not> resolved_empty u fisher (resourceType_name rt) (resource_flatArray u rt input) i)
                (enumerate 0 (resource_flatArray u rt input)))
   \<and> length (errors_of (snd (processResource u input fisher rt config))) =
       length (filter (\<lambda>(i, key, v). resource_selected rt config input key
                  \<and> resolved_empty u fisher (resourceType_name rt) (resource_flatArray u rt input) i)
                (enumerate 0 (resource_flatArray u rt input)))
   \<and> (\<forall>r \<in> set (fst (processConcept u input hier cs fisher)). \<not> isFSHValueEmpty u (value' r))
   \<and> length (fst (processConcept u input hier cs fisher)) =
       length (filter (\<lambda>(i, key, v). \<not> resolved_empty u fisher ''Concept'' (concept_flatArray u input) i)
                (enumerate 0 (concept_flatArray u input)))
   \<and> length (errors_of (snd (processConcept u input hier cs fisher))) =
       length (filter (\<lambda>(i, key, v). resolved_empty u fisher ''Concept'' (concept_flatArray u input) i)
                (enumerate 0 (concept_flatArray u input)))
   \<and> (\<forall>rs ls. process u el sd fisher = Inr (rs, ls) \<longrightarrow>
         (\<forall>r \<in> set rs. \<not> isFSHValueEmpty u (value' r))
         \<and> length rs =
             length (filter (\<lambda>(i, key, v). \<not> resolved_empty u fisher ''ElementDefinition''
                                (remainingFlatElementArray u el) i)
                      (enumerate 0 (remainingFlatElementArray u el)))
         \<and> length (errors_of ls) =
             length (filter (\<lambda>(i, key, v). resolved_empty u fisher ''ElementDefinition''
                                (remainingFlatElementArray u el) i)
                      (enumerate 0 (remainingFlatElementArray u el))))
   \<and> (\<not> has_snapshot sd \<longrightarrow> (\<exists>res. process u el sd fisher = Inr res))"
  using sd_values [of _ u input fisher config] sd_counts [of u input fisher config]
    resource_values [of _ u input fisher rt config] resource_counts [of u input fisher rt config]
    concept_values [of _ u input hier cs fisher] concept_counts [of u input hier cs fisher]
    process_values [of u el sd fisher] process_counts [of u el sd fisher]
    process_returns_without_snapshot [of sd u el fisher]
  by blast

lemma show_nat_0: "show_nat 0 = ''0''"
  by (simp add: show_nat.simps digit_char_def)

lemma example_concept_flat: "flatten example_concept =
   [(''code'', JStr ''c1''), (''designation[0].value'', JObj []), (''extension[0].valueString'', JStr ''x'')]"
  by (simp add: flatten_def example_concept_def show_nat_0)

lemma example_concept_flatArray: "concept_flatArray example_utils example_concept =
   [(''designation[0].value'', JObj []), (''extension[0].valueString'', JStr ''x'')]"
  apply (simp add: concept_flatArray_def example_utils_def example_concept_flat)
  apply (simp add: ignored_def CONCEPT_IGNORED_PROPERTIES_def pattern_at_def match_tail_def atom_matches_def)
  done

lemma example_concept_result:
  "processConcept example_utils example_concept [''c1''] ''CS'' (\<lambda>x. None) =
     ([\<lparr>path = [], caretPath = ''extension[0].valueString'', value' = JStr ''x'', fshComment = None,
        isCodeCaretRule = True, pathArray = [''c1'']\<rparr>],
      [(Error, ''Value in CodeSytem CS at concept c1 for element designation[0].value is empty. No caret value rule will be created.'')])"
  apply (simp add: processConcept_eq example_concept_flatArray forEach_collect_def enumerate_eq_zip concept_entry_cases resolved_empty_def new_rule_def)
  apply (simp add: example_utils_def)
  done

theorem emitted_values_not_empty_witness:
  "processConcept example_utils example_concept [''c1''] ''CS'' (\<lambda>x. None) =
     ([\<lparr>path = [], caretPath = ''extension[0].valueString'', value' = JStr ''x'', fshComment = None,
        isCodeCaretRule = True, pathArray = [''c1'']\<rparr>],
      [(Error, ''Value in CodeSytem CS at concept c1 for element designation[0].value is empty. No caret value rule will be created.'')])
   \<and> concept_flatArray example_utils example_concept =
        [(''designation[0].value'', JObj []), (''extension[0].valueString'', JStr ''x'')]
   \<and> \<not> isFSHValueEmpty example_utils (JStr ''x'')
   \<and> isFSHValueEmpty example_utils (JObj [])"
proof -
  note T = emitted_values_not_empty [of example_utils example_concept "\<lambda>x. None" undefined undefined
      "[''c1'']" "''CS''" undefined undefined]
  then have "\<forall>r \<in> set (fst (processConcept example_utils example_concept [''c1''] ''CS'' (\<lambda>x. None))).
      \<not> isFSHValueEmpty example_utils (value' r)"
    by blast
  then have "\<not> isFSHValueEmpty example_utils (JStr ''x'')"
    by (simp add: example_concept_result)
  moreover have "isFSHValueEmpty example_utils (JObj [])"
    by (simp add: example_utils_def)
  ultimately show ?thesis
    using example_concept_result example_concept_flatArray by simp
qed


subsection \<open>The ignore lists\<close>

lemma match_atoms_self: "match_atoms p (p @ rest) = Some rest"
  by (induction p) (simp_all add: atom_matches_def)

lemma not_digit_bracket: "\<not> is_digit CHR '']''"
  by (simp add: is_digit_def)

lemma match_tail_index:
  assumes "is_index ix"
  shows "match_tail (ix @ ''.'' @ post)"
proof (cases ix)
  case Nil
  then show ?thesis by (simp add: match_tail_def)
next
  case (Cons c cs)
  with assms have c: "c = CHR ''[''" and ne: "cs \<noteq> []" and l: "last cs = CHR '']''"
    and b: "butlast cs \<noteq> []" and d: "list_all is_digit (butlast cs)"
    by (simp_all add: is_index_def)
  from ne l have cs: "cs = butlast cs @ '']''"
    by (metis append_butlast_last_id)
  let ?ds = "butlast cs"
  have tw: "takeWhile is_digit (?ds @ '']'' @ ''.'' @ post) = ?ds"
    using d not_digit_bracket by (simp add: takeWhile_append2 list_all_iff)
  have "ix @ ''.'' @ post = CHR ''['' # ?ds @ '']'' @ ''.'' @ post"
    using Cons c cs by (metis append_Cons append_assoc)
  then show ?thesis
    using tw b by (simp add: match_tail_def Let_def)
qed

lemma pattern_at_literal:
  "is_index ix \<Longrightarrow> pattern_at property (property @ ix @ ''.'' @ post)"
  using match_tail_index [of ix post] by (simp add: pattern_at_def match_atoms_self)

lemma regex_test_anywhere: "pattern_at property s \<Longrightarrow> regex_test property (pre @ s)"
proof (induction pre)
  case Nil
  then show ?case by (cases s) simp_all
next
  case (Cons c pre)
  then show ?case by simp
qed

lemma holds_ignored_regex: "holds_ignored property key \<Longrightarrow> regex_test property key"
  unfolding holds_ignored_def using pattern_at_literal regex_test_anywhere by blast

lemma ignoredI:
  "property \<in> set properties \<Longrightarrow> key = property \<or> holds_ignored property key \<Longrightarrow> ignored properties key"
  using holds_ignored_regex by (auto simp: ignored_def list_ex_iff)

lemma caretPath_forEach:
  assumes "r \<in> set (fst (forEach_collect body (enumerate 0 fa)))"
    and "\<And>i key v r. r \<in> set (fst (body (i, key, v))) \<Longrightarrow> caretPath r = key"
  shows "caretPath r \<in> fst ` set fa"
proof -
  from assms(1) obtain i key v where m: "(i, key, v) \<in> set (enumerate 0 fa)" and r: "r \<in> set (fst (body (i, key, v)))"
    by (auto simp: forEach_collect_def)
  from m have "i < length fa \<and> fa ! i = (key, v)" by (simp add: in_set_enumerate_eq)
  then have "(key, v) \<in> set fa" by (metis nth_mem)
  with assms(2) [OF r] show ?thesis by force
qed

lemma resource_caretPaths:
  "r \<in> set (fst (processResource u input fisher rt config)) \<Longrightarrow>
   caretPath r \<in> fst ` set (resource_flatArray u rt input)"
  unfolding processResource_eq
  by (erule caretPath_forEach) (auto simp: resource_entry_cases new_rule_def split: if_splits)

lemma concept_caretPaths:
  "r \<in> set (fst (processConcept u input hier cs fisher)) \<Longrightarrow>
   caretPath r \<in> fst ` set (concept_flatArray u input)"
  unfolding processConcept_eq
  by (erule caretPath_forEach) (auto simp: concept_entry_cases new_rule_def split: if_splits)

text \<open>
  C10: in \<open>processResource\<close> and \<open>processConcept\<close> a leaf is excluded when its path is an
  ignored property name, or when an ignored property name, an optional array index and a dot
  stand anywhere in the path, after any prefix: the path is not among the entries that are
  walked through, and no rule has it as its caret path.
\<close>

theorem ignored_anywhere_in_path:
  "(property \<in> set (RESOURCE_IGNORED_PROPERTIES (resourceType_name rt)) \<and>
      (key = property \<or> holds_ignored property key) \<longrightarrow>
        key \<notin> fst ` set (resource_flatArray u rt input)
        \<and> (\<forall>r \<in> set (fst (processResource u input fisher rt config)). caretPath r \<noteq> key))
   \<and> (property \<in> set CONCEPT_IGNORED_PROPERTIES \<and>
      (key = property \<or> holds_ignored property key) \<longrightarrow>
        key \<notin> fst ` set (concept_flatArray u input)
        \<and> (\<forall>r \<in> set (fst (processConcept u input hier cs fisher)). caretPath r \<noteq> key))"
proof (intro conjI impI)
  assume a: "property \<in> set (RESOURCE_IGNORED_PROPERTIES (resourceType_name rt)) \<and>
      (key = property \<or> holds_ignored property key)"
  then have ig: "ignored (RESOURCE_IGNORED_PROPERTIES (resourceType_name rt)) key"
    using ignoredI by blast
  then show n: "key \<notin> fst ` set (resource_flatArray u rt input)"
    by (auto simp: resource_flatArray_def)
  then show "\<forall>r \<in> set (fst (processResource u input fisher rt config)). caretPath r \<noteq> key"
    using resource_caretPaths by blast
next
  assume a: "property \<in> set CONCEPT_IGNORED_PROPERTIES \<and>
      (key = property \<or> holds_ignored property key)"
  then have ig: "ignored CONCEPT_IGNORED_PROPERTIES key"
    using ignoredI by blast
  then show n: "key \<notin> fst ` set (concept_flatArray u input)"
    by (auto simp: concept_flatArray_def)
  then show "\<forall>r \<in> set (fst (processConcept u input hier cs fisher)). caretPath r \<noteq> key"
    using concept_caretPaths by blast
qed

lemma example_valueSet_flat:
  "flatten example_valueSet = [(''status'', JStr ''draft''), (''contact[0].name.id'', JStr ''n1'')]"
  by (simp add: flatten_def example_valueSet_def show_nat_0)

lemma example_holds: "holds_ignored ''name'' ''contact[0].name.id''"
proof -
  have "''contact[0].name.id'' = ''contact[0].'' @ ''name'' @ [] @ ''.'' @ ''id'' \<and> is_index []"
    by (simp add: is_index_def)
  then show ?thesis unfolding holds_ignored_def by blast
qed

theorem ignored_anywhere_in_path_witness:
  "''name'' \<in> set (RESOURCE_IGNORED_PROPERTIES (resourceType_name ValueSet))
   \<and> ''contact[0].name.id'' = ''contact[0].'' @ ''name'' @ [] @ ''.'' @ ''id''
   \<and> ''contact[0].name.id'' \<in> fst ` set (getPathValuePairs example_utils example_valueSet)
   \<and> ''contact[0].name.id'' \<notin> fst ` set (resource_flatArray example_utils ValueSet example_valueSet)
   \<and> map caretPath (fst (processResource example_utils example_valueSet (\<lambda>x. None) ValueSet example_config))
       = [''status'']"
proof -
  have p: "''name'' \<in> set (RESOURCE_IGNORED_PROPERTIES (resourceType_name ValueSet))"
    by (simp add: RESOURCE_IGNORED_PROPERTIES_def)
  from ignored_anywhere_in_path [of "''name''" ValueSet "''contact[0].name.id''" example_utils
      example_valueSet "\<lambda>x. None" example_config undefined undefined] p example_holds
  have n: "''contact[0].name.id'' \<notin> fst ` set (resource_flatArray example_utils ValueSet example_valueSet)"
    by blast
  have f: "getPathValuePairs example_utils example_valueSet
      = [(''status'', JStr ''draft''), (''contact[0].name.id'', JStr ''n1'')]"
    by (simp add: example_utils_def example_valueSet_flat)
  have "ignored (RESOURCE_IGNORED_PROPERTIES ''ValueSet'') ''contact[0].name.id''"
    using ignoredI [OF p [simplified]] example_holds by blast
  moreover have "\<not> ignored (RESOURCE_IGNORED_PROPERTIES ''ValueSet'') ''status''"
    by (simp add: ignored_def RESOURCE_IGNORED_PROPERTIES_def pattern_at_def match_tail_def atom_matches_def)
  ultimately have fa: "resource_flatArray example_utils ValueSet example_valueSet = [(''status'', JStr ''draft'')]"
    by (simp add: resource_flatArray_def f)
  have "map caretPath (fst (processResource example_utils example_valueSet (\<lambda>x. None) ValueSet example_config))
       = [''status'']"
    by (simp add: processResource_eq fa forEach_collect_def enumerate_eq_zip resource_entry_cases
        resolved_empty_def new_rule_def)
       (simp add: example_utils_def)
  with p n f show ?thesis by simp
qed


subsection \<open>The leaves of a structure definition that give a rule\<close>

lemma concat_map_filter:
  "(\<And>x. x \<in> set xs \<Longrightarrow> g x = (if P x then [f x] else [])) \<Longrightarrow>
   concat (map g xs) = map f (filter P xs)"
  by (induction xs) simp_all

lemma sd_rules_eq:
  "fst (processStructureDefinition u input fisher config) =
     map (\<lambda>(i, key, v). new_rule [] key (getFSHValue u i (sd_flatArray u fisher input) ''StructureDefinition'' fisher))
       (filter (\<lambda>(i, key, v). sd_selected u fisher config input key
                  \<and> \<not> resolved_empty u fisher ''StructureDefinition'' (sd_flatArray u fisher input) i)
          (enumerate 0 (sd_flatArray u fisher input)))"
  unfolding processStructureDefinition_eq fst_conv forEach_collect_def
  by (rule concat_map_filter) (auto simp: sd_entry_cases sd_selected_def split: if_splits)

lemma resource_rules_eq:
  "fst (processResource u input fisher rt config) =
     map (\<lambda>(i, key, v). new_rule [] key (getFSHValue u i (resource_flatArray u rt input) (resourceType_name rt) fisher))
       (filter (\<lambda>(i, key, v). resource_selected rt config input key
                  \<and> \<not> resolved_empty u fisher (resourceType_name rt) (resource_flatArray u rt input) i)
          (enumerate 0 (resource_flatArray u rt input)))"
  unfolding processResource_eq fst_conv forEach_collect_def
  by (rule concat_map_filter) (auto simp: resource_entry_cases resource_selected_def split: if_splits)

lemma enumerate_nth_mem: "i < length xs \<Longrightarrow> (i, fst (xs ! i), snd (xs ! i)) \<in> set (enumerate 0 xs)"
  by (simp add: in_set_enumerate_eq)

lemma sd_rule_emitted:
  assumes "i < length (sd_flatArray u fisher input)"
    and "sd_selected u fisher config input (fst (sd_flatArray u fisher input ! i))"
    and "\<not> resolved_empty u fisher ''StructureDefinition'' (sd_flatArray u fisher input) i"
  shows "new_rule [] (fst (sd_flatArray u fisher input ! i))
           (getFSHValue u i (sd_flatArray u fisher input) ''StructureDefinition'' fisher)
         \<in> set (fst (processStructureDefinition u input fisher config))"
proof -
  let ?fa = "sd_flatArray u fisher input"
  let ?f = "\<lambda>(i, key, v). new_rule [] key (getFSHValue u i ?fa ''StructureDefinition'' fisher)"
  let ?P = "\<lambda>(i, key, v). sd_selected u fisher config input key
                  \<and> \<not> resolved_empty u fisher ''StructureDefinition'' ?fa i"
  have "(i, fst (?fa ! i), snd (?fa ! i)) \<in> set (filter ?P (enumerate 0 ?fa))"
    using enumerate_nth_mem [OF assms(1)] assms(2,3) by (simp add: case_prod_beta)
  then have "?f (i, fst (?fa ! i), snd (?fa ! i)) \<in> ?f ` set (filter ?P (enumerate 0 ?fa))"
    by (rule imageI)
  then show ?thesis by (simp add: sd_rules_eq case_prod_beta)
qed

lemma resource_rule_emitted:
  assumes "i < length (resource_flatArray u rt input)"
    and "resource_selected rt config input (fst (resource_flatArray u rt input ! i))"
    and "\<not> resolved_empty u fisher (resourceType_name rt) (resource_flatArray u rt input) i"
  shows "new_rule [] (fst (resource_flatArray u rt input ! i))
           (getFSHValue u i (resource_flatArray u rt input) (resourceType_name rt) fisher)
         \<in> set (fst (processResource u input fisher rt config))"
proof -
  let ?fa = "resource_flatArray u rt input"
  let ?f = "\<lambda>(i, key, v). new_rule [] key (getFSHValue u i ?fa (resourceType_name rt) fisher)"
  let ?P = "\<lambda>(i, key, v). resource_selected rt config input key
                  \<and> \<not> resolved_empty u fisher (resourceType_name rt) ?fa i"
  have "(i, fst (?fa ! i), snd (?fa ! i)) \<in> set (filter ?P (enumerate 0 ?fa))"
    using enumerate_nth_mem [OF assms(1)] assms(2,3) by (simp add: case_prod_beta)
  then have "?f (i, fst (?fa ! i), snd (?fa ! i)) \<in> ?f ` set (filter ?P (enumerate 0 ?fa))"
    by (rule imageI)
  then show ?thesis by (simp add: resource_rules_eq case_prod_beta)
qed

lemma sd_rule_selected:
  "r \<in> set (fst (processStructureDefinition u input fisher config)) \<Longrightarrow>
   sd_selected u fisher config input (caretPath r)"
  unfolding sd_rules_eq by (auto simp: new_rule_def)

lemma resource_rule_selected:
  "r \<in> set (fst (processResource u input fisher rt config)) \<Longrightarrow>
   resource_selected rt config input (caretPath r)"
  unfolding resource_rules_eq by (auto simp: new_rule_def)

text \<open>
  C5, as amended: the rules that \<open>processStructureDefinition\<close> returns are, in order, one
  per leaf entry of the flattened resource copy for which the flattened parent copy has no
  value or \<open>null\<close> at that path, or the two values differ, or the path is \<open>status\<close> and
  the value is not \<open>active\<close>, and which moreover is not the \<open>url\<close> leaf of a resource with
  the standard url, and whose resolved value is not empty. In particular a status \<open>draft\<close>
  equal to the parent's gives a status rule when its resolved value is not empty, and a
  status \<open>active\<close> equal to the parent's gives none.
\<close>

theorem sd_leaf_emitted_iff:
  "fst (processStructureDefinition u input fisher config) =
     map (\<lambda>(i, key, v). new_rule [] key
            (getFSHValue u i (sd_flatArray u fisher input) ''StructureDefinition'' fisher))
       (filter (\<lambda>(i, key, v).
            (nullish (map_of (sd_flatParent u fisher input) key)
             \<or> \<not> isEqual (map_of (sd_flatArray u fisher input) key) (map_of (sd_flatParent u fisher input) key)
             \<or> (key = ''status'' \<and> \<not> strict_eq (map_of (sd_flatArray u fisher input) key) (Some (JStr ''active''))))
            \<and> \<not> (key = ''url'' \<and> isStandardURL ''StructureDefinition'' config input)
            \<and> \<not> isFSHValueEmpty u (getFSHValue u i (sd_flatArray u fisher input) ''StructureDefinition'' fisher))
          (enumerate 0 (sd_flatArray u fisher input)))
   \<and> (map_of (sd_flatArray u fisher input) ''status'' = Some (JStr ''draft'') \<longrightarrow>
        (\<forall>i < length (sd_flatArray u fisher input).
           fst (sd_flatArray u fisher input ! i) = ''status''
           \<and> \<not> isFSHValueEmpty u (getFSHValue u i (sd_flatArray u fisher input) ''StructureDefinition'' fisher)
           \<longrightarrow> new_rule [] ''status'' (getFSHValue u i (sd_flatArray u fisher input) ''StructureDefinition'' fisher)
                 \<in> set (fst (processStructureDefinition u input fisher config))))
   \<and> (map_of (sd_flatArray u fisher input) ''status'' = Some (JStr ''active'')
        \<and> map_of (sd_flatParent u fisher input) ''status'' = Some (JStr ''active'') \<longrightarrow>
        (\<forall>r \<in> set (fst (processStructureDefinition u input fisher config)). caretPath r \<noteq> ''status''))"
proof (intro conjI impI allI ballI)
  show "fst (processStructureDefinition u input fisher config) =
     map (\<lambda>(i, key, v). new_rule [] key
            (getFSHValue u i (sd_flatArray u fisher input) ''StructureDefinition'' fisher))
       (filter (\<lambda>(i, key, v).
            (nullish (map_of (sd_flatParent u fisher input) key)
             \<or> \<not> isEqual (map_of (sd_flatArray u fisher input) key) (map_of (sd_flatParent u fisher input) key)
             \<or> (key = ''status'' \<and> \<not> strict_eq (map_of (sd_flatArray u fisher input) key) (Some (JStr ''active''))))
            \<and> \<not> (key = ''url'' \<and> isStandardURL ''StructureDefinition'' config input)
            \<and> \<not> isFSHValueEmpty u (getFSHValue u i (sd_flatArray u fisher input) ''StructureDefinition'' fisher))
          (enumerate 0 (sd_flatArray u fisher input)))"
    by (simp add: sd_rules_eq sd_selected_def differs_def resolved_empty_def conj_assoc)
next
  fix i
  assume st: "map_of (sd_flatArray u fisher input) ''status'' = Some (JStr ''draft'')"
    and i: "i < length (sd_flatArray u fisher input)"
    and k: "fst (sd_flatArray u fisher input ! i) = ''status''
           \<and> \<not> isFSHValueEmpty u (getFSHValue u i (sd_flatArray u fisher input) ''StructureDefinition'' fisher)"
  from st have "sd_selected u fisher config input ''status''"
    by (simp add: sd_selected_def differs_def)
  with sd_rule_emitted [OF i, of config] k
  show "new_rule [] ''status'' (getFSHValue u i (sd_flatArray u fisher input) ''StructureDefinition'' fisher)
                 \<in> set (fst (processStructureDefinition u input fisher config))"
    by (simp add: resolved_empty_def)
next
  fix r
  assume st: "map_of (sd_flatArray u fisher input) ''status'' = Some (JStr ''active'')
        \<and> map_of (sd_flatParent u fisher input) ''status'' = Some (JStr ''active'')"
    and r: "r \<in> set (fst (processStructureDefinition u input fisher config))"
  from st have "\<not> sd_selected u fisher config input ''status''"
    by (simp add: sd_selected_def differs_def nullish_def isEqual_def)
  with sd_rule_selected [OF r] show "caretPath r \<noteq> ''status''" by auto
qed

lemma example_profile_prepared:
  "prepared_sd example_profile =
     [(''url'', JStr ''https://example.org/fhir/StructureDefinition/my-profile''),
      (''status'', JStr ''draft''), (''publisher'', JObj [])]"
  "prepared_parent example_fisher example_profile = example_parent"
  by (simp_all add: prepared_sd_def prepared_parent_def example_profile_def example_parent_def
      example_fisher_def found_parent_def delete_all_def RESOURCE_IGNORED_PROPERTIES_def
      SD_CLEARED_PROPERTIES_def obj_delete_def text_generated_def obj_get_def)

lemma example_profile_reconciled:
  "reconcile (prepared_sd example_profile) (prepared_parent example_fisher example_profile)
     = (prepared_sd example_profile, example_parent)"
  by (simp add: example_profile_prepared reconcile_def reconcile_step_def obj_get_def)

lemma example_profile_flat:
  "sd_flatArray example_utils example_fisher example_profile =
     [(''url'', JStr ''https://example.org/fhir/StructureDefinition/my-profile''),
      (''status'', JStr ''draft''), (''publisher'', JObj [])]"
  "sd_flatParent example_utils example_fisher example_profile =
     [(''url'', JStr ''http://hl7.org/fhir/StructureDefinition/Patient''), (''status'', JStr ''draft'')]"
  by (simp_all add: sd_flatArray_def sd_flatParent_def example_profile_reconciled)
     (simp_all add: example_profile_prepared example_utils_def flatten_def example_parent_def)

lemma example_profile_standard:
  "isStandardURL ''StructureDefinition'' example_config example_profile"
  by (simp add: isStandardURL_def example_config_def example_profile_def obj_get_def template_def)

lemma example_profile_rules:
  "fst (processStructureDefinition example_utils example_profile example_fisher example_config)
     = [new_rule [] ''status'' (JStr ''draft'')]"
  by (simp add: sd_rules_eq example_profile_flat enumerate_eq_zip sd_selected_def differs_def
      example_profile_standard resolved_empty_def nullish_def isEqual_def)
     (simp add: example_utils_def)

text \<open>
  C5, as stated, fails: the \<open>url\<close> leaf of the example profile differs from the parent's and
  its \<open>publisher\<close> leaf is absent from the parent, yet neither gives a rule: the url is the
  standard one, and the resolved value of the publisher is empty.
\<close>

theorem sd_leaf_emitted_counterexample:
  "sd_flatArray example_utils example_fisher example_profile =
     [(''url'', JStr ''https://example.org/fhir/StructureDefinition/my-profile''),
      (''status'', JStr ''draft''), (''publisher'', JObj [])]
   \<and> \<not> isEqual (map_of (sd_flatArray example_utils example_fisher example_profile) ''url'')
              (map_of (sd_flatParent example_utils example_fisher example_profile) ''url'')
   \<and> map_of (sd_flatParent example_utils example_fisher example_profile) ''publisher'' = None
   \<and> map caretPath (fst (processStructureDefinition example_utils example_profile example_fisher example_config))
       = [''status'']"
  by (simp add: example_profile_rules new_rule_def) (simp add: example_profile_flat isEqual_def)

theorem sd_leaf_emitted_iff_witness:
  "map_of (sd_flatArray example_utils example_fisher example_profile) ''status'' = Some (JStr ''draft'')
   \<and> map_of (sd_flatParent example_utils example_fisher example_profile) ''status'' = Some (JStr ''draft'')
   \<and> sd_flatArray example_utils example_fisher example_profile ! 1 = (''status'', JStr ''draft'')
   \<and> \<not> isFSHValueEmpty example_utils (JStr ''draft'')
   \<and> new_rule [] ''status'' (JStr ''draft'')
        \<in> set (fst (processStructureDefinition example_utils example_profile example_fisher example_config))"
proof -
  have 1: "map_of (sd_flatArray example_utils example_fisher example_profile) ''status'' = Some (JStr ''draft'')"
    and 2: "map_of (sd_flatParent example_utils example_fisher example_profile) ''status'' = Some (JStr ''draft'')"
    and 3: "sd_flatArray example_utils example_fisher example_profile ! 1 = (''status'', JStr ''draft'')"
    and l: "1 < length (sd_flatArray example_utils example_fisher example_profile)"
    by (simp_all add: example_profile_flat)
  have 4: "\<not> isFSHValueEmpty example_utils (JStr ''draft'')"
    and v: "getFSHValue example_utils 1 (sd_flatArray example_utils example_fisher example_profile)
        ''StructureDefinition'' example_fisher = JStr ''draft''"
    by (simp_all add: example_utils_def example_profile_flat [unfolded example_utils_def])
  from sd_leaf_emitted_iff [of example_utils example_profile example_fisher example_config] 1
  have "\<forall>i < length (sd_flatArray example_utils example_fisher example_profile).
           fst (sd_flatArray example_utils example_fisher example_profile ! i) = ''status''
           \<and> \<not> isFSHValueEmpty example_utils (getFSHValue example_utils i
                  (sd_flatArray example_utils example_fisher example_profile) ''StructureDefinition'' example_fisher)
           \<longrightarrow> new_rule [] ''status'' (getFSHValue example_utils i
                  (sd_flatArray example_utils example_fisher example_profile) ''StructureDefinition'' example_fisher)
                 \<in> set (fst (processStructureDefinition example_utils example_profile example_fisher example_config))"
    by blast
  from this [rule_format, OF l] 3 4 v
  have "new_rule [] ''status'' (JStr ''draft'')
        \<in> set (fst (processStructureDefinition example_utils example_profile example_fisher example_config))"
    by simp
  with 1 2 3 4 show ?thesis by blast
qed

subsection \<open>The standard url\<close>

lemma url_not_ignored: "\<not> ignored (RESOURCE_IGNORED_PROPERTIES (resourceType_name rt)) ''url''"
  by (cases rt)
     (simp_all add: ignored_def RESOURCE_IGNORED_PROPERTIES_def pattern_at_def match_tail_def
        atom_matches_def)

lemma isStandardURL_strings:
  "obj_get input ''url'' = Some (JStr s) \<Longrightarrow> obj_get input ''id'' = Some (JStr i) \<Longrightarrow>
   isStandardURL resourceType config input = (s = canonical config @ ''/'' @ resourceType @ ''/'' @ i)"
  by (simp add: isStandardURL_def template_def)

text \<open>
  C6, as amended: when the url of the resource equals
  \<open><canonical>/<ResourceKind>/<id>\<close>, neither \<open>processStructureDefinition\<close> nor
  \<open>processResource\<close> returns a rule for the \<open>url\<close> path. With any other url,
  \<open>processResource\<close> returns a rule for every \<open>url\<close> leaf whose resolved value is not
  empty (the leaf is never excluded by the ignore list), and \<open>processStructureDefinition\<close>
  returns one when moreover the leaf differs from the parent copy.
\<close>

theorem standard_url_suppressed:
  "(isStandardURL ''StructureDefinition'' config input \<longrightarrow>
      (\<forall>r \<in> set (fst (processStructureDefinition u input fisher config)). caretPath r \<noteq> ''url''))
   \<and> (isStandardURL (resourceType_name rt) config input \<longrightarrow>
      (\<forall>r \<in> set (fst (processResource u input fisher rt config)). caretPath r \<noteq> ''url''))
   \<and> (obj_get input ''url'' = Some (JStr s) \<and> obj_get input ''id'' = Some (JStr i) \<longrightarrow>
      isStandardURL resourceType config input = (s = canonical config @ ''/'' @ resourceType @ ''/'' @ i))
   \<and> (\<not> isStandardURL (resourceType_name rt) config input \<longrightarrow>
      (\<forall>n < length (resource_flatArray u rt input).
         fst (resource_flatArray u rt input ! n) = ''url''
         \<and> \<not> isFSHValueEmpty u (getFSHValue u n (resource_flatArray u rt input) (resourceType_name rt) fisher)
         \<longrightarrow> new_rule [] ''url'' (getFSHValue u n (resource_flatArray u rt input) (resourceType_name rt) fisher)
               \<in> set (fst (processResource u input fisher rt config))))
   \<and> ((''url'', v) \<in> set (getPathValuePairs u input) \<longrightarrow> (''url'', v) \<in> set (resource_flatArray u rt input))
   \<and> (\<not> isStandardURL ''StructureDefinition'' config input \<longrightarrow>
      (\<forall>n < length (sd_flatArray u fisher input).
         fst (sd_flatArray u fisher input ! n) = ''url''
         \<and> differs (sd_flatArray u fisher input) (sd_flatParent u fisher input) ''url''
         \<and> \<not> isFSHValueEmpty u (getFSHValue u n (sd_flatArray u fisher input) ''StructureDefinition'' fisher)
         \<longrightarrow> new_rule [] ''url'' (getFSHValue u n (sd_flatArray u fisher input) ''StructureDefinition'' fisher)
               \<in> set (fst (processStructureDefinition u input fisher config))))"
proof (intro conjI impI allI ballI)
  fix r
  assume "isStandardURL ''StructureDefinition'' config input"
    and "r \<in> set (fst (processStructureDefinition u input fisher config))"
  then show "caretPath r \<noteq> ''url''"
    using sd_rule_selected [of r u input fisher config] by (auto simp: sd_selected_def)
next
  fix r
  assume "isStandardURL (resourceType_name rt) config input"
    and "r \<in> set (fst (processResource u input fisher rt config))"
  then show "caretPath r \<noteq> ''url''"
    using resource_rule_selected [of r u input fisher rt config] by (auto simp: resource_selected_def)
next
  assume "obj_get input ''url'' = Some (JStr s) \<and> obj_get input ''id'' = Some (JStr i)"
  then show "isStandardURL resourceType config input = (s = canonical config @ ''/'' @ resourceType @ ''/'' @ i)"
    using isStandardURL_strings by blast
next
  fix n
  assume ns: "\<not> isStandardURL (resourceType_name rt) config input"
    and n: "n < length (resource_flatArray u rt input)"
    and k: "fst (resource_flatArray u rt input ! n) = ''url''
         \<and> \<not> isFSHValueEmpty u (getFSHValue u n (resource_flatArray u rt input) (resourceType_name rt) fisher)"
  from ns have "resource_selected rt config input ''url''" by (simp add: resource_selected_def)
  with resource_rule_emitted [OF n, of config fisher] k
  show "new_rule [] ''url'' (getFSHValue u n (resource_flatArray u rt input) (resourceType_name rt) fisher)
               \<in> set (fst (processResource u input fisher rt config))"
    by (simp add: resolved_empty_def)
next
  assume "(''url'', v) \<in> set (getPathValuePairs u input)"
  then show "(''url'', v) \<in> set (resource_flatArray u rt input)"
    using url_not_ignored [of rt] by (simp add: resource_flatArray_def)
next
  fix n
  assume ns: "\<not> isStandardURL ''StructureDefinition'' config input"
    and n: "n < length (sd_flatArray u fisher input)"
    and k: "fst (sd_flatArray u fisher input ! n) = ''url''
         \<and> differs (sd_flatArray u fisher input) (sd_flatParent u fisher input) ''url''
         \<and> \<not> isFSHValueEmpty u (getFSHValue u n (sd_flatArray u fisher input) ''StructureDefinition'' fisher)"
  from ns k have "sd_selected u fisher config input ''url''" by (simp add: sd_selected_def)
  with sd_rule_emitted [OF n, of config] k
  show "new_rule [] ''url'' (getFSHValue u n (sd_flatArray u fisher input) ''StructureDefinition'' fisher)
               \<in> set (fst (processStructureDefinition u input fisher config))"
    by (simp add: resolved_empty_def)
qed

lemma example_orphan_flat:
  "sd_flatArray example_utils (\<lambda>x. None) example_orphan = [(''url'', JStr ''https://example.org/other/my-profile'')]"
  "sd_flatParent example_utils (\<lambda>x. None) example_orphan = [(''url'', JStr ''https://example.org/other/my-profile'')]"
proof -
  have p: "prepared_sd example_orphan = [(''url'', JStr ''https://example.org/other/my-profile'')]"
    "prepared_parent (\<lambda>x. None) example_orphan = [(''url'', JStr ''https://example.org/other/my-profile'')]"
    by (simp_all add: prepared_sd_def prepared_parent_def example_orphan_def
      found_parent_def delete_all_def RESOURCE_IGNORED_PROPERTIES_def
      SD_CLEARED_PROPERTIES_def obj_delete_def text_generated_def obj_get_def)
  have r: "reconcile (prepared_sd example_orphan) (prepared_parent (\<lambda>x. None) example_orphan)
     = ([(''url'', JStr ''https://example.org/other/my-profile'')],
        [(''url'', JStr ''https://example.org/other/my-profile'')])"
    by (simp add: p reconcile_def reconcile_step_def obj_get_def)
  show "sd_flatArray example_utils (\<lambda>x. None) example_orphan = [(''url'', JStr ''https://example.org/other/my-profile'')]"
    "sd_flatParent example_utils (\<lambda>x. None) example_orphan = [(''url'', JStr ''https://example.org/other/my-profile'')]"
    by (simp_all add: sd_flatArray_def sd_flatParent_def r example_utils_def flatten_def)
qed

text \<open>
  C6, as stated, fails: the example profile has a url that is not the standard one and a
  parent that is not found, so it is compared with itself and no url rule is returned.
\<close>

theorem other_url_counterexample:
  "\<not> isStandardURL ''StructureDefinition'' example_config example_orphan
   \<and> sd_flatArray example_utils (\<lambda>x. None) example_orphan
       = [(''url'', JStr ''https://example.org/other/my-profile'')]
   \<and> \<not> isFSHValueEmpty example_utils (JStr ''https://example.org/other/my-profile'')
   \<and> fst (processStructureDefinition example_utils example_orphan (\<lambda>x. None) example_config) = []"
proof -
  have 1: "\<not> isStandardURL ''StructureDefinition'' example_config example_orphan"
    by (simp add: isStandardURL_def example_config_def example_orphan_def obj_get_def template_def)
  have 3: "\<not> isFSHValueEmpty example_utils (JStr ''https://example.org/other/my-profile'')"
    by (simp add: example_utils_def)
  have 4: "fst (processStructureDefinition example_utils example_orphan (\<lambda>x. None) example_config) = []"
    by (simp add: sd_rules_eq example_orphan_flat enumerate_eq_zip sd_selected_def differs_def
      nullish_def isEqual_def)
  from 1 3 4 example_orphan_flat(1) show ?thesis by blast
qed

lemma example_standard_flatArray:
  "resource_flatArray example_utils ValueSet example_standard_valueSet =
     [(''url'', JStr ''https://example.org/fhir/ValueSet/vs1''), (''status'', JStr ''active'')]"
  by (simp add: resource_flatArray_def example_utils_def flatten_def example_standard_valueSet_def)
     (simp add: ignored_def RESOURCE_IGNORED_PROPERTIES_def pattern_at_def match_tail_def atom_matches_def)

lemma example_other_flatArray:
  "resource_flatArray example_utils ValueSet example_other_valueSet =
     [(''url'', JStr ''https://example.org/other/vs1''), (''status'', JStr ''active'')]"
  by (simp add: resource_flatArray_def example_utils_def flatten_def example_other_valueSet_def)
     (simp add: ignored_def RESOURCE_IGNORED_PROPERTIES_def pattern_at_def match_tail_def atom_matches_def)

theorem standard_url_suppressed_witness:
  "isStandardURL (resourceType_name ValueSet) example_config example_standard_valueSet
   \<and> map caretPath (fst (processResource example_utils example_standard_valueSet (\<lambda>x. None) ValueSet example_config))
       = [''status'']
   \<and> \<not> isStandardURL (resourceType_name ValueSet) example_config example_other_valueSet
   \<and> resource_flatArray example_utils ValueSet example_other_valueSet ! 0 = (''url'', JStr ''https://example.org/other/vs1'')
   \<and> new_rule [] ''url'' (JStr ''https://example.org/other/vs1'')
       \<in> set (fst (processResource example_utils example_other_valueSet (\<lambda>x. None) ValueSet example_config))"
proof -
  have 1: "isStandardURL (resourceType_name ValueSet) example_config example_standard_valueSet"
    by (simp add: isStandardURL_def example_config_def example_standard_valueSet_def obj_get_def template_def)
  have 2: "map caretPath (fst (processResource example_utils example_standard_valueSet (\<lambda>x. None) ValueSet example_config))
       = [''status'']"
    using 1
    by (simp add: resource_rules_eq example_standard_flatArray enumerate_eq_zip resource_selected_def
        resolved_empty_def new_rule_def)
       (simp add: example_utils_def)
  have 3: "\<not> isStandardURL (resourceType_name ValueSet) example_config example_other_valueSet"
    by (simp add: isStandardURL_def example_config_def example_other_valueSet_def obj_get_def template_def)
  have 4: "resource_flatArray example_utils ValueSet example_other_valueSet ! 0 = (''url'', JStr ''https://example.org/other/vs1'')"
    and l: "0 < length (resource_flatArray example_utils ValueSet example_other_valueSet)"
    by (simp_all add: example_other_flatArray)
  have v: "getFSHValue example_utils 0 (resource_flatArray example_utils ValueSet example_other_valueSet)
        (resourceType_name ValueSet) (\<lambda>x. None) = JStr ''https://example.org/other/vs1''"
    and e: "\<not> isFSHValueEmpty example_utils (JStr ''https://example.org/other/vs1'')"
    by (simp_all add: example_utils_def example_other_flatArray [unfolded example_utils_def])
  from standard_url_suppressed [where rt = ValueSet and config = example_config
      and input = example_other_valueSet and u = example_utils and fisher = "\<lambda>x. None"] 3
  have "\<forall>n < length (resource_flatArray example_utils ValueSet example_other_valueSet).
         fst (resource_flatArray example_utils ValueSet example_other_valueSet ! n) = ''url''
         \<and> \<not> isFSHValueEmpty example_utils (getFSHValue example_utils n
               (resource_flatArray example_utils ValueSet example_other_valueSet) (resourceType_name ValueSet) (\<lambda>x. None))
         \<longrightarrow> new_rule [] ''url'' (getFSHValue example_utils n
               (resource_flatArray example_utils ValueSet example_other_valueSet) (resourceType_name ValueSet) (\<lambda>x. None))
               \<in> set (fst (processResource example_utils example_other_valueSet (\<lambda>x. None) ValueSet example_config))"
    by blast
  from this [rule_format, OF l] 4 v e
  have "new_rule [] ''url'' (JStr ''https://example.org/other/vs1'')
       \<in> set (fst (processResource example_utils example_other_valueSet (\<lambda>x. None) ValueSet example_config))"
    by simp
  with 1 2 3 4 show ?thesis by blast
qed


subsection \<open>The index of a constraint\<close>

lemma forEach_err_subset:
  "forEach_err body xs = Inr (rs, ls) \<Longrightarrow> x \<in> set xs \<Longrightarrow> body x = Inr (rs', ls') \<Longrightarrow>
   set rs' \<subseteq> set rs \<and> set ls' \<subseteq> set ls"
proof (induction xs arbitrary: rs ls)
  case Nil
  then show ?case by simp
next
  case (Cons y ys)
  from Cons.prems(1) obtain r1 l1 r2 l2 where
    b: "body y = Inr (r1, l1)" and t: "forEach_err body ys = Inr (r2, l2)" and
    rs: "rs = r1 @ r2" "ls = l1 @ l2"
    by (auto split: sum.splits prod.splits)
  show ?case
  proof (cases "x = y")
    case True
    with b Cons.prems(3) rs show ?thesis by auto
  next
    case False
    with Cons.prems(2) have "x \<in> set ys" by simp
    from Cons.IH [OF t this Cons.prems(3)] rs show ?thesis by auto
  qed
qed

lemma findIndex_from_first:
  assumes "m < length cs"
    and "\<And>j. j < m \<Longrightarrow> f (cs ! j) = Inr False"
    and "f (cs ! m) = Inr True"
  shows "findIndex_from k f cs = Inr (int (k + m))"
  using assms
proof (induction cs arbitrary: k m)
  case Nil
  then show ?case by simp
next
  case (Cons c cs)
  show ?case
  proof (cases m)
    case 0
    with Cons.prems(3) show ?thesis by simp
  next
    case (Suc m')
    from Cons.prems(2) [of 0] Suc have c: "f c = Inr False" by simp
    have "findIndex_from (Suc k) f cs = Inr (int (Suc k + m'))"
    proof (rule Cons.IH)
      show "m' < length cs" using Cons.prems(1) Suc by simp
      show "f (cs ! j) = Inr False" if "j < m'" for j
        using Cons.prems(2) [of "Suc j"] that Suc by simp
      show "f (cs ! m') = Inr True" using Cons.prems(3) Suc by simp
    qed
    with c Suc show ?thesis by simp
  qed
qed

lemma findIndex_from_none:
  "(\<And>c. c \<in> set cs \<Longrightarrow> f c = Inr False) \<Longrightarrow> findIndex_from k f cs = Inr (- 1)"
  by (induction cs arbitrary: k) simp_all

lemma show_int_nat: "show_int (int m) = show_nat m"
  by (simp add: show_int_def)

lemma matches_snapshot_strings:
  "map_of ms ''id'' = Some (JStr s) \<Longrightarrow>
   matches_snapshot (Some (JStr d)) (JObj ms) = Inr (s = d \<or> (0 < indexOf s ''[x]:'' \<and> elIdAltSyntax s = d))"
  by (auto simp: matches_snapshot_def obj_get_def)

lemma find_err_first:
  assumes "\<And>e. e \<in> set before \<Longrightarrow> f e = Inr False" and "f x = Inr True"
  shows "find_err f (before @ x # after) = Inr (Some x)"
  using assms by (induction before) simp_all

lemma show_nat_not_Nil: "show_nat n \<noteq> []"
  by (subst show_nat.simps) simp

lemma below_ten: "d < 10 \<Longrightarrow> d \<in> {0, 1, 2, 3, 4, 5, 6, 7, 8, 9::nat}"
  by auto

lemma digit_char_is_digit: "d < 10 \<Longrightarrow> is_digit (digit_char d)"
  by (drule below_ten) (auto simp: digit_char_def is_digit_def)

lemma digit_char_value: "d < 10 \<Longrightarrow> of_char (digit_char d) - 48 = d"
  by (drule below_ten) (auto simp: digit_char_def)

lemma show_nat_digits: "c \<in> set (show_nat n) \<Longrightarrow> is_digit c"
proof (induction n arbitrary: c rule: show_nat.induct)
  case (1 n)
  show ?case
  proof (cases "n < 10")
    case True
    with "1.prems" show ?thesis
      by (subst (asm) show_nat.simps) (simp add: digit_char_is_digit)
  next
    case False
    with "1.prems" have "c \<in> set (show_nat (n div 10)) \<or> c = digit_char (n mod 10)"
      by (subst (asm) show_nat.simps) auto
    with False "1.IH" show ?thesis by (auto simp: digit_char_is_digit)
  qed
qed

lemma parseInt_snoc: "parseInt (ds @ [c]) = 10 * parseInt ds + (of_char c - 48)"
  by (simp add: parseInt_def)

lemma parseInt_show_nat: "parseInt (show_nat n) = n"
proof (induction n rule: show_nat.induct)
  case (1 n)
  show ?case
  proof (cases "n < 10")
    case True
    then show ?thesis
      by (subst show_nat.simps) (simp add: parseInt_def digit_char_value)
  next
    case False
    with "1.IH" have "parseInt (show_nat (n div 10)) = n div 10" by simp
    with False show ?thesis
      by (subst show_nat.simps) (simp add: parseInt_snoc digit_char_value)
  qed
qed

lemma takeWhile_digits:
  "(\<And>c. c \<in> set ds \<Longrightarrow> is_digit c) \<Longrightarrow> takeWhile is_digit (ds @ '']'' @ rest) = ds"
  by (simp add: takeWhile_append2 is_digit_def)

lemma match_here_at:
  assumes "ds \<noteq> []" "\<And>c. c \<in> set ds \<Longrightarrow> is_digit c"
  shows "match_here w (w @ ''['' @ ds @ '']'' @ rest) = Some (w @ ''['' @ ds @ '']'', ds)"
  using assms takeWhile_digits [of ds rest] by (simp add: match_here_def)

lemma match_indexed_at:
  assumes "w \<noteq> []" "ds \<noteq> []" "\<And>c. c \<in> set ds \<Longrightarrow> is_digit c"
  shows "match_indexed w (w @ ''['' @ ds @ '']'' @ rest) = Some (w @ ''['' @ ds @ '']'', ds)"
proof -
  from assms(1) obtain c cs where "w @ ''['' @ ds @ '']'' @ rest = c # cs" by (cases w) auto
  with match_here_at [OF assms(2,3), of w rest] show ?thesis
    by (metis match_indexed.simps(2) option.simps(5))
qed

lemma replace_first_prefix: "pat \<noteq> [] \<Longrightarrow> replace_first pat rep (pat @ rest) = rep @ rest"
  by (cases pat) simp_all

lemma match_here_holds: "match_here w s = Some m \<Longrightarrow> \<exists>b. s = w @ ''['' @ b"
  by (auto simp: match_here_def prefix_def split: if_splits)

lemma match_indexed_holds: "match_indexed w s = Some m \<Longrightarrow> \<exists>a b. s = a @ w @ ''['' @ b"
proof (induction s)
  case Nil
  then show ?case by simp
next
  case (Cons c cs)
  show ?case
  proof (cases "match_here w (c # cs)")
    case None
    with Cons.prems have "match_indexed w cs = Some m" by simp
    from Cons.IH [OF this] obtain a b where "cs = a @ w @ ''['' @ b" by blast
    then have "c # cs = (c # a) @ w @ ''['' @ b" by simp
    then show ?thesis by blast
  next
    case (Some m')
    from match_here_holds [OF this] obtain b where "c # cs = [] @ w @ ''['' @ b" by auto
    then show ?thesis by blast
  qed
qed

lemma match_indexed_None: "\<not> (\<exists>a b. s = a @ w @ ''['' @ b) \<Longrightarrow> match_indexed w s = None"
  using match_indexed_holds [of w s] by (cases "match_indexed w s") auto

lemma occurrence_after:
  "x \<notin> set p \<Longrightarrow> p @ rest = a @ x # w \<Longrightarrow> \<exists>a'. rest = a' @ x # w"
proof (induction p arbitrary: a)
  case Nil
  then show ?case by auto
next
  case (Cons y ps)
  from Cons.prems obtain a0 where a: "a = y # a0" by (cases a) auto
  with Cons.prems have "ps @ rest = a0 @ x # w" "x \<notin> set ps" by auto
  from Cons.IH [OF this(2,1)] show ?case .
qed

lemma no_mapping_index:
  assumes "\<not> (\<exists>a b. rest = a @ ''mapping['' @ b)"
  shows "match_indexed ''mapping'' (''constraint['' @ show_nat i @ '']'' @ rest) = None"
proof (rule match_indexed_None, rule notI)
  assume "\<exists>a b. ''constraint['' @ show_nat i @ '']'' @ rest = a @ ''mapping'' @ ''['' @ b"
  then obtain a b where
    e: "(''constraint['' @ show_nat i @ '']'') @ rest = a @ CHR ''m'' # (''apping['' @ b)"
    by auto
  have "CHR ''m'' \<notin> set (''constraint['' @ show_nat i @ '']'')"
    using show_nat_digits [of "CHR ''m''" i] by (auto simp: is_digit_def)
  from occurrence_after [OF this e] obtain a' where "rest = a' @ ''mapping['' @ b" by auto
  with assms show False by blast
qed

lemma constraint_key_indexed:
  "match_indexed ''constraint'' (''constraint['' @ show_nat i @ '']'' @ rest)
     = Some (''constraint['' @ show_nat i @ '']'', show_nat i)"
proof -
  have "match_indexed ''constraint'' (''constraint'' @ ''['' @ show_nat i @ '']'' @ rest)
      = Some (''constraint'' @ ''['' @ show_nat i @ '']'', show_nat i)"
    by (rule match_indexed_at) (simp_all add: show_nat_not_Nil show_nat_digits)
  then show ?thesis by (simp only: append_Cons append_Nil)
qed

lemma constraint_key_replaced:
  "replace_first (''constraint['' @ show_nat i @ '']'') rep ((''constraint['' @ show_nat i @ '']'') @ rest)
     = rep @ rest"
  by (rule replace_first_prefix) simp

text \<open>
  C3, as amended: let a snapshot be present and let the first of its elements whose id
  matches the id of the differential element, directly or in the other syntax for choices,
  hold constraints, the first of which with the key of the differential constraint at index
  \<open>i\<close> stands at index \<open>m\<close>. Then the entry of a leaf with path \<open>constraint[i]...\<close>
  that holds no \<open>mapping[\<close> and whose resolved value is not empty gives, without
  exception, one rule, whose caret path is the leaf path with the index \<open>i\<close> rewritten to
  \<open>m\<close> and which carries no comment; no warning is logged; and the rule is among the rules
  of every result of \<open>process\<close>.
\<close>

theorem constraint_index_rewritten:
  assumes differential_id: "obj_get (elementJSON el) ''id'' = Some (JStr d)"
    and differential: "obj_get (elementJSON el) ''constraint'' = Some (JArr dcs)"
      "i < length dcs" "dcs ! i \<noteq> JNull"
    and snapshot: "snapshotElement sd = Some (before @ JObj sm # after)"
    and first_match: "\<forall>e \<in> set before. \<exists>ms s. e = JObj ms \<and> map_of ms ''id'' = Some (JStr s) \<and> \<not> id_matches d s"
    and matching: "map_of sm ''id'' = Some (JStr sid)" "id_matches d sid"
    and constraints: "map_of sm ''constraint'' = Some (JArr cs)"
    and entry: "n < length (remainingFlatElementArray u el)"
      "remainingFlatElementArray u el ! n = (''constraint['' @ show_nat i @ '']'' @ rest, v)"
    and no_mapping: "\<not> (\<exists>a b. rest = a @ ''mapping['' @ b)"
    and not_empty: "\<not> isFSHValueEmpty u (getFSHValue u n (remainingFlatElementArray u el) ''ElementDefinition'' fisher)"
    and first: "m < length cs"
      "\<forall>j < m. cs ! j \<noteq> JNull \<and> \<not> strict_eq (js_member ''key'' (cs ! j)) (js_member ''key'' (dcs ! i))"
    and same: "cs ! m \<noteq> JNull" "strict_eq (js_member ''key'' (cs ! m)) (js_member ''key'' (dcs ! i))"
  shows "process_entry u fisher sd (getPath u el) (elementJSON el) (remainingFlatElementArray u el)
           (n, ''constraint['' @ show_nat i @ '']'' @ rest, v)
       = Inr ([(new_rule (getPath u el) (''constraint['' @ show_nat i @ '']'' @ rest)
                  (getFSHValue u n (remainingFlatElementArray u el) ''ElementDefinition'' fisher))
                \<lparr>caretPath := ''constraint['' @ show_nat m @ '']'' @ rest\<rparr>], [])
     \<and> (\<forall>rs ls. process u el sd fisher = Inr (rs, ls) \<longrightarrow>
          (new_rule (getPath u el) (''constraint['' @ show_nat i @ '']'' @ rest)
             (getFSHValue u n (remainingFlatElementArray u el) ''ElementDefinition'' fisher))
            \<lparr>caretPath := ''constraint['' @ show_nat m @ '']'' @ rest\<rparr> \<in> set rs)
     \<and> fshComment ((new_rule (getPath u el) (''constraint['' @ show_nat i @ '']'' @ rest)
             (getFSHValue u n (remainingFlatElementArray u el) ''ElementDefinition'' fisher))
            \<lparr>caretPath := ''constraint['' @ show_nat m @ '']'' @ rest\<rparr>) = None"
proof -
  define key where "key = ''constraint['' @ show_nat i @ '']'' @ rest"
  define target where "target = ''constraint['' @ show_nat m @ '']'' @ rest"
  define matched where "matched = ''constraint['' @ show_nat i @ '']''"
  let ?rem = "remainingFlatElementArray u el"
  let ?val = "getFSHValue u n ?rem ''ElementDefinition'' fisher"
  let ?r = "(new_rule (getPath u el) key ?val)\<lparr>caretPath := target\<rparr>"
  let ?snap = "JObj sm"
  let ?dc = "dcs ! i"
  have indexed: "match_indexed ''constraint'' key = Some (matched, show_nat i)"
    unfolding key_def matched_def by (rule constraint_key_indexed)
  have no_map: "match_indexed ''mapping'' key = None"
    unfolding key_def using no_mapping by (rule no_mapping_index)
  have replaced: "replace_first matched (''constraint['' @ show_int (int m) @ '']'') key = target"
    unfolding key_def matched_def target_def show_int_nat
    using constraint_key_replaced [of i "''constraint['' @ show_nat m @ '']''" rest]
    by (simp only: append_assoc)
  have dc: "js_index (obj_get (elementJSON el) ''constraint'') (parseInt (show_nat i)) = Inr (Some ?dc)"
    using differential(1,2) by (simp add: parseInt_show_nat)
  have has: "has_snapshot sd" using snapshot by (simp add: has_snapshot_def)
  have "matches_snapshot (Some (JStr d)) e = Inr False" if "e \<in> set before" for e
    using first_match that matches_snapshot_strings [of _ _ d] by (fastforce simp: id_matches_def)
  moreover have "matches_snapshot (Some (JStr d)) ?snap = Inr True"
    using matching matches_snapshot_strings [of sm sid d] by (simp add: id_matches_def)
  ultimately have found: "findMatchingSnapshot (obj_get (elementJSON el) ''id'') sd = Inr (Some ?snap)"
    using find_err_first [of before "matches_snapshot (Some (JStr d))" ?snap after]
    by (simp add: findMatchingSnapshot_def snapshot differential_id)
  have constraints': "js_opt_prop ''constraint'' (Some ?snap) = Some (JArr cs)"
    using constraints by (simp add: obj_get_def)
  have key_of: "js_prop ''key'' (Some c) = Inr (js_member ''key'' c)" if "c \<noteq> JNull" for c
    using that by (cases c) simp_all
  have sk: "same_key (Some ?dc) (cs ! j) = Inr False" if "j < m" for j
    using first(2) that differential(3) by (simp add: same_key_def key_of)
  have sm: "same_key (Some ?dc) (cs ! m) = Inr True"
    using same differential(3) by (simp add: same_key_def key_of)
  have "findIndex_err (same_key (Some ?dc)) cs = Inr (int m)"
    unfolding findIndex_err_def
    using findIndex_from_first [where f = "same_key (Some ?dc)" and cs = cs and m = m and k = 0] first(1) sk sm
    by simp
  then have ni: "constraint_newIndex (elementJSON el) sd (show_nat i) = Inr (Some (int m))"
    using has found dc constraints' by (simp add: constraint_newIndex_def)
  have c: "fix_constraint (elementJSON el) sd (getPath u el) key (new_rule (getPath u el) key ?val) = Inr (?r, [])"
    by (simp only: fix_constraint_def indexed option.case prod.case ni sum.case replaced)
  have mp: "fix_mapping (elementJSON el) sd (getPath u el) key ?r = Inr (?r, [])"
    by (simp only: fix_mapping_def no_map option.case)
  have pe: "process_entry u fisher sd (getPath u el) (elementJSON el) ?rem (n, key, v) = Inr ([?r], [])"
    using not_empty by (simp only: process_entry_def Let_def prod.case if_False c mp sum.case append_Nil)
  have mem: "(n, key, v) \<in> set (enumerate 0 ?rem)"
    using entry by (simp add: in_set_enumerate_eq key_def)
  have all: "\<forall>rs ls. process u el sd fisher = Inr (rs, ls) \<longrightarrow> ?r \<in> set rs"
  proof (intro allI impI)
    fix rs ls
    assume "process u el sd fisher = Inr (rs, ls)"
    from forEach_err_subset [OF this [unfolded process_def] mem pe] show "?r \<in> set rs" by simp
  qed
  have no_comment: "fshComment ?r = None" by (simp add: new_rule_def)
  from pe all no_comment show ?thesis
    unfolding key_def target_def by (intro conjI)
qed

lemma example_remaining:
  "remainingFlatElementArray example_utils example_element =
     [(''constraint[0].key'', JStr ''ele-1''), (''constraint[0].severity'', JStr ''error'')]"
  by (simp add: remainingFlatElementArray_def claimed_paths_def example_utils_def example_element_def
      flatten_def show_nat_0)

lemma example_matches:
  "match_indexed ''constraint'' ''constraint[0].key'' = Some (''constraint[0]'', ''0'')"
  "match_indexed ''mapping'' ''constraint[0].key'' = None"
  "match_indexed ''constraint'' ''constraint[0].severity'' = Some (''constraint[0]'', ''0'')"
  "match_indexed ''mapping'' ''constraint[0].severity'' = None"
  by (simp_all add: match_here_def is_digit_def)

lemma example_id_matches:
  "id_matches ''Observation.valueQuantity'' ''Observation.value[x]:valueQuantity''"
  "\<not> id_matches ''Observation.valueQuantity'' ''Observation''"
  by (simp_all add: id_matches_def indexOf_def elIdAltSyntax_def alt_segment_def)

lemma show_nat_one: "show_nat 1 = ''1''"
  by (simp add: show_nat.simps digit_char_def)

lemma show_nat_two: "show_nat 2 = ''2''"
  by (simp add: show_nat.simps digit_char_def)

lemma example_indexed_remaining:
  "remainingFlatElementArray example_utils example_indexed_element =
     [(''constraint[0].key'', JStr ''obs-2''), (''constraint[1].key'', JStr ''ele-1''),
      (''constraint[1].severity'', JStr ''error'')]"
  by (simp add: remainingFlatElementArray_def claimed_paths_def example_utils_def example_indexed_element_def
      flatten_def show_nat_0 show_nat_one [simplified])

text \<open>
  The amended C3 at an example: the differential constraint at index \<open>1\<close> has the key
  \<open>ele-1\<close>, which the matching snapshot element, found in the other syntax for choices,
  holds at index \<open>2\<close>.
\<close>

theorem constraint_index_rewritten_witness:
  "obj_get (elementJSON example_indexed_element) ''id'' = Some (JStr ''Observation.valueQuantity'')
   \<and> obj_get (elementJSON example_indexed_element) ''constraint'' =
       Some (JArr [JObj [(''key'', JStr ''obs-2'')],
                   JObj [(''key'', JStr ''ele-1''), (''severity'', JStr ''error'')]])
   \<and> snapshotElement example_structDef =
       Some ([JObj [(''id'', JStr ''Observation'')]] @ example_snapshot_element # [])
   \<and> example_snapshot_element =
       JObj [(''id'', JStr ''Observation.value[x]:valueQuantity''),
             (''constraint'', JArr [JObj [(''key'', JStr ''obs-1'')], JObj [(''key'', JStr ''obs-2'')],
                                    JObj [(''key'', JStr ''ele-1'')]])]
   \<and> id_matches ''Observation.valueQuantity'' ''Observation.value[x]:valueQuantity''
   \<and> remainingFlatElementArray example_utils example_indexed_element ! 1 = (''constraint[1].key'', JStr ''ele-1'')
   \<and> process_entry example_utils (\<lambda>x. None) example_structDef (getPath example_utils example_indexed_element)
        (elementJSON example_indexed_element) (remainingFlatElementArray example_utils example_indexed_element)
        (1, ''constraint[1].key'', JStr ''ele-1'')
       = Inr ([\<lparr>path = ''Observation.value[x]'', caretPath = ''constraint[2].key'', value' = JStr ''ele-1'',
                 fshComment = None, isCodeCaretRule = False, pathArray = []\<rparr>], [])"
proof -
  let ?el = example_indexed_element
  let ?rem = "remainingFlatElementArray example_utils ?el"
  let ?cs = "[JObj [(''key'', JStr ''obs-1'')], JObj [(''key'', JStr ''obs-2'')], JObj [(''key'', JStr ''ele-1'')]]"
  let ?dcs = "[JObj [(''key'', JStr ''obs-2'')], JObj [(''key'', JStr ''ele-1''), (''severity'', JStr ''error'')]]"
  let ?sm = "[(''id'', JStr ''Observation.value[x]:valueQuantity''), (''constraint'', JArr ?cs)]"
  have id: "obj_get (elementJSON ?el) ''id'' = Some (JStr ''Observation.valueQuantity'')"
    by (simp add: example_indexed_element_def obj_get_def)
  have dcs: "obj_get (elementJSON ?el) ''constraint'' = Some (JArr ?dcs)"
    by (simp add: example_indexed_element_def obj_get_def)
  have i: "1 < length ?dcs" and dc: "?dcs ! 1 \<noteq> JNull" by simp_all
  have snap: "snapshotElement example_structDef = Some ([JObj [(''id'', JStr ''Observation'')]] @ JObj ?sm # [])"
    by (simp add: example_structDef_def example_snapshot_element_def)
  have others: "\<forall>e \<in> set [JObj [(''id'', JStr ''Observation'')]].
      \<exists>ms s. e = JObj ms \<and> map_of ms ''id'' = Some (JStr s) \<and> \<not> id_matches ''Observation.valueQuantity'' s"
    using example_id_matches(2) by simp
  have m1: "map_of ?sm ''id'' = Some (JStr ''Observation.value[x]:valueQuantity'')"
    and m2: "map_of ?sm ''constraint'' = Some (JArr ?cs)"
    by simp_all
  have n: "1 < length ?rem"
    by (simp add: example_indexed_remaining)
  have e: "?rem ! 1 = (''constraint[1].key'', JStr ''ele-1'')"
    by (simp add: example_indexed_remaining)
  have e': "?rem ! 1 = (''constraint['' @ show_nat 1 @ '']'' @ ''.key'', JStr ''ele-1'')"
    unfolding e show_nat_one by simp
  have nm: "\<not> (\<exists>a b. ''.key'' = a @ ''mapping['' @ b)"
  proof
    assume "\<exists>a b. ''.key'' = a @ ''mapping['' @ b"
    then obtain a b where "''.key'' = a @ ''mapping['' @ b" by blast
    then have "length ''.key'' = length (a @ ''mapping['' @ b)" by (rule arg_cong)
    then show False by simp
  qed
  have v: "getFSHValue example_utils 1 ?rem ''ElementDefinition'' (\<lambda>x. None) = JStr ''ele-1''"
    by (simp add: example_utils_def example_indexed_remaining [unfolded example_utils_def])
  have ne: "\<not> isFSHValueEmpty example_utils (getFSHValue example_utils 1 ?rem ''ElementDefinition'' (\<lambda>x. None))"
    unfolding v by (simp add: example_utils_def)
  have first: "\<forall>j < 2. ?cs ! j \<noteq> JNull \<and> \<not> strict_eq (js_member ''key'' (?cs ! j)) (js_member ''key'' (?dcs ! 1))"
  proof (intro allI impI)
    fix j :: nat
    assume "j < 2"
    then have "j = 0 \<or> j = 1" by auto
    then show "?cs ! j \<noteq> JNull \<and> \<not> strict_eq (js_member ''key'' (?cs ! j)) (js_member ''key'' (?dcs ! 1))"
      by (auto simp: obj_get_def)
  qed
  have m: "2 < length ?cs" and same: "?cs ! 2 \<noteq> JNull"
    "strict_eq (js_member ''key'' (?cs ! 2)) (js_member ''key'' (?dcs ! 1))"
    by (simp_all add: obj_get_def)
  have p: "getPath example_utils ?el = ''Observation.value[x]''"
    by (simp add: example_utils_def example_indexed_element_def obj_get_def template_def)
  from constraint_index_rewritten [where el = ?el and d = "''Observation.valueQuantity''"
      and dcs = ?dcs and i = 1
      and sd = example_structDef and before = "[JObj [(''id'', JStr ''Observation'')]]" and sm = ?sm
      and after = "[]" and sid = "''Observation.value[x]:valueQuantity''" and cs = ?cs and n = 1
      and u = example_utils and rest = "''.key''" and v = "JStr ''ele-1''"
      and fisher = "\<lambda>x. None" and m = 2,
      OF id dcs i dc snap others m1 example_id_matches(1) m2 n e' nm ne m first same]
  have "process_entry example_utils (\<lambda>x. None) example_structDef (getPath example_utils ?el)
        (elementJSON ?el) ?rem (1, ''constraint['' @ show_nat 1 @ '']'' @ ''.key'', JStr ''ele-1'')
       = Inr ([(new_rule (getPath example_utils ?el) (''constraint['' @ show_nat 1 @ '']'' @ ''.key'')
                  (getFSHValue example_utils 1 ?rem ''ElementDefinition'' (\<lambda>x. None)))
                \<lparr>caretPath := ''constraint['' @ show_nat 2 @ '']'' @ ''.key''\<rparr>], [])"
    by (rule conjunct1)
  then have "process_entry example_utils (\<lambda>x. None) example_structDef (getPath example_utils ?el)
        (elementJSON ?el) ?rem (1, ''constraint[1].key'', JStr ''ele-1'')
       = Inr ([\<lparr>path = ''Observation.value[x]'', caretPath = ''constraint[2].key'', value' = JStr ''ele-1'',
                 fshComment = None, isCodeCaretRule = False, pathArray = []\<rparr>], [])"
    unfolding v p show_nat_one show_nat_two by (simp add: new_rule_def)
  with id dcs snap example_id_matches(1) e show ?thesis
    by (simp add: example_snapshot_element_def)
qed

lemma shadowed_found:
  "findMatchingSnapshot (obj_get (elementJSON example_element) ''id'') example_shadowed_structDef =
     Inr (Some (JObj [(''id'', JStr ''Observation.value[x]:valueQuantity''),
                      (''constraint'', JArr [JObj [(''key'', JStr ''obs-1'')]])]))"
  by (simp add: findMatchingSnapshot_def example_shadowed_structDef_def example_element_def obj_get_def
      matches_snapshot_def indexOf_def elIdAltSyntax_def alt_segment_def)

lemma shadowed_newIndex:
  "constraint_newIndex (elementJSON example_element) example_shadowed_structDef ''0'' = Inr (Some (- 1))"
proof -
  have "has_snapshot example_shadowed_structDef"
    by (simp add: has_snapshot_def example_shadowed_structDef_def)
  moreover have "js_index (obj_get (elementJSON example_element) ''constraint'') (parseInt ''0'')
      = Inr (Some (JObj [(''key'', JStr ''ele-1''), (''severity'', JStr ''error'')]))"
    by (simp add: example_element_def obj_get_def parseInt_def)
  ultimately show ?thesis
    by (simp add: constraint_newIndex_def shadowed_found)
       (simp add: obj_get_def findIndex_err_def same_key_def)
qed

text \<open>
  C3, as stated, fails: the snapshot holds two elements whose ids match the id of the
  differential element, the first in the other syntax for choices and without the key
  \<open>ele-1\<close>, the second directly and with that key at index \<open>0\<close>. \<open>find\<close> returns the
  first, and the caret paths are rewritten to \<open>constraint[-1]\<close>, not to \<open>constraint[0]\<close>.
\<close>

theorem later_match_counterexample:
  "elementJSON example_element =
     [(''id'', JStr ''Observation.valueQuantity''),
      (''path'', JStr ''Observation.value[x]''),
      (''constraint'', JArr [JObj [(''key'', JStr ''ele-1''), (''severity'', JStr ''error'')]])]
   \<and> snapshotElement example_shadowed_structDef =
       Some [JObj [(''id'', JStr ''Observation.value[x]:valueQuantity''),
                   (''constraint'', JArr [JObj [(''key'', JStr ''obs-1'')]])],
             JObj [(''id'', JStr ''Observation.valueQuantity''),
                   (''constraint'', JArr [JObj [(''key'', JStr ''ele-1'')]])]]
   \<and> id_matches ''Observation.valueQuantity'' ''Observation.valueQuantity''
   \<and> process example_utils example_element example_shadowed_structDef (\<lambda>x. None) =
       Inr ([\<lparr>path = ''Observation.value[x]'', caretPath = ''constraint[-1].key'', value' = JStr ''ele-1'',
                fshComment = None, isCodeCaretRule = False, pathArray = []\<rparr>,
             \<lparr>path = ''Observation.value[x]'', caretPath = ''constraint[-1].severity'', value' = JStr ''error'',
                fshComment = None, isCodeCaretRule = False, pathArray = []\<rparr>], [])"
proof -
  have p: "getPath example_utils example_element = ''Observation.value[x]''"
    by (simp add: example_utils_def example_element_def obj_get_def template_def)
  have s: "show_int (- 1) = ''-1''"
    by (simp add: show_int_def show_nat.simps digit_char_def)
  have v: "getFSHValue example_utils i fa t f = snd (fa ! i)"
      "isFSHValueEmpty example_utils x = (x = JNull \<or> x = JArr [] \<or> x = JObj [])" for i fa t f x
    by (simp_all add: example_utils_def)
  have "process example_utils example_element example_shadowed_structDef (\<lambda>x. None) =
       Inr ([\<lparr>path = ''Observation.value[x]'', caretPath = ''constraint[-1].key'', value' = JStr ''ele-1'',
                fshComment = None, isCodeCaretRule = False, pathArray = []\<rparr>,
             \<lparr>path = ''Observation.value[x]'', caretPath = ''constraint[-1].severity'', value' = JStr ''error'',
                fshComment = None, isCodeCaretRule = False, pathArray = []\<rparr>], [])"
    by (simp add: process_def example_remaining enumerate_eq_zip process_entry_def Let_def v p
        fix_constraint_def fix_mapping_def example_matches shadowed_newIndex s new_rule_def
        del: match_indexed.simps)
  moreover have "id_matches ''Observation.valueQuantity'' ''Observation.valueQuantity''"
    by (simp add: id_matches_def)
  ultimately show ?thesis
    by (simp add: example_element_def example_shadowed_structDef_def)
qed

text \<open>Without a snapshot the index stays as it is, the rule carries the warning comment and
  the warnings are logged.\<close>

lemma no_snapshot_keeps_index:
  assumes "\<not> has_snapshot sd"
    and "match_indexed ''constraint'' key \<noteq> None \<or> match_indexed ''mapping'' key \<noteq> None"
    and "\<not> isFSHValueEmpty u (getFSHValue u n rem ''ElementDefinition'' fisher)"
  shows "\<exists>r ls. process_entry u fisher sd p inputJSON rem (n, key, v) = Inr ([r], ls)
           \<and> caretPath r = key \<and> fshComment r \<noteq> None \<and> ls \<noteq> [] \<and> (\<forall>l \<in> set ls. fst l = Warn)"
proof -
  have c: "constraint_newIndex inputJSON sd ds = Inr None" for ds
    using assms(1) by (simp add: constraint_newIndex_def)
  have m: "mapping_newIndex inputJSON sd ds = Inr None" for ds
    using assms(1) by (simp add: mapping_newIndex_def)
  show ?thesis
    using assms(2,3)
    by (auto simp: process_entry_def Let_def fix_constraint_def fix_mapping_def c m new_rule_def
        index_warning_def split: option.splits prod.splits)
qed

lemma stale_found:
  "findMatchingSnapshot (obj_get (elementJSON example_element) ''id'') example_stale_structDef =
     Inr (Some (JObj [(''id'', JStr ''Observation.valueQuantity''),
                      (''constraint'', JArr [JObj [(''key'', JStr ''obs-1'')]])]))"
  by (simp add: findMatchingSnapshot_def example_stale_structDef_def example_element_def obj_get_def
      matches_snapshot_def)

lemma stale_newIndex:
  "constraint_newIndex (elementJSON example_element) example_stale_structDef ''0'' = Inr (Some (- 1))"
proof -
  have "has_snapshot example_stale_structDef"
    by (simp add: has_snapshot_def example_stale_structDef_def)
  moreover have "js_index (obj_get (elementJSON example_element) ''constraint'') (parseInt ''0'')
      = Inr (Some (JObj [(''key'', JStr ''ele-1''), (''severity'', JStr ''error'')]))"
    by (simp add: example_element_def obj_get_def parseInt_def)
  ultimately show ?thesis
    by (simp add: constraint_newIndex_def stale_found)
       (simp add: obj_get_def findIndex_err_def same_key_def)
qed

text \<open>
  C1, at an input where it fails: the snapshot holds the element, with constraints, but none
  with the key \<open>ele-1\<close> of the differential constraint. \<open>findIndex\<close> gives \<open>-1\<close>, which is
  not \<open>null\<close>: the caret paths are rewritten to \<open>constraint[-1]\<close>, the rules carry no
  comment and nothing is logged.
\<close>

theorem unmatched_constraint_index:
  "process example_utils example_element example_stale_structDef (\<lambda>x. None) =
     Inr ([\<lparr>path = ''Observation.value[x]'', caretPath = ''constraint[-1].key'', value' = JStr ''ele-1'',
              fshComment = None, isCodeCaretRule = False, pathArray = []\<rparr>,
           \<lparr>path = ''Observation.value[x]'', caretPath = ''constraint[-1].severity'', value' = JStr ''error'',
              fshComment = None, isCodeCaretRule = False, pathArray = []\<rparr>], [])"
proof -
  have p: "getPath example_utils example_element = ''Observation.value[x]''"
    by (simp add: example_utils_def example_element_def obj_get_def template_def)
  have s: "show_int (- 1) = ''-1''"
    by (simp add: show_int_def show_nat.simps digit_char_def)
  have v: "getFSHValue example_utils i fa t f = snd (fa ! i)"
      "isFSHValueEmpty example_utils x = (x = JNull \<or> x = JArr [] \<or> x = JObj [])" for i fa t f x
    by (simp_all add: example_utils_def)
  show ?thesis
    by (simp add: process_def example_remaining enumerate_eq_zip process_entry_def Let_def v p
        fix_constraint_def fix_mapping_def example_matches stale_newIndex s new_rule_def
        del: match_indexed.simps)
qed


subsection \<open>Reconciliation of top-level arrays\<close>


lemma under_refl: "under k k"
  by (simp add: under_def)

lemma under_ext_dot: "under (k @ ''.'' @ r) p \<Longrightarrow> under k p"
  by (auto simp: under_def)

lemma under_ext_bracket: "under (k @ ''['' @ r) p \<Longrightarrow> under k p"
  by (auto simp: under_def)

lemma flat_under:
  "(p, v) \<in> set (flat_json q x) \<Longrightarrow> under q p"
  "(p, v) \<in> set (flat_items q n xs) \<Longrightarrow> under q p \<and> p \<noteq> q"
  "(p, v) \<in> set (flat_members q ms) \<Longrightarrow> under q p \<and> p \<noteq> q"
proof (induction q x and q n xs and q ms arbitrary: p v and p v and p v rule: flat_json_flat_items_flat_members.induct)
  case (1 p xs)
  then show ?case by (auto simp: under_refl split: if_splits)
next
  case (2 p ms)
  then show ?case by (auto simp: under_refl split: if_splits)
next
  case (8 q n x xs)
  from "8.prems" have "(p, v) \<in> set (flat_json (q @ ''['' @ show_nat n @ '']'') x) \<or> (p, v) \<in> set (flat_items q (Suc n) xs)"
    by simp
  then show ?case
  proof
    assume "(p, v) \<in> set (flat_json (q @ ''['' @ show_nat n @ '']'') x)"
    from "8.IH"(1) [OF this] have u: "under (q @ ''['' @ show_nat n @ '']'') p" .
    then have "under q p" by (rule under_ext_bracket)
    moreover from u have "p \<noteq> q" by (auto simp: under_def)
    ultimately show ?thesis by simp
  next
    assume "(p, v) \<in> set (flat_items q (Suc n) xs)"
    from "8.IH"(2) [OF this] show ?thesis .
  qed
next
  case (10 q m ms)
  from "10.prems" have "(p, v) \<in> set (flat_json (q @ ''.'' @ fst m) (snd m)) \<or> (p, v) \<in> set (flat_members q ms)"
    by simp
  then show ?case
  proof
    assume "(p, v) \<in> set (flat_json (q @ ''.'' @ fst m) (snd m))"
    from "10.IH"(1) [OF this] have u: "under (q @ ''.'' @ fst m) p" .
    then have "under q p" by (rule under_ext_dot)
    moreover from u have "p \<noteq> q" by (auto simp: under_def)
    ultimately show ?thesis by simp
  next
    assume "(p, v) \<in> set (flat_members q ms)"
    from "10.IH"(2) [OF this] show ?thesis .
  qed
qed (auto simp: under_refl)

lemma under_not_plain: "under k p \<Longrightarrow> p \<noteq> k \<Longrightarrow> \<not> plain p"
proof -
  assume "under k p" and "p \<noteq> k"
  then obtain r where p: "p = k @ r" and r: "r \<noteq> []" "hd r = CHR ''.'' \<or> hd r = CHR ''[''"
    by (auto simp: under_def)
  from r have "hd r \<in> set r" by simp
  with p r(2) show "\<not> plain p" by (auto simp: plain_def)
qed

lemma under_plain_unique:
  assumes "plain k" "plain k'" "under k p" "under k' p"
  shows "k = k'"
proof (rule ccontr)
  assume ne: "k \<noteq> k'"
  from assms(3) obtain r where p: "p = k @ r" and r: "r = [] \<or> hd r = CHR ''.'' \<or> hd r = CHR ''[''"
    by (auto simp: under_def)
  from assms(4) obtain r' where p': "p = k' @ r'" and r': "r' = [] \<or> hd r' = CHR ''.'' \<or> hd r' = CHR ''[''"
    by (auto simp: under_def)
  from p p' have "k @ r = k' @ r'" by simp
  then obtain us where "(k = k' @ us \<and> us @ r = r') \<or> (k @ us = k' \<and> r = us @ r')"
    by (auto simp: append_eq_append_conv2)
  then show False
  proof
    assume a: "k = k' @ us \<and> us @ r = r'"
    with ne have us: "us \<noteq> []" by auto
    with a have "r' \<noteq> []" "hd r' = hd us" by auto
    with r' have "hd us = CHR ''.'' \<or> hd us = CHR ''[''" by simp
    moreover from us a have "hd us \<in> set k" by simp
    ultimately show False using assms(1) by (auto simp: plain_def)
  next
    assume a: "k @ us = k' \<and> r = us @ r'"
    with ne have us: "us \<noteq> []" by auto
    with a have "r \<noteq> []" "hd r = hd us" by auto
    with r have "hd us = CHR ''.'' \<or> hd us = CHR ''[''" by simp
    moreover from us a have "hd us \<in> set k'" by auto
    ultimately show False using assms(2) by (auto simp: plain_def)
  qed
qed

lemma pairs_Cons:
  "by_member u \<Longrightarrow> getPathValuePairs u ((k, x) # ob) = member_leaves u k x @ getPathValuePairs u ob"
proof -
  assume "by_member u"
  then have c: "getPathValuePairs u ob' = concat (map (\<lambda>(k, x). member_leaves u k x) ob')" for ob'
    by (simp add: by_member_def)
  show ?thesis by (simp add: c [of "(k, x) # ob"] c [of ob])
qed

lemma pairs_mem:
  "by_member u \<Longrightarrow> (p, v) \<in> set (getPathValuePairs u ob) \<Longrightarrow>
   \<exists>k x. (k, x) \<in> set ob \<and> (p, v) \<in> set (member_leaves u k x)"
proof (induction ob)
  case Nil
  then have "getPathValuePairs u [] = []" by (simp add: by_member_def)
  with Nil show ?case by simp
next
  case (Cons a ob)
  then show ?case by (cases a) (auto simp: pairs_Cons)
qed

lemma pairs_subset:
  "by_member u \<Longrightarrow> (k, x) \<in> set ob \<Longrightarrow> set (member_leaves u k x) \<subseteq> set (getPathValuePairs u ob)"
proof (induction ob)
  case Nil
  then show ?case by simp
next
  case (Cons a ob)
  then show ?case by (cases a) (auto simp: pairs_Cons)
qed

lemma member_under: "by_member u \<Longrightarrow> (p, v) \<in> set (member_leaves u k x) \<Longrightarrow> under k p"
  unfolding by_member_def by blast

lemma pairs_not_under:
  assumes "by_member u" "list_all plain (map fst ob)" "plain k" "k \<notin> fst ` set ob" "under k p"
  shows "p \<notin> fst ` set (getPathValuePairs u ob)"
proof
  assume "p \<in> fst ` set (getPathValuePairs u ob)"
  then obtain v where "(p, v) \<in> set (getPathValuePairs u ob)" by auto
  from pairs_mem [OF assms(1) this] obtain k' x
    where m: "(k', x) \<in> set ob" and l: "(p, v) \<in> set (member_leaves u k' x)"
    by blast
  from assms(1) l have "under k' p" by (rule member_under)
  moreover from m assms(2) have "plain k'" by (force simp: list_all_iff)
  ultimately have "k = k'" using assms(3,5) under_plain_unique by blast
  with m assms(4) show False by force
qed

lemma map_of_pairs_under:
  assumes "by_member u" "plain_object ob" "map_of ob k = Some x" "under k p"
  shows "map_of (getPathValuePairs u ob) p = map_of (member_leaves u k x) p"
  using assms(2-)
proof (induction ob)
  case Nil
  then show ?case by simp
next
  case (Cons a ob)
  obtain k' x' where a: "a = (k', x')" by (cases a)
  from Cons.prems(1) have d: "distinct (map fst ob)" "k' \<notin> fst ` set ob"
    and pl: "plain k'" "list_all plain (map fst ob)"
    by (auto simp: plain_object_def a)
  show ?case
  proof (cases "k' = k")
    case True
    with Cons.prems(2) have x: "x' = x" by (simp add: a)
    from pl True have "plain k" by simp
    from pairs_not_under [OF assms(1) pl(2) this _ Cons.prems(3)] d(2) True
    have "p \<notin> fst ` set (getPathValuePairs u ob)" by simp
    then have "map_of (getPathValuePairs u ob) p = None" by (simp add: map_of_eq_None_iff)
    then show ?thesis
      by (simp add: a True x pairs_Cons [OF assms(1)] map_add_def split: option.splits)
  next
    case False
    with Cons.prems(2) have m: "map_of ob k = Some x" by (simp add: a)
    then have "k \<in> fst ` set ob" by (force dest: map_of_SomeD)
    with pl(2) have "plain k" by (force simp: list_all_iff)
    have "p \<notin> fst ` set (member_leaves u k' x')"
    proof
      assume "p \<in> fst ` set (member_leaves u k' x')"
      then obtain v where "(p, v) \<in> set (member_leaves u k' x')" by auto
      with assms(1) have "under k' p" by (rule member_under)
      with \<open>plain k\<close> pl(1) Cons.prems(3) have "k = k'" using under_plain_unique by blast
      with False show False by simp
    qed
    then have "map_of (member_leaves u k' x') p = None" by (simp add: map_of_eq_None_iff)
    moreover have "map_of (getPathValuePairs u ob) p = map_of (member_leaves u k x) p"
      using Cons.IH d pl(2) m Cons.prems(3) by (simp add: plain_object_def)
    ultimately show ?thesis by (simp add: a pairs_Cons [OF assms(1)] map_add_def)
  qed
qed

text \<open>The flattening of the examples works member by member.\<close>

lemma flatten_by_member: "getPathValuePairs u = flatten \<Longrightarrow> by_member u"
proof -
  assume f: "getPathValuePairs u = flatten"
  have m: "member_leaves u k x = flat_json k x" for k x
    by (simp add: member_leaves_def f flatten_def)
  have "getPathValuePairs u ob = concat (map (\<lambda>(k, x). member_leaves u k x) ob)" for ob
    by (simp add: f flatten_def m)
  moreover have "under k p" if "(p, v) \<in> set (member_leaves u k x)" for k x p v
    using that flat_under(1) [of p v k x] by (simp add: m)
  moreover have "p \<noteq> k" if "items \<noteq> []" "(p, v) \<in> set (member_leaves u k (JArr items))" for k items p v
    using that flat_under(2) [of p v k 0 items] by (simp add: m)
  ultimately show ?thesis unfolding by_member_def by blast
qed

lemma obj_get_delete: "obj_get (obj_delete k ob) k' = (if k' = k then None else obj_get ob k')"
  by (induction ob) (auto simp: obj_get_def obj_delete_def)

lemma reconcile_step_eq:
  "reconcile_step (sd, parent) k =
     (if inherited sd parent k then obj_delete k sd else sd,
      if overridden sd parent k then obj_delete k parent else parent)"
  by (auto simp: reconcile_step_def inherited_def overridden_def split: option.splits json.splits)

lemma inherited_cong:
  "obj_get sd' k = obj_get sd k \<Longrightarrow> obj_get parent' k = obj_get parent k \<Longrightarrow>
   inherited sd' parent' k = inherited sd parent k"
  by (simp add: inherited_def split: option.splits json.splits)

lemma overridden_cong:
  "obj_get sd' k = obj_get sd k \<Longrightarrow> obj_get parent' k = obj_get parent k \<Longrightarrow>
   overridden sd' parent' k = overridden sd parent k"
  by (simp add: overridden_def split: option.splits json.splits)

lemma foldl_reconcile_step:
  "distinct ks \<Longrightarrow>
   foldl reconcile_step (sd, parent) ks =
     (filter (\<lambda>m. \<not> (fst m \<in> set ks \<and> inherited sd parent (fst m))) sd,
      filter (\<lambda>m. \<not> (fst m \<in> set ks \<and> overridden sd parent (fst m))) parent)"
proof (induction ks arbitrary: sd parent)
  case Nil
  show ?case by simp
next
  case (Cons k ks)
  let ?sd = "if inherited sd parent k then obj_delete k sd else sd"
  let ?parent = "if overridden sd parent k then obj_delete k parent else parent"
  from Cons.prems have d: "distinct ks" and nk: "k \<notin> set ks" by simp_all
  have get: "obj_get ?sd k' = obj_get sd k'" "obj_get ?parent k' = obj_get parent k'" if "k' \<noteq> k" for k'
    using that by (simp_all add: obj_get_delete)
  have inh: "inherited ?sd ?parent k' = inherited sd parent k'" if "k' \<in> set ks" for k'
  proof -
    from that nk have "k' \<noteq> k" by auto
    from get(1) [OF this] get(2) [OF this] show ?thesis by (rule inherited_cong)
  qed
  have ovr: "overridden ?sd ?parent k' = overridden sd parent k'" if "k' \<in> set ks" for k'
  proof -
    from that nk have "k' \<noteq> k" by auto
    from get(1) [OF this] get(2) [OF this] show ?thesis by (rule overridden_cong)
  qed
  have sd_eq: "?sd = filter (\<lambda>m. \<not> (fst m = k \<and> inherited sd parent k)) sd"
    by (simp add: obj_delete_def)
  have parent_eq: "?parent = filter (\<lambda>m. \<not> (fst m = k \<and> overridden sd parent k)) parent"
    by (simp add: obj_delete_def)
  have 1: "filter (\<lambda>m. \<not> (fst m \<in> set ks \<and> inherited ?sd ?parent (fst m))) ?sd
      = filter (\<lambda>m. \<not> (fst m \<in> set (k # ks) \<and> inherited sd parent (fst m))) sd"
  proof -
    have "filter (\<lambda>m. \<not> (fst m \<in> set ks \<and> inherited ?sd ?parent (fst m))) ?sd
        = filter (\<lambda>m. \<not> (fst m \<in> set ks \<and> inherited sd parent (fst m))) ?sd"
      by (rule filter_cong [OF refl]) (auto simp: inh)
    also have "\<dots> = filter (\<lambda>m. \<not> (fst m \<in> set ks \<and> inherited sd parent (fst m)))
        (filter (\<lambda>m. \<not> (fst m = k \<and> inherited sd parent k)) sd)"
      using sd_eq by (rule arg_cong)
    also have "\<dots> = filter (\<lambda>m. \<not> (fst m \<in> set (k # ks) \<and> inherited sd parent (fst m))) sd"
      unfolding filter_filter by (rule filter_cong [OF refl]) (use nk in auto)
    finally show ?thesis .
  qed
  have 2: "filter (\<lambda>m. \<not> (fst m \<in> set ks \<and> overridden ?sd ?parent (fst m))) ?parent
      = filter (\<lambda>m. \<not> (fst m \<in> set (k # ks) \<and> overridden sd parent (fst m))) parent"
  proof -
    have "filter (\<lambda>m. \<not> (fst m \<in> set ks \<and> overridden ?sd ?parent (fst m))) ?parent
        = filter (\<lambda>m. \<not> (fst m \<in> set ks \<and> overridden sd parent (fst m))) ?parent"
      by (rule filter_cong [OF refl]) (auto simp: ovr)
    also have "\<dots> = filter (\<lambda>m. \<not> (fst m \<in> set ks \<and> overridden sd parent (fst m)))
        (filter (\<lambda>m. \<not> (fst m = k \<and> overridden sd parent k)) parent)"
      using parent_eq by (rule arg_cong)
    also have "\<dots> = filter (\<lambda>m. \<not> (fst m \<in> set (k # ks) \<and> overridden sd parent (fst m))) parent"
      unfolding filter_filter by (rule filter_cong [OF refl]) (use nk in auto)
    finally show ?thesis .
  qed
  have "foldl reconcile_step (sd, parent) (k # ks) = foldl reconcile_step (?sd, ?parent) ks"
    by (simp add: reconcile_step_eq)
  also have "\<dots> = (filter (\<lambda>m. \<not> (fst m \<in> set ks \<and> inherited ?sd ?parent (fst m))) ?sd,
      filter (\<lambda>m. \<not> (fst m \<in> set ks \<and> overridden ?sd ?parent (fst m))) ?parent)"
    by (rule Cons.IH [OF d])
  finally show ?case unfolding 1 2 .
qed

lemma overridden_key: "overridden sd parent k \<Longrightarrow> k \<in> fst ` set sd"
  by (auto simp: overridden_def obj_get_def split: option.splits json.splits dest!: map_of_SomeD intro: rev_image_eqI)

lemma reconcile_eq:
  assumes "distinct (map fst sd)"
  shows "reconcile sd parent =
     (filter (\<lambda>m. \<not> inherited sd parent (fst m)) sd,
      filter (\<lambda>m. \<not> overridden sd parent (fst m)) parent)"
proof -
  have "filter (\<lambda>m. \<not> (fst m \<in> set (map fst sd) \<and> inherited sd parent (fst m))) sd
      = filter (\<lambda>m. \<not> inherited sd parent (fst m)) sd"
    by (rule filter_cong) auto
  moreover have "filter (\<lambda>m. \<not> (fst m \<in> set (map fst sd) \<and> overridden sd parent (fst m))) parent
      = filter (\<lambda>m. \<not> overridden sd parent (fst m)) parent"
    using overridden_key [of sd parent] by (intro filter_cong) auto
  ultimately show ?thesis
    unfolding reconcile_def using foldl_reconcile_step [OF assms, of sd parent] by simp
qed

lemma plain_object_filter: "plain_object ob \<Longrightarrow> plain_object (filter P ob)"
  by (auto simp: plain_object_def distinct_map_filter list_all_iff)

lemma plain_object_delete: "plain_object ob \<Longrightarrow> plain_object (obj_delete k ob)"
  unfolding obj_delete_def by (rule plain_object_filter)

lemma plain_object_delete_all: "plain_object ob \<Longrightarrow> plain_object (delete_all ks ob)"
  unfolding delete_all_def by (induction ks arbitrary: ob) (simp_all add: plain_object_delete)

lemma plain_object_prepared_sd: "plain_object input \<Longrightarrow> plain_object (prepared_sd input)"
  by (simp add: prepared_sd_def Let_def plain_object_delete_all plain_object_delete)

lemma plain_object_prepared_parent:
  "plain_object (compared_parent fisher input) \<Longrightarrow> plain_object (prepared_parent fisher input)"
  by (simp add: prepared_parent_def compared_parent_def Let_def plain_object_delete_all plain_object_delete)

lemma obj_get_filter_key:
  "obj_get (filter (\<lambda>m. Q (fst m)) ob) k = (if Q k then obj_get ob k else None)"
  by (induction ob) (auto simp: obj_get_def)

lemma keys_filter_key: "\<not> Q k \<Longrightarrow> k \<notin> fst ` set (filter (\<lambda>m. Q (fst m)) ob)"
  by auto

lemma obj_get_mem: "obj_get ob k = Some x \<Longrightarrow> (k, x) \<in> set ob"
  by (simp add: obj_get_def map_of_SomeD)

lemma plain_object_key: "plain_object ob \<Longrightarrow> (k, x) \<in> set ob \<Longrightarrow> plain k"
  by (force simp: plain_object_def list_all_iff)

lemma array_leaf_not_plain:
  assumes "by_member u" "items \<noteq> []" "(p, v) \<in> set (member_leaves u k (JArr items))"
  shows "under k p \<and> \<not> plain p"
proof -
  from assms(1,3) have "under k p" by (rule member_under)
  moreover from assms have "p \<noteq> k" unfolding by_member_def by blast
  ultimately show ?thesis using under_not_plain [of k p] by simp
qed

lemma sd_caretPaths:
  "r \<in> set (fst (processStructureDefinition u input fisher config)) \<Longrightarrow>
   caretPath r \<in> fst ` set (sd_flatArray u fisher input)"
  unfolding processStructureDefinition_eq fst_conv
  by (erule caretPath_forEach) (auto simp: sd_entry_cases new_rule_def split: if_splits)

text \<open>
  C4, as amended. The resource copy is the resource without the properties that other
  extractors cover and without a generated text; the parent copy is the parent found (the
  resource itself when none is found) without those properties and without the properties
  the compiler clears. The flattener works member by member, and the member names of
  resource and parent are distinct and free of \<open>.\<close> and \<open>[\<close>. For a non-empty top-level
  array property \<open>k\<close> of the resource copy: when every item is deeply equal to an item of
  the parent copy's array, \<open>processStructureDefinition\<close> returns no rule for a leaf under
  \<open>k\<close>; when some item is new, every leaf of the array is in the flattened resource copy,
  and if \<open>k\<close> is \<open>extension\<close> or \<open>modifierExtension\<close> each of these leaves whose resolved
  value is not empty gives a rule, whereas for any other \<open>k\<close> the rules under \<open>k\<close> are
  those of the leaves that the parent copy's array lacks, holds as \<open>null\<close> or holds with
  another value at the same path, and whose resolved value is not empty.
\<close>

theorem array_reconciliation:
  assumes flat: "by_member u"
    and objects: "plain_object input" "plain_object (compared_parent fisher input)"
    and array: "obj_get (prepared_sd input) k = Some (JArr items)" "items \<noteq> []"
  shows "(\<not> hasNewItems items (obj_get (prepared_parent fisher input) k) \<longrightarrow>
           (\<forall>r \<in> set (fst (processStructureDefinition u input fisher config)).
              caretPath r \<notin> fst ` set (member_leaves u k (JArr items))))
       \<and> (hasNewItems items (obj_get (prepared_parent fisher input) k) \<longrightarrow>
           set (member_leaves u k (JArr items)) \<subseteq> set (sd_flatArray u fisher input))
       \<and> (hasNewItems items (obj_get (prepared_parent fisher input) k)
            \<and> (k = ''extension'' \<or> k = ''modifierExtension'') \<longrightarrow>
           (\<forall>n < length (sd_flatArray u fisher input).
              sd_flatArray u fisher input ! n \<in> set (member_leaves u k (JArr items))
              \<and> \<not> isFSHValueEmpty u (getFSHValue u n (sd_flatArray u fisher input) ''StructureDefinition'' fisher)
              \<longrightarrow> new_rule [] (fst (sd_flatArray u fisher input ! n))
                     (getFSHValue u n (sd_flatArray u fisher input) ''StructureDefinition'' fisher)
                   \<in> set (fst (processStructureDefinition u input fisher config))))
       \<and> (hasNewItems items (obj_get (prepared_parent fisher input) k)
            \<and> k \<noteq> ''extension'' \<and> k \<noteq> ''modifierExtension'' \<longrightarrow>
           (\<forall>n < length (sd_flatArray u fisher input).
              sd_flatArray u fisher input ! n \<in> set (member_leaves u k (JArr items))
              \<and> leaf_changed (member_leaves u k (JArr items)) (parent_leaves u (prepared_parent fisher input) k)
                   (fst (sd_flatArray u fisher input ! n))
              \<and> \<not> isFSHValueEmpty u (getFSHValue u n (sd_flatArray u fisher input) ''StructureDefinition'' fisher)
              \<longrightarrow> new_rule [] (fst (sd_flatArray u fisher input ! n))
                     (getFSHValue u n (sd_flatArray u fisher input) ''StructureDefinition'' fisher)
                   \<in> set (fst (processStructureDefinition u input fisher config)))
           \<and> (\<forall>r \<in> set (fst (processStructureDefinition u input fisher config)).
                caretPath r \<in> fst ` set (member_leaves u k (JArr items)) \<longrightarrow>
                leaf_changed (member_leaves u k (JArr items)) (parent_leaves u (prepared_parent fisher input) k)
                  (caretPath r)))"
proof -
  let ?sd0 = "prepared_sd input"
  let ?p0 = "prepared_parent fisher input"
  let ?sd1 = "filter (\<lambda>m. \<not> inherited ?sd0 ?p0 (fst m)) ?sd0"
  let ?p1 = "filter (\<lambda>m. \<not> overridden ?sd0 ?p0 (fst m)) ?p0"
  let ?L = "member_leaves u k (JArr items)"
  let ?PL = "parent_leaves u ?p0 k"
  let ?fa = "sd_flatArray u fisher input"
  let ?fp = "sd_flatParent u fisher input"
  let ?new = "hasNewItems items (obj_get ?p0 k)"
  let ?rules = "fst (processStructureDefinition u input fisher config)"
  have po_sd0: "plain_object ?sd0" using objects(1) by (rule plain_object_prepared_sd)
  have po_p0: "plain_object ?p0" using objects(2) by (rule plain_object_prepared_parent)
  have po_sd1: "plain_object ?sd1" using po_sd0 by (rule plain_object_filter)
  have po_p1: "plain_object ?p1" using po_p0 by (rule plain_object_filter)
  have rec: "reconcile ?sd0 ?p0 = (?sd1, ?p1)"
    using po_sd0 by (intro reconcile_eq) (simp add: plain_object_def)
  have fa: "?fa = getPathValuePairs u ?sd1" and fp: "?fp = getPathValuePairs u ?p1"
    by (simp_all add: sd_flatArray_def sd_flatParent_def rec)
  have k: "plain k" using po_sd0 obj_get_mem [OF array(1)] by (rule plain_object_key)
  have inh: "inherited ?sd0 ?p0 k = (\<not> ?new)"
    using array by (simp add: inherited_def)
  have ovr: "overridden ?sd0 ?p0 k = (?new \<and> (k = ''extension'' \<or> k = ''modifierExtension''))"
    using array by (simp add: overridden_def)
  have leaf: "under k p \<and> \<not> plain p" if "p \<in> fst ` set ?L" for p
    using that array_leaf_not_plain [OF flat array(2), of p _ k] by auto
  have not_special: "p \<noteq> ''url'' \<and> p \<noteq> ''status''" if "p \<in> fst ` set ?L" for p
    using leaf [OF that] by (auto simp: plain_def)
  have sd1_k: "obj_get ?sd1 k = Some (JArr items)" if "?new"
    using that inh array(1) by (simp add: obj_get_filter_key [where Q = "\<lambda>k. \<not> inherited ?sd0 ?p0 k"])
  have kept: "set ?L \<subseteq> set ?fa" if "?new"
    unfolding fa using obj_get_mem [OF sd1_k [OF that]] by (rule pairs_subset [OF flat])
  have fa_leaf: "map_of ?fa p = map_of ?L p" if "?new" "p \<in> fst ` set ?L" for p
    unfolding fa using po_sd1 sd1_k [OF that(1), unfolded obj_get_def] leaf [OF that(2)]
    by (intro map_of_pairs_under [OF flat]) auto
  have a: "\<forall>r \<in> set ?rules. caretPath r \<notin> fst ` set ?L" if "\<not> ?new"
  proof
    fix r assume "r \<in> set ?rules"
    then have in_fa: "caretPath r \<in> fst ` set (getPathValuePairs u ?sd1)"
      using sd_caretPaths [of r u input fisher config] by (simp add: fa)
    have "k \<notin> fst ` set ?sd1"
      using that inh by (intro keys_filter_key [where Q = "\<lambda>k. \<not> inherited ?sd0 ?p0 k"]) simp
    moreover have "list_all plain (map fst ?sd1)" using po_sd1 by (simp add: plain_object_def)
    ultimately have "p \<notin> fst ` set (getPathValuePairs u ?sd1)" if "under k p" for p
      using pairs_not_under [OF flat _ k _ that] by blast
    with in_fa leaf show "caretPath r \<notin> fst ` set ?L" by blast
  qed
  have b: "\<forall>n < length ?fa. ?fa ! n \<in> set ?L
              \<and> \<not> isFSHValueEmpty u (getFSHValue u n ?fa ''StructureDefinition'' fisher)
              \<longrightarrow> new_rule [] (fst (?fa ! n)) (getFSHValue u n ?fa ''StructureDefinition'' fisher) \<in> set ?rules"
    if new: "?new" and ext: "k = ''extension'' \<or> k = ''modifierExtension''"
  proof (intro allI impI)
    fix n assume n: "n < length ?fa"
      and h: "?fa ! n \<in> set ?L \<and> \<not> isFSHValueEmpty u (getFSHValue u n ?fa ''StructureDefinition'' fisher)"
    then have p: "fst (?fa ! n) \<in> fst ` set ?L" by auto
    have "k \<notin> fst ` set ?p1"
      using new ext ovr by (intro keys_filter_key [where Q = "\<lambda>k. \<not> overridden ?sd0 ?p0 k"]) simp
    moreover have "list_all plain (map fst ?p1)" using po_p1 by (simp add: plain_object_def)
    ultimately have "fst (?fa ! n) \<notin> fst ` set (getPathValuePairs u ?p1)"
      using pairs_not_under [OF flat _ k _ conjunct1 [OF leaf [OF p]]] by blast
    then have "map_of ?fp (fst (?fa ! n)) = None" by (simp add: fp map_of_eq_None_iff)
    then have "sd_selected u fisher config input (fst (?fa ! n))"
      using not_special [OF p] by (simp add: sd_selected_def differs_def nullish_def)
    from sd_rule_emitted [OF n this] h
    show "new_rule [] (fst (?fa ! n)) (getFSHValue u n ?fa ''StructureDefinition'' fisher) \<in> set ?rules"
      by (simp add: resolved_empty_def)
  qed
  have fp_leaf: "map_of ?fp p = map_of ?PL p"
    if new: "?new" and ext: "k \<noteq> ''extension'' \<and> k \<noteq> ''modifierExtension''" and p: "p \<in> fst ` set ?L" for p
  proof -
    have get: "obj_get ?p1 k = obj_get ?p0 k"
      using ext ovr by (simp add: obj_get_filter_key [where Q = "\<lambda>k. \<not> overridden ?sd0 ?p0 k"])
    show ?thesis
    proof (cases "obj_get ?p0 k")
      case None
      with get have "map_of ?p1 k = None" by (simp add: obj_get_def)
      then have "k \<notin> fst ` set ?p1" by (rule iffD1 [OF map_of_eq_None_iff])
      moreover have "list_all plain (map fst ?p1)" using po_p1 by (simp add: plain_object_def)
      ultimately have "p \<notin> fst ` set (getPathValuePairs u ?p1)"
        using pairs_not_under [OF flat _ k _ conjunct1 [OF leaf [OF p]]] by blast
      then show ?thesis using None by (simp add: fp parent_leaves_def map_of_eq_None_iff)
    next
      case (Some pv)
      with get have "map_of ?p1 k = Some pv" by (simp add: obj_get_def)
      from map_of_pairs_under [OF flat po_p1 this conjunct1 [OF leaf [OF p]]] Some
      show ?thesis by (simp add: fp parent_leaves_def)
    qed
  qed
  have sel: "sd_selected u fisher config input p = leaf_changed ?L ?PL p"
    if "?new" "k \<noteq> ''extension'' \<and> k \<noteq> ''modifierExtension''" "p \<in> fst ` set ?L" for p
    using fa_leaf [OF that(1,3)] fp_leaf [OF that] not_special [OF that(3)]
    by (simp add: sd_selected_def differs_def leaf_changed_def)
  have c1: "\<forall>n < length ?fa. ?fa ! n \<in> set ?L \<and> leaf_changed ?L ?PL (fst (?fa ! n))
              \<and> \<not> isFSHValueEmpty u (getFSHValue u n ?fa ''StructureDefinition'' fisher)
              \<longrightarrow> new_rule [] (fst (?fa ! n)) (getFSHValue u n ?fa ''StructureDefinition'' fisher) \<in> set ?rules"
    if new: "?new" and ext: "k \<noteq> ''extension'' \<and> k \<noteq> ''modifierExtension''"
  proof (intro allI impI)
    fix n assume n: "n < length ?fa"
      and h: "?fa ! n \<in> set ?L \<and> leaf_changed ?L ?PL (fst (?fa ! n))
              \<and> \<not> isFSHValueEmpty u (getFSHValue u n ?fa ''StructureDefinition'' fisher)"
    then have p: "fst (?fa ! n) \<in> fst ` set ?L" by auto
    from sel [OF new ext p] h have "sd_selected u fisher config input (fst (?fa ! n))" by simp
    from sd_rule_emitted [OF n this] h
    show "new_rule [] (fst (?fa ! n)) (getFSHValue u n ?fa ''StructureDefinition'' fisher) \<in> set ?rules"
      by (simp add: resolved_empty_def)
  qed
  have c2: "\<forall>r \<in> set ?rules. caretPath r \<in> fst ` set ?L \<longrightarrow> leaf_changed ?L ?PL (caretPath r)"
    if new: "?new" and ext: "k \<noteq> ''extension'' \<and> k \<noteq> ''modifierExtension''"
  proof (intro ballI impI)
    fix r assume "r \<in> set ?rules" and p: "caretPath r \<in> fst ` set ?L"
    from sd_rule_selected [OF this(1)] sel [OF new ext p]
    show "leaf_changed ?L ?PL (caretPath r)" by simp
  qed
  from a kept b c1 c2 show ?thesis by blast
qed

lemma show_nat_1: "show_nat (Suc 0) = ''1''"
  by (simp add: show_nat.simps digit_char_def)

lemma example_extended_prepared:
  "prepared_sd example_extended = example_extended"
  "prepared_parent example_base_fisher example_extended = [(''extension'', JArr [example_X])]"
  by (simp_all add: prepared_sd_def prepared_parent_def example_extended_def example_base_def
      example_base_fisher_def found_parent_def delete_all_def RESOURCE_IGNORED_PROPERTIES_def
      SD_CLEARED_PROPERTIES_def obj_delete_def text_generated_def obj_get_def)

lemma example_new_items:
  "hasNewItems [example_X, example_Y] (Some (JArr [example_X]))"
  "hasNewItems [example_contact] None"
  "differenceWith [example_contact] [example_contact] = []"
  by (simp_all add: hasNewItems_def differenceWith_def isEqual_def example_X_def example_Y_def
      example_contact_def)

lemma example_extended_reconciled:
  "reconcile (prepared_sd example_extended) (prepared_parent example_base_fisher example_extended)
     = (example_extended, [])"
  using example_new_items(1,2)
  by (simp add: example_extended_prepared reconcile_def)
     (simp add: example_extended_def reconcile_step_def obj_get_def obj_delete_def)

lemma example_member_leaves: "member_leaves example_utils k x = flat_json k x"
  by (simp add: member_leaves_def example_utils_def flatten_def)

lemma example_extended_leaves:
  "member_leaves example_utils ''extension'' (JArr [example_X, example_Y]) =
     [(''extension[0].url'', JStr ''http://x''), (''extension[0].valueString'', JStr ''a''),
      (''extension[1].url'', JStr ''http://y''), (''extension[1].valueCodeableConcept'', JObj [])]"
  by (simp add: example_member_leaves example_X_def example_Y_def show_nat_0 show_nat_1)

lemma example_contact_leaves:
  "member_leaves example_utils ''contact'' (JArr [example_contact]) = [(''contact[0].name'', JStr ''n'')]"
  by (simp add: example_member_leaves example_contact_def show_nat_0)

lemma example_extended_flat:
  "sd_flatArray example_utils example_base_fisher example_extended =
     [(''extension[0].url'', JStr ''http://x''), (''extension[0].valueString'', JStr ''a''),
      (''extension[1].url'', JStr ''http://y''), (''extension[1].valueCodeableConcept'', JObj []),
      (''contact[0].name'', JStr ''n'')]"
  "sd_flatParent example_utils example_base_fisher example_extended = []"
  by (simp_all add: sd_flatArray_def sd_flatParent_def example_extended_reconciled example_utils_def
      flatten_def)
     (simp add: example_extended_def example_X_def example_Y_def example_contact_def show_nat_0 show_nat_1)

lemma example_extended_rules:
  "map caretPath (fst (processStructureDefinition example_utils example_extended example_base_fisher example_config))
     = [''extension[0].url'', ''extension[0].valueString'', ''extension[1].url'', ''contact[0].name'']"
  by (simp add: sd_rules_eq example_extended_flat enumerate_eq_zip sd_selected_def differs_def
      resolved_empty_def nullish_def new_rule_def)
     (simp add: example_utils_def)

lemma example_extended_logs:
  "snd (processStructureDefinition example_utils example_extended example_base_fisher example_config)
     = [(Error, ''Value in StructureDefinition undefined for element extension[1].valueCodeableConcept is empty. No caret value rule will be created.'')]"
  apply (simp add: processStructureDefinition_eq example_extended_flat forEach_collect_def enumerate_eq_zip
      sd_entry_cases sd_selected_def differs_def resolved_empty_def nullish_def new_rule_def)
  apply (simp add: example_utils_def found_parent_def example_base_fisher_def example_extended_def
      obj_get_def template_def)
  done

text \<open>
  C4, as stated, fails at the example profile. Its \<open>extension\<close> array \<open>[X, Y]\<close> has the new
  item \<open>Y\<close> against the parent's \<open>[X]\<close>, yet the leaf \<open>extension[1].valueCodeableConcept\<close> of
  \<open>Y\<close>, an empty object whose resolved value is empty, gives no rule: the error of the
  empty-value check is logged instead. Its \<open>contact\<close> array equals the array of the parent
  that the fisher finds, yet its leaf gives a rule: \<open>contact\<close> is cleared from the parent
  copy before the arrays are compared.
\<close>

theorem array_reconciliation_counterexample:
  "example_extended =
     [(''extension'', JArr [JObj [(''url'', JStr ''http://x''), (''valueString'', JStr ''a'')],
                            JObj [(''url'', JStr ''http://y''), (''valueCodeableConcept'', JObj [])]]),
      (''contact'', JArr [JObj [(''name'', JStr ''n'')]])]
   \<and> example_base_fisher (obj_get example_extended ''baseDefinition'') =
       Some [(''extension'', JArr [JObj [(''url'', JStr ''http://x''), (''valueString'', JStr ''a'')]]),
             (''contact'', JArr [JObj [(''name'', JStr ''n'')]])]
   \<and> hasNewItems [example_X, example_Y] (Some (JArr [example_X]))
   \<and> (''extension[1].valueCodeableConcept'', JObj []) \<in> set (member_leaves example_utils ''extension'' (JArr [example_X, example_Y]))
   \<and> isFSHValueEmpty example_utils (JObj [])
   \<and> differenceWith [example_contact] [example_contact] = []
   \<and> (''contact[0].name'', JStr ''n'') \<in> set (member_leaves example_utils ''contact'' (JArr [example_contact]))
   \<and> map caretPath (fst (processStructureDefinition example_utils example_extended example_base_fisher
          example_config))
       = [''extension[0].url'', ''extension[0].valueString'', ''extension[1].url'', ''contact[0].name'']
   \<and> snd (processStructureDefinition example_utils example_extended example_base_fisher example_config)
       = [(Error, ''Value in StructureDefinition undefined for element extension[1].valueCodeableConcept is empty. No caret value rule will be created.'')]"
proof -
  have 1: "example_extended =
     [(''extension'', JArr [JObj [(''url'', JStr ''http://x''), (''valueString'', JStr ''a'')],
                            JObj [(''url'', JStr ''http://y''), (''valueCodeableConcept'', JObj [])]]),
      (''contact'', JArr [JObj [(''name'', JStr ''n'')]])]"
    "example_base_fisher (obj_get example_extended ''baseDefinition'') =
       Some [(''extension'', JArr [JObj [(''url'', JStr ''http://x''), (''valueString'', JStr ''a'')]]),
             (''contact'', JArr [JObj [(''name'', JStr ''n'')]])]"
    by (simp_all add: example_extended_def example_base_fisher_def example_base_def example_X_def
        example_Y_def example_contact_def)
  have 2: "(''contact[0].name'', JStr ''n'') \<in> set (member_leaves example_utils ''contact'' (JArr [example_contact]))"
    unfolding example_contact_leaves by simp
  have 3: "(''extension[1].valueCodeableConcept'', JObj []) \<in> set (member_leaves example_utils ''extension'' (JArr [example_X, example_Y]))"
    unfolding example_extended_leaves by simp
  have 4: "isFSHValueEmpty example_utils (JObj [])" by (simp add: example_utils_def)
  from 1 2 3 4 example_new_items(1,3) example_extended_rules example_extended_logs show ?thesis
    by (intro conjI)
qed

text \<open>
  The amended C4 at the example profile: its \<open>extension\<close> array \<open>[X, Y]\<close> has the new item
  \<open>Y\<close> against the parent's \<open>[X]\<close>, and the leaf \<open>extension[0].url\<close> of the inherited item
  \<open>X\<close> gives a rule.
\<close>

theorem array_reconciliation_witness:
  "by_member example_utils
   \<and> plain_object example_extended
   \<and> plain_object (compared_parent example_base_fisher example_extended)
   \<and> obj_get (prepared_sd example_extended) ''extension'' = Some (JArr [example_X, example_Y])
   \<and> hasNewItems [example_X, example_Y] (obj_get (prepared_parent example_base_fisher example_extended) ''extension'')
   \<and> sd_flatArray example_utils example_base_fisher example_extended ! 0 = (''extension[0].url'', JStr ''http://x'')
   \<and> (''extension[0].url'', JStr ''http://x'') \<in> set (member_leaves example_utils ''extension'' (JArr [example_X, example_Y]))
   \<and> \<not> isFSHValueEmpty example_utils (JStr ''http://x'')
   \<and> new_rule [] ''extension[0].url'' (JStr ''http://x'')
        \<in> set (fst (processStructureDefinition example_utils example_extended example_base_fisher example_config))"
proof -
  let ?fa = "sd_flatArray example_utils example_base_fisher example_extended"
  have 1: "by_member example_utils" by (rule flatten_by_member) (simp add: example_utils_def)
  have 2: "plain_object example_extended"
    by (simp add: plain_object_def plain_def example_extended_def)
  have 3: "plain_object (compared_parent example_base_fisher example_extended)"
    by (simp add: compared_parent_def found_parent_def example_base_fisher_def plain_object_def plain_def
        example_base_def)
  have 4: "obj_get (prepared_sd example_extended) ''extension'' = Some (JArr [example_X, example_Y])"
    by (simp add: example_extended_prepared) (simp add: example_extended_def obj_get_def)
  have 5: "hasNewItems [example_X, example_Y] (obj_get (prepared_parent example_base_fisher example_extended) ''extension'')"
    using example_new_items(1) by (simp add: example_extended_prepared obj_get_def)
  have 6: "?fa ! 0 = (''extension[0].url'', JStr ''http://x'')" and l: "0 < length ?fa"
    by (simp_all add: example_extended_flat)
  have 7: "(''extension[0].url'', JStr ''http://x'') \<in> set (member_leaves example_utils ''extension'' (JArr [example_X, example_Y]))"
    unfolding example_extended_leaves by simp
  have v: "getFSHValue example_utils 0 ?fa ''StructureDefinition'' example_base_fisher = JStr ''http://x''"
    by (simp add: example_utils_def example_extended_flat [unfolded example_utils_def])
  have 8: "\<not> isFSHValueEmpty example_utils (JStr ''http://x'')" by (simp add: example_utils_def)
  from array_reconciliation [where u = example_utils and input = example_extended
      and fisher = example_base_fisher and k = "''extension''" and items = "[example_X, example_Y]"
      and config = example_config, OF 1 2 3 4] 5
  have "\<forall>n < length ?fa.
          ?fa ! n \<in> set (member_leaves example_utils ''extension'' (JArr [example_X, example_Y]))
          \<and> \<not> isFSHValueEmpty example_utils (getFSHValue example_utils n ?fa ''StructureDefinition'' example_base_fisher)
          \<longrightarrow> new_rule [] (fst (?fa ! n)) (getFSHValue example_utils n ?fa ''StructureDefinition'' example_base_fisher)
               \<in> set (fst (processStructureDefinition example_utils example_extended example_base_fisher example_config))"
    by simp
  from this [rule_format, OF l] 6 7 8 v
  have "new_rule [] ''extension[0].url'' (JStr ''http://x'')
        \<in> set (fst (processStructureDefinition example_utils example_extended example_base_fisher example_config))"
    by simp
  with 1 2 3 4 5 6 7 8 show ?thesis by blast
qed

end
